theory Spec2Isabelle
  imports Complex_Main
begin

section \<open>A shallow embedding of the batched self-organizing map (somber/som.py)\<close>

text \<open>
  The model follows \<^verbatim>\<open>src/somber/som.py\<close>.  A two-dimensional array is the list of its
  rows, a three-dimensional array the list of its two-dimensional slices.  The entries of
  the arrays are real numbers: the additions, multiplications and divisions of the program
  are read as exact arithmetic.  The rounding of the 32-bit floating point numbers is
  written out in two places: the conversion of the integer distance grid, which can be
  computed on integers, and a second reading of the scaler in which every operation
  rounds, for the data at which the rounding decides where the seeded weights lie.
  Exceptions of the program are values of type \<open>pyerror\<close>; a method that assigns to fields
  of the object returns the updated object.
\<close>

subsection \<open>Errors and generic helpers\<close>

datatype pyerror =
  ValueError string | ZeroDivisionError | IndexError | TypeError | KeyError | FileNotFoundError

text \<open>A list comprehension whose body may raise stops at the first exception.\<close>

fun sequence_sum :: "('e + 'a) list \<Rightarrow> 'e + 'a list" where
  "sequence_sum [] = Inr []"
| "sequence_sum (x # xs) =
     (case x of
        Inl e \<Rightarrow> Inl e
      | Inr v \<Rightarrow> (case sequence_sum xs of Inl e \<Rightarrow> Inl e | Inr vs \<Rightarrow> Inr (v # vs)))"

text \<open>Sequencing of two steps of which the first may raise.\<close>

definition bind_err :: "'e + 'a \<Rightarrow> ('a \<Rightarrow> 'e + 'b) \<Rightarrow> 'e + 'b" where
  "bind_err x f = (case x of Inl e \<Rightarrow> Inl e | Inr v \<Rightarrow> f v)"

subsection \<open>Arrays\<close>

text \<open>
  \<open>matrix n d X\<close>: the list \<open>X\<close> is an array of shape \<open>(n, d)\<close>, and \<open>tensor a b c T\<close>: the
  list \<open>T\<close> is an array of shape \<open>(a, b, c)\<close>.  An array without rows is the empty list,
  whatever its number of columns.
\<close>

definition matrix :: "nat \<Rightarrow> nat \<Rightarrow> 'a list list \<Rightarrow> bool" where
  "matrix n d X \<longleftrightarrow> length X = n \<and> (\<forall>r \<in> set X. length r = d)"

definition tensor :: "nat \<Rightarrow> nat \<Rightarrow> nat \<Rightarrow> 'a list list list \<Rightarrow> bool" where
  "tensor a b c T \<longleftrightarrow> length T = a \<and> (\<forall>s \<in> set T. matrix b c s)"

definition column :: "real list list \<Rightarrow> nat \<Rightarrow> real list" where
  "column X f = map (\<lambda>r. r ! f) X"

definition ncols :: "real list list \<Rightarrow> nat" where
  "ncols X = (case X of [] \<Rightarrow> 0 | r # _ \<Rightarrow> length r)"

text \<open>
  An array that is passed in from outside: the module it belongs to (\<^verbatim>\<open>numpy\<close>, or
  \<^verbatim>\<open>cupy\<close> for an array on the accelerator), its shape, and, for a two-dimensional array,
  its rows.
\<close>

datatype backend = Numpy | Cupy

record ndarray =
  module :: backend
  shape :: "nat list"
  rows :: "real list list"

definition wf_array :: "nat \<Rightarrow> nat \<Rightarrow> ndarray \<Rightarrow> bool" where
  "wf_array n d X \<longleftrightarrow> shape X = [n, d] \<and> matrix n d (rows X)"

text \<open>The Euclidean distance of two vectors, for the statements about the best matching unit.\<close>

definition euclidean :: "real list \<Rightarrow> real list \<Rightarrow> real" where
  "euclidean x w = sqrt (sum_list (map (\<lambda>v. v ^ 2) (map2 (-) x w)))"

text \<open>
  \<^verbatim>\<open>X.mean(0)\<close> and \<^verbatim>\<open>X.std(0)\<close>: mean and standard deviation of every column; the
  standard deviation is the root of the mean of \<open>\<bar>x - mean\<bar>\<^sup>2\<close>.  For an array without
  rows the array library returns not-a-number for every column (with a warning, no
  exception); the model has the empty vector there, and every statement about these
  values is about arrays with at least one row.
\<close>

definition mean_list :: "real list \<Rightarrow> real" where
  "mean_list xs = sum_list xs / real (length xs)"

definition std_list :: "real list \<Rightarrow> real" where
  "std_list xs = sqrt (mean_list (map (\<lambda>x. \<bar>x - mean_list xs\<bar> ^ 2) xs))"

definition mean_axis0 :: "real list list \<Rightarrow> real list" where
  "mean_axis0 X = map (\<lambda>f. mean_list (column X f)) [0..<ncols X]"

definition std_axis0 :: "real list list \<Rightarrow> real list" where
  "std_axis0 X = map (\<lambda>f. std_list (column X f)) [0..<ncols X]"

text \<open>
  Broadcasting of a vector against the rows of a matrix: the lengths agree, or one of them
  is 1; anything else raises ValueError.
\<close>

definition broadcast_row ::
  "(real \<Rightarrow> real \<Rightarrow> real) \<Rightarrow> real list \<Rightarrow> real list \<Rightarrow> pyerror + real list" where
  "broadcast_row f r v =
     (if length r = length v then Inr (map2 f r v)
      else if length v = 1 then Inr (map (\<lambda>x. f x (hd v)) r)
      else if length r = 1 then Inr (map (f (hd r)) v)
      else Inl (ValueError ''operands could not be broadcast together''))"

subsection \<open>Conversion of an integer to a 32-bit floating point number\<close>

text \<open>
  \<^verbatim>\<open>xp.array(p, dtype=xp.float32)\<close> converts 64-bit integers to IEEE single precision:
  24 significant bits, round to nearest, ties to the even significand.  \<open>f32_shift a\<close> is
  the number of low bits of \<open>a\<close> that do not fit; the result is given as the number it
  denotes.  (Numbers from \<open>2^128\<close> on would become infinite; no distance of a map that fits
  into memory is that large.)
\<close>

fun f32_shift :: "nat \<Rightarrow> nat" where
  "f32_shift a = (if a < 2 ^ 24 then 0 else Suc (f32_shift (a div 2)))"

declare f32_shift.simps [simp del]

definition float32_of_int :: "int \<Rightarrow> real" where
  "float32_of_int n =
     (let a = nat \<bar>n\<bar>;
          e = f32_shift a;
          q = a div 2 ^ e;
          r = a mod 2 ^ e;
          q' = (if 2 ^ e < 2 * r \<or> (2 * r = 2 ^ e \<and> odd q) then q + 1 else q)
      in real_of_int (sgn n * int (q' * 2 ^ e)))"

subsection \<open>Rounding to a 32-bit floating point number\<close>

text \<open>
  The result of an operation on 32-bit floating point numbers is the exact result, rounded
  to 24 significant bits: to the nearest such number, and of two that are equally near
  to the one with the even significand.  \<open>\<lfloor>log 2 \<bar>x\<bar>\<rfloor>\<close> is the exponent of \<open>x\<close>.  (Results
  below \<open>2^-126\<close> have fewer bits and results from \<open>2^128\<close> on are infinite; the numbers of
  the scaler below are far from both.)
\<close>

definition round_even :: "real \<Rightarrow> int" where
  "round_even x =
     (let q = \<lfloor>x\<rfloor>; r = x - of_int q
      in if 1 / 2 < r \<or> (r = 1 / 2 \<and> odd q) then q + 1 else q)"

definition float32 :: "real \<Rightarrow> real" where
  "float32 x =
     (if x = 0 then 0
      else let e = \<lfloor>log 2 \<bar>x\<bar>\<rfloor> - 23
           in of_int (round_even (x / 2 powr of_int e)) * 2 powr of_int e)"

subsection \<open>The scaler\<close>

text \<open>
  \<^verbatim>\<open>Scaler.__init__\<close> stores the integer 0 in \<^verbatim>\<open>mean\<close> and \<^verbatim>\<open>std\<close>; \<^verbatim>\<open>fit\<close> stores one number
  per feature.  A scalar is broadcast against every column.
\<close>

datatype stat = Scalar real | Vector "real list"

record Scaler =
  mean :: stat
  std :: stat
  is_fit :: bool

definition Scaler_init :: Scaler where
  "Scaler_init = \<lparr>mean = Scalar 0, std = Scalar 0, is_fit = False\<rparr>"

definition broadcast_stat ::
  "(real \<Rightarrow> real \<Rightarrow> real) \<Rightarrow> real list list \<Rightarrow> stat \<Rightarrow> pyerror + real list list" where
  "broadcast_stat f X s =
     (case s of
        Scalar c \<Rightarrow> Inr (map (map (\<lambda>x. f x c)) X)
      | Vector v \<Rightarrow> sequence_sum (map (\<lambda>r. broadcast_row f r v) X))"

definition stat_add :: "stat \<Rightarrow> real \<Rightarrow> stat" where
  "stat_add s c =
     (case s of Scalar a \<Rightarrow> Scalar (a + c) | Vector v \<Rightarrow> Vector (map (\<lambda>a. a + c) v))"

text \<open>\<^verbatim>\<open>Scaler.fit\<close> stores the mean and the standard deviation of every feature.\<close>

definition Scaler_fit :: "Scaler \<Rightarrow> real list list \<Rightarrow> Scaler" where
  "Scaler_fit s X =
     s\<lparr>mean := Vector (mean_axis0 X), std := Vector (std_axis0 X), is_fit := True\<rparr>"

text \<open>\<^verbatim>\<open>Scaler.transform\<close>: \<^verbatim>\<open>(X-self.mean) / (self.std + 10e-6)\<close>.\<close>

definition Scaler_transform :: "Scaler \<Rightarrow> real list list \<Rightarrow> pyerror + real list list" where
  "Scaler_transform s X =
     bind_err (broadcast_stat (-) X (mean s))
       (\<lambda>Y. broadcast_stat (/) Y (stat_add (std s) (10 / 10 ^ 6)))"

text \<open>\<^verbatim>\<open>Scaler.inverse_transform\<close>: \<^verbatim>\<open>(X * self.std) + self.mean\<close>.\<close>

definition Scaler_inverse_transform :: "Scaler \<Rightarrow> real list list \<Rightarrow> pyerror + real list list" where
  "Scaler_inverse_transform s X =
     bind_err (broadcast_stat (*) X (std s)) (\<lambda>Y. broadcast_stat (+) Y (mean s))"

text \<open>\<^verbatim>\<open>Scaler.fit_transform\<close>: the result of the transformation and the fitted scaler.\<close>

definition Scaler_fit_transform ::
  "Scaler \<Rightarrow> real list list \<Rightarrow> (pyerror + real list list) \<times> Scaler" where
  "Scaler_fit_transform s X = (let s' = Scaler_fit s X in (Scaler_transform s' X, s'))"

text \<open>
  A feature that is 0 in a million rows and 1 in one row: the input at which the
  round trip of the scaler is evaluated below.
\<close>

definition rare_feature :: "real list list" where
  "rare_feature = replicate 1000000 [0] @ [[1]]"

subsection \<open>The scaler on 32-bit floating point numbers\<close>









subsection \<open>The map\<close>

text \<open>
  \<^verbatim>\<open>lrfunc\<close> and \<^verbatim>\<open>nbfunc\<close> are function objects; \<^verbatim>\<open>save\<close> compares them with \<^verbatim>\<open>expo\<close>, so
  the model keeps which function it is.  \<^verbatim>\<open>min_max\<close> is called only with axis 1: it maps a
  matrix to the extremum of every row and its position.  \<^verbatim>\<open>distance_grid\<close> is \<^verbatim>\<open>None\<close>
  until \<^verbatim>\<open>fit\<close> builds it.
\<close>

datatype decay = Expo | Linear | Other_decay nat

type_synonym selector = "real list list \<Rightarrow> pyerror + (real list \<times> nat list)"

record Som =
  sigma :: real
  learning_rate :: real
  map_dimensions :: "nat list"
  weight_dim :: nat
  weights :: "real list list"
  data_dim :: nat
  lrfunc :: decay
  nbfunc :: decay
  distance_grid :: "real list list list option"
  min_max :: selector
  trained :: bool
  scaler :: Scaler

text \<open>
  Modelled from the spec: \<^verbatim>\<open>utils.np_min\<close> and \<^verbatim>\<open>utils.np_max\<close> (the file is not part of
  the sources).  The spec calls them the extremum selector, by default arg-min over the
  units; they return the extremum of every row and its index.  As \<^verbatim>\<open>argmin\<close> and \<^verbatim>\<open>argmax\<close>
  of the array library do, the index is the first one that holds the extremum, and a row
  without entries raises ValueError.
\<close>

definition first_index :: "'a \<Rightarrow> 'a list \<Rightarrow> nat" where
  "first_index x xs = length (takeWhile (\<lambda>y. y \<noteq> x) xs)"

definition np_min :: selector where
  "np_min a =
     (if \<exists>r \<in> set a. r = [] then Inl (ValueError ''zero-size array to reduction operation'')
      else Inr (map (\<lambda>r. Min (set r)) a, map (\<lambda>r. first_index (Min (set r)) r) a))"

definition np_max :: selector where
  "np_max a =
     (if \<exists>r \<in> set a. r = [] then Inl (ValueError ''zero-size array to reduction operation'')
      else Inr (map (\<lambda>r. Max (set r)) a, map (\<lambda>r. first_index (Max (set r)) r) a))"

text \<open>
  \<^verbatim>\<open>Som.__init__\<close>.  Without a \<^verbatim>\<open>sigma\<close> the radius is \<^verbatim>\<open>max(map_dim) / 2.0 + 0.01\<close>, and
  \<^verbatim>\<open>max\<close> of an empty tuple raises ValueError.  \<^verbatim>\<open>weight_dim\<close> is the product of the
  dimensions, the weights are zero.
\<close>

definition Som_init ::
  "nat list \<Rightarrow> nat \<Rightarrow> real \<Rightarrow> decay \<Rightarrow> decay \<Rightarrow> real option \<Rightarrow> selector \<Rightarrow> pyerror + Som" where
  "Som_init map_dim ddim lr lrf nbf sig mm =
     (case (case sig of
              Some s \<Rightarrow> Inr s
            | None \<Rightarrow> if map_dim = [] then Inl (ValueError ''max() arg is an empty sequence'')
                      else Inr (real (Max (set map_dim)) / 2 + 1 / 100)) of
        Inl e \<Rightarrow> Inl e
      | Inr s \<Rightarrow>
          Inr \<lparr>sigma = s, learning_rate = lr, map_dimensions = map_dim,
               weight_dim = prod_list map_dim,
               weights = replicate (prod_list map_dim) (replicate ddim 0),
               data_dim = ddim, lrfunc = lrf, nbfunc = nbf, distance_grid = None,
               min_max = mm, trained = False, scaler = Scaler_init\<rparr>)"

subsection \<open>The distance grid\<close>

text \<open>
  \<^verbatim>\<open>_grid_distance\<close>: unpacking \<^verbatim>\<open>width, height = self.map_dimensions\<close> raises ValueError
  unless there are exactly two dimensions, and \<^verbatim>\<open>index // height\<close> raises
  ZeroDivisionError for height 0.  The result is the \<open>width \<times> height\<close> matrix
  \<^verbatim>\<open>x[:, None] + y[None, :]\<close> of integers.
\<close>

definition grid_distance :: "('a Som_scheme) \<Rightarrow> nat \<Rightarrow> pyerror + int list list" where
  "grid_distance m index =
     (case map_dimensions m of
        [width, height] \<Rightarrow>
          if height = 0 then Inl ZeroDivisionError
          else
            let row = int (index div height);
                column = int (index mod height);
                x = map (\<lambda>a. \<bar>int a - row\<bar> ^ 2) [0..<width];
                y = map (\<lambda>a. \<bar>int a - column\<bar> ^ 2) [0..<height]
            in Inr (map (\<lambda>xv. map (\<lambda>yv. xv + yv) y) x)
      | _ \<Rightarrow> Inl (ValueError ''wrong number of values to unpack''))"

text \<open>
  \<^verbatim>\<open>_initialize_distance_grid\<close>: one call of \<^verbatim>\<open>_grid_distance\<close> for every index below
  \<^verbatim>\<open>weight_dim\<close>, converted to 32-bit floating point numbers; the shape is
  \<open>(weight_dim, width, height)\<close>.
\<close>

definition initialize_distance_grid :: "('a Som_scheme) \<Rightarrow> pyerror + real list list list" where
  "initialize_distance_grid m =
     (case sequence_sum (map (grid_distance m) [0..<weight_dim m]) of
        Inl e \<Rightarrow> Inl e
      | Inr p \<Rightarrow> Inr (map (map (map float32_of_int)) p))"

text \<open>
  \<^verbatim>\<open>_calculate_influence\<close> reads the grid through \<^verbatim>\<open>reshape(weight_dim, weight_dim)\<close>: row
  \<open>i\<close> of that view is slice \<open>i\<close> in row-major order.
\<close>

definition grid_rows :: "'a list list list \<Rightarrow> 'a list list" where
  "grid_rows g = map concat g"

subsection \<open>Forward and backward pass\<close>

text \<open>
  Broadcasting along one axis of two arrays of the same rank: the lengths agree, or one of
  them is 1.  \<open>g\<close> combines the entries, which are arrays of lower rank.  For an assignment
  in place (\<^verbatim>\<open>+=\<close>) only the right operand may be stretched.
\<close>

definition broadcast_axis ::
  "('a \<Rightarrow> 'b \<Rightarrow> pyerror + 'c) \<Rightarrow> 'a list \<Rightarrow> 'b list \<Rightarrow> pyerror + 'c list" where
  "broadcast_axis g xs ys =
     (if length xs = length ys then sequence_sum (map2 g xs ys)
      else if length ys = 1 then sequence_sum (map (\<lambda>x. g x (hd ys)) xs)
      else if length xs = 1 then sequence_sum (map (g (hd xs)) ys)
      else Inl (ValueError ''operands could not be broadcast together''))"

definition broadcast_into ::
  "('a \<Rightarrow> 'b \<Rightarrow> pyerror + 'a) \<Rightarrow> 'a list \<Rightarrow> 'b list \<Rightarrow> pyerror + 'a list" where
  "broadcast_into g xs ys =
     (if length xs = length ys then sequence_sum (map2 g xs ys)
      else if length ys = 1 then sequence_sum (map (\<lambda>x. g x (hd ys)) xs)
      else Inl (ValueError ''operands could not be broadcast together''))"

text \<open>\<^verbatim>\<open>_distance_difference\<close>: \<^verbatim>\<open>x[:, None, :] - weights[None, :, :]\<close>.\<close>

definition distance_difference ::
  "real list list \<Rightarrow> real list list \<Rightarrow> pyerror + real list list list" where
  "distance_difference x w =
     sequence_sum (map (\<lambda>xr. sequence_sum (map (\<lambda>wr. broadcast_row (-) xr wr) w)) x)"

text \<open>
  \<^verbatim>\<open>distance_function\<close>: the activations are the Euclidean norms of the differences along
  the last axis.
\<close>

definition norm_axis2 :: "real list list list \<Rightarrow> real list list" where
  "norm_axis2 diff = map (map (\<lambda>d. sqrt (sum_list (map (\<lambda>v. \<bar>v\<bar> ^ 2) d)))) diff"

definition distance_function ::
  "real list list \<Rightarrow> real list list \<Rightarrow> pyerror + (real list list \<times> real list list list)" where
  "distance_function x w =
     bind_err (distance_difference x w) (\<lambda>diff. Inr (norm_axis2 diff, diff))"

definition forward ::
  "('a Som_scheme) \<Rightarrow> real list list \<Rightarrow> pyerror + (real list list \<times> real list list list)" where
  "forward m x = distance_function x (weights m)"

text \<open>
  \<^verbatim>\<open>_apply_influences\<close>: the best matching units are the second component of \<^verbatim>\<open>min_max\<close>;
  \<^verbatim>\<open>influences[bmu]\<close> gathers one slice for every example and raises IndexError for an
  index that is out of range.
\<close>

definition apply_influences ::
  "('a Som_scheme) \<Rightarrow> real list list \<Rightarrow> real list list list \<Rightarrow> pyerror + real list list list" where
  "apply_influences m activations influences =
     bind_err (min_max m activations)
       (\<lambda>(vals, bmu).
          if \<forall>i \<in> set bmu. i < length influences
          then Inr (map (\<lambda>i. influences ! i) bmu)
          else Inl IndexError)"

text \<open>\<^verbatim>\<open>_calculate_update\<close>: \<^verbatim>\<open>xp.multiply(x, influence)\<close> on three-dimensional arrays.\<close>

definition calculate_update ::
  "real list list list \<Rightarrow> real list list list \<Rightarrow> pyerror + real list list list" where
  "calculate_update x influence =
     broadcast_axis (broadcast_axis (broadcast_row (*))) x influence"

text \<open>
  \<^verbatim>\<open>update.mean(0)\<close>: the mean over the first axis of a three-dimensional array, a matrix
  with one row per unit.
\<close>

definition mean_batch :: "real list list list \<Rightarrow> real list list" where
  "mean_batch update =
     map (\<lambda>u. mean_axis0 (map (\<lambda>a. a ! u) update))
       [0..<(case update of [] \<Rightarrow> 0 | a # _ \<Rightarrow> length a)]"

text \<open>\<^verbatim>\<open>backward\<close>: \<^verbatim>\<open>self.weights += update.mean(0)\<close>; no other field is assigned.\<close>

definition backward ::
  "('a Som_scheme) \<Rightarrow> real list list list \<Rightarrow> real list list list \<Rightarrow> real list list \<Rightarrow>
     pyerror + ('a Som_scheme)" where
  "backward m diff_x influences activation =
     bind_err (apply_influences m activation influences)
       (\<lambda>influence.
          bind_err (calculate_update diff_x influence)
            (\<lambda>update.
               bind_err
                 (broadcast_into (broadcast_into (\<lambda>w d. Inr (w + d))) (weights m) (mean_batch update))
                 (\<lambda>w. Inr (m\<lparr>weights := w\<rparr>))))"

text \<open>\<^verbatim>\<open>_propagate\<close>: forward, then backward; returns the activation and the updated map.\<close>

definition propagate ::
  "('a Som_scheme) \<Rightarrow> real list list \<Rightarrow> real list list list \<Rightarrow>
     pyerror + (real list list \<times> ('a Som_scheme))" where
  "propagate m x influences =
     bind_err (forward m x)
       (\<lambda>(activation, difference_x).
          bind_err (backward m difference_x influences activation)
            (\<lambda>m'. Inr (activation, m')))"

subsection \<open>Batches and prediction\<close>

text \<open>
  \<^verbatim>\<open>_check_input\<close>: the input has two dimensions and as many columns as \<^verbatim>\<open>data_dim\<close>.
\<close>

definition check_input :: "('a Som_scheme) \<Rightarrow> ndarray \<Rightarrow> pyerror + unit" where
  "check_input m X =
     (if length (shape X) \<noteq> 2 then Inl (ValueError ''Your data is not a 2D matrix.'')
      else if shape X ! 1 \<noteq> data_dim m then Inl (ValueError ''Your data size != weight dim'')
      else Inr ())"

text \<open>
  Modelled from the spec: \<^verbatim>\<open>utils.resize\<close> (the file is not part of the sources).  The spec
  of the batcher: the array is padded with zero rows to \<open>a * b\<close> rows and reshaped to
  \<open>(a, b, d)\<close>.  An array with more than \<open>a * b\<close> rows cannot be padded.
\<close>

definition resize :: "real list list \<Rightarrow> nat \<times> nat \<times> nat \<Rightarrow> pyerror + real list list list" where
  "resize X new_shape =
     (case new_shape of
        (a, b, d) \<Rightarrow>
          if a * b < length X then Inl (ValueError ''negative dimensions are not allowed'')
          else
            let z = X @ replicate (a * b - length X) (replicate d 0)
            in Inr (map (\<lambda>i. take b (drop (i * b) z)) [0..<a]))"

text \<open>
  \<^verbatim>\<open>_create_batches\<close> for an array with the rows \<open>X\<close> and \<open>d\<close> columns.  \<open>shuffle_data\<close> is
  \<open>None\<close> for \<^verbatim>\<open>shuffle_data=False\<close>, and otherwise the rearrangement of the rows that the
  random shuffle makes.  \<^verbatim>\<open>X.shape[0] / batch_size\<close> raises ZeroDivisionError for a batch
  size of 0, which is also what an array without rows leads to.
\<close>

definition create_batches ::
  "real list list \<Rightarrow> nat \<Rightarrow> nat \<Rightarrow> (real list list \<Rightarrow> real list list) option \<Rightarrow>
     pyerror + real list list list" where
  "create_batches X d batch_size shuffle_data =
     (let X = (case shuffle_data of None \<Rightarrow> X | Some sh \<Rightarrow> sh X);
          batch_size = (if length X < batch_size then length X else batch_size)
      in if batch_size = 0 then Inl ZeroDivisionError
         else
           let max_x = nat \<lceil>real (length X) / real batch_size\<rceil>
           in resize X (max_x, batch_size, d))"

text \<open>
  \<^verbatim>\<open>_predict_base\<close>: the activations of all batches in order, cut to the \<^verbatim>\<open>X.shape[0]\<close>
  rows of the input; \<^verbatim>\<open>reshape(X.shape[0], self.weight_dim)\<close> raises ValueError unless
  every row has \<^verbatim>\<open>weight_dim\<close> entries.  No field of the map is assigned.
\<close>

definition predict_base :: "('a Som_scheme) \<Rightarrow> ndarray \<Rightarrow> nat \<Rightarrow> pyerror + real list list" where
  "predict_base m X batch_size =
     bind_err (check_input m X)
       (\<lambda>_. bind_err (create_batches (rows X) (shape X ! 1) batch_size None)
          (\<lambda>batched.
             bind_err (sequence_sum (map (\<lambda>x. bind_err (forward m x) (\<lambda>(a, d). Inr a)) batched))
               (\<lambda>acts.
                  let activations = take (shape X ! 0) (concat acts)
                  in if \<forall>r \<in> set activations. length r = weight_dim m then Inr activations
                     else Inl (ValueError ''cannot reshape array''))))"

text \<open>\<^verbatim>\<open>predict\<close>: the positions that \<^verbatim>\<open>min_max\<close> selects in the rows of the activations.\<close>

definition predict :: "('a Som_scheme) \<Rightarrow> ndarray \<Rightarrow> nat \<Rightarrow> pyerror + nat list" where
  "predict m X batch_size =
     bind_err (predict_base m X batch_size)
       (\<lambda>dist. bind_err (min_max m dist) (\<lambda>(vals, res). Inr res))"

text \<open>\<^verbatim>\<open>quant_error\<close>: the extremum itself.\<close>

definition quant_error :: "('a Som_scheme) \<Rightarrow> ndarray \<Rightarrow> nat \<Rightarrow> pyerror + real list" where
  "quant_error m X batch_size =
     bind_err (predict_base m X batch_size)
       (\<lambda>dist. bind_err (min_max m dist) (\<lambda>(vals, res). Inr vals))"

subsection \<open>Training\<close>

text \<open>
  What \<^verbatim>\<open>fit\<close> takes from outside the class, as parameters of the model: the
  rearrangement of the rows that the \<open>k\<close>-th call of \<^verbatim>\<open>shuffle\<close> makes, the \<open>k\<close>-th number
  that the generator draws after \<^verbatim>\<open>xp.random.seed(seed)\<close>, the components and the explained
  variance that the principal component analysis of the \<^verbatim>\<open>sklearn\<close> library returns, and
  the value that a schedule function returns for an initial value, a step and a positive
  total number of steps.
\<close>

record world =
  shuffle_rows :: "nat \<Rightarrow> nat \<Rightarrow> real list list \<Rightarrow> real list list"
  random_rand :: "nat \<Rightarrow> nat \<Rightarrow> real"
  pca_fit :: "real list list \<Rightarrow> pyerror + (real list list \<times> real list)"
  decay_value :: "decay \<Rightarrow> real \<Rightarrow> nat \<Rightarrow> nat \<Rightarrow> real"

text \<open>
  \<^verbatim>\<open>xp.random.rand(a, b)\<close>: an array of the shape \<open>(a, b)\<close>, filled row by row with the
  numbers that the generator draws.
\<close>

definition rand :: "world \<Rightarrow> nat \<Rightarrow> nat \<Rightarrow> nat \<Rightarrow> real list list" where
  "rand wd seed a b = map (\<lambda>i. map (\<lambda>j. random_rand wd seed (i * b + j)) [0..<b]) [0..<a]"

text \<open>
  Modelled from the spec: the schedule functions \<^verbatim>\<open>utils.expo\<close> and \<^verbatim>\<open>utils.linear\<close> (the
  file is not part of the sources).  The spec calls them the exponential and the linear
  decay, pure functions of the initial value, the current step and the total steps.
  Both decay over the quotient by the total number of steps, and Python's division raises
  ZeroDivisionError when that number is 0; otherwise the value is the parameter
  \<open>decay_value\<close>.  Another function object that the constructor was given is not known to
  divide, and returns its value.
\<close>

definition schedule :: "world \<Rightarrow> decay \<Rightarrow> real \<Rightarrow> nat \<Rightarrow> nat \<Rightarrow> pyerror + real" where
  "schedule wd f v current_step total_steps =
     (if total_steps = 0 \<and> (f = Expo \<or> f = Linear) then Inl ZeroDivisionError
      else Inr (decay_value wd f v current_step total_steps))"

text \<open>
  \<^verbatim>\<open>_calculate_influence\<close>: \<^verbatim>\<open>exp(-distance_grid / (2.0 * sigma ** 2))\<close>, reshaped to
  \<open>(weight_dim, weight_dim)\<close> with a last axis of length 1.  Without a distance grid the
  negation raises TypeError; the reshape raises ValueError unless the grid has
  \<open>weight_dim\<^sup>2\<close> entries.  (For \<open>sigma = 0\<close> the array library divides by zero and yields
  infinite values with a warning; the model has the division of the reals there.)
\<close>

definition reshape2 :: "'a list \<Rightarrow> nat \<Rightarrow> nat \<Rightarrow> pyerror + 'a list list" where
  "reshape2 flat a b =
     (if length flat = a * b then Inr (map (\<lambda>i. take b (drop (i * b) flat)) [0..<a])
      else Inl (ValueError ''cannot reshape array''))"

definition calculate_influence :: "('a Som_scheme) \<Rightarrow> real \<Rightarrow> pyerror + real list list list" where
  "calculate_influence m sig =
     (case distance_grid m of
        None \<Rightarrow> Inl TypeError
      | Some g \<Rightarrow>
          let grid = map (map (map (\<lambda>v. exp (- v / (2 * sig ^ 2))))) g
          in bind_err (reshape2 (concat (concat grid)) (weight_dim m) (weight_dim m))
               (\<lambda>r. Inr (map (map (\<lambda>v. [v])) r)))"

definition scale3 :: "real \<Rightarrow> real list list list \<Rightarrow> real list list list" where
  "scale3 c a = map (map (map (\<lambda>v. v * c))) a"

definition unscale3 :: "real \<Rightarrow> real list list list \<Rightarrow> real list list list" where
  "unscale3 c a = map (map (map (\<lambda>v. v / c))) a"

text \<open>
  \<^verbatim>\<open>xp.arange(start, stop, step)\<close> for a positive step, and the steps at which a parameter
  is updated: \<^verbatim>\<open>max((train_len * stop_updates) // total_updates, 1)\<close> is the step size, and
  the floor division raises ZeroDivisionError for \<^verbatim>\<open>total_updates = 0\<close>.
\<close>

definition np_arange :: "real \<Rightarrow> real \<Rightarrow> real \<Rightarrow> real list" where
  "np_arange start stop step =
     map (\<lambda>i. start + real i * step) [0..<nat \<lceil>(stop - start) / step\<rceil>]"

definition update_steps :: "nat \<Rightarrow> real \<Rightarrow> nat \<Rightarrow> pyerror + real list" where
  "update_steps train_len stop_updates total_updates =
     (if total_updates = 0 then Inl ZeroDivisionError
      else
        let step_size = max (real_of_int \<lfloor>real train_len * stop_updates / real total_updates\<rfloor>) 1;
            stop = real train_len * stop_updates
        in Inr (np_arange step_size (stop + step_size) step_size))"

text \<open>
  The variables that \<^verbatim>\<open>fit\<close> and \<^verbatim>\<open>_epoch\<close> pass around, together with the map: the index
  of the batch, the numbers of updates of the neighbourhood and of the learning rate,
  and the influences.
\<close>

record train_state =
  ts_som :: Som
  ts_idx :: nat
  ts_nb_step :: nat
  ts_lr_step :: nat
  ts_influences :: "real list list list"

text \<open>
  The two updates in the body of the loop of \<^verbatim>\<open>_epoch\<close>.  \<open>lr\<close> is the local variable
  \<^verbatim>\<open>learning_rate\<close>; the steps are the lists whose sets are \<^verbatim>\<open>nb_update_steps\<close> and
  \<^verbatim>\<open>lr_update_steps\<close>.
\<close>

definition nb_update :: "world \<Rightarrow> real list \<Rightarrow> real \<Rightarrow> train_state \<Rightarrow> pyerror + train_state" where
  "nb_update wd nb_update_steps lr st =
     (if real (ts_idx st) \<in> set nb_update_steps then
        let nb = ts_nb_step st + 1
        in bind_err (schedule wd (nbfunc (ts_som st)) (sigma (ts_som st)) nb
                       (card (set nb_update_steps)))
             (\<lambda>map_radius.
                bind_err (calculate_influence (ts_som st) map_radius)
                  (\<lambda>infl. Inr (st\<lparr>ts_nb_step := nb, ts_influences := scale3 lr infl\<rparr>)))
      else Inr st)"

definition lr_update ::
  "world \<Rightarrow> real list \<Rightarrow> real \<Rightarrow> train_state \<Rightarrow> pyerror + (real \<times> train_state)" where
  "lr_update wd lr_update_steps lr st =
     (if real (ts_idx st) \<in> set lr_update_steps then
        let ls = ts_lr_step st + 1;
            infl = unscale3 lr (ts_influences st)
        in bind_err (schedule wd (lrfunc (ts_som st)) (learning_rate (ts_som st)) ls
                       (card (set lr_update_steps)))
             (\<lambda>lr'. Inr (lr', st\<lparr>ts_lr_step := ls, ts_influences := scale3 lr' infl\<rparr>))
      else Inr (lr, st))"

text \<open>
  The loop over the batches of \<^verbatim>\<open>_epoch\<close>.  The last batch is cut to the rows of the data
  (\<^verbatim>\<open>x[:data_len - (num_processed + batch_size)]\<close>, a negative end of the slice).  The
  result is the exception, if one was raised, and the state at that point.
\<close>

fun batch_loop ::
  "world \<Rightarrow> real list \<Rightarrow> real list \<Rightarrow> nat \<Rightarrow> nat \<Rightarrow> real list list list \<Rightarrow> nat \<Rightarrow> real \<Rightarrow>
     train_state \<Rightarrow> pyerror option \<times> train_state" where
  "batch_loop wd nbs lrs bs data_len [] num_processed lr st = (None, st)"
| "batch_loop wd nbs lrs bs data_len (x # xs) num_processed lr st =
     (let x' = (if data_len < num_processed + bs
                then take (length x - (num_processed + bs - data_len)) x else x)
      in case propagate (ts_som st) x' (ts_influences st) of
           Inl e \<Rightarrow> (Some e, st)
         | Inr (activation, m') \<Rightarrow>
             (case nb_update wd nbs lr (st\<lparr>ts_som := m'\<rparr>) of
                Inl e \<Rightarrow> (Some e, st\<lparr>ts_som := m'\<rparr>)
              | Inr st1 \<Rightarrow>
                  (case lr_update wd lrs lr st1 of
                     Inl e \<Rightarrow> (Some e, st1)
                   | Inr (lr', st2) \<Rightarrow>
                       batch_loop wd nbs lrs bs data_len xs (num_processed + bs) lr'
                         (st2\<lparr>ts_idx := ts_idx st2 + 1\<rparr>))))"

text \<open>
  \<^verbatim>\<open>_epoch\<close>: the data are shuffled and batched, the learning rate is that of the current
  step.  \<open>k\<close> numbers the calls of \<^verbatim>\<open>shuffle\<close>.
\<close>

definition epoch ::
  "world \<Rightarrow> nat \<Rightarrow> nat \<Rightarrow> real list list \<Rightarrow> nat \<Rightarrow> real list \<Rightarrow> real list \<Rightarrow> nat \<Rightarrow>
     train_state \<Rightarrow> pyerror option \<times> train_state" where
  "epoch wd seed k X d nbs lrs bs st =
     (case create_batches X d bs (Some (shuffle_rows wd seed k)) of
        Inl e \<Rightarrow> (Some e, st)
      | Inr batches \<Rightarrow>
          (case schedule wd (lrfunc (ts_som st)) (learning_rate (ts_som st)) (ts_lr_step st)
                  (card (set lrs)) of
             Inl e \<Rightarrow> (Some e, st)
           | Inr lr \<Rightarrow> batch_loop wd nbs lrs bs (length X) batches 0 lr st))"

text \<open>The loop \<^verbatim>\<open>for epoch in range(num_epochs)\<close> of \<^verbatim>\<open>fit\<close>.\<close>

fun epoch_loop ::
  "world \<Rightarrow> nat \<Rightarrow> real list list \<Rightarrow> nat \<Rightarrow> real list \<Rightarrow> real list \<Rightarrow> nat \<Rightarrow> nat list \<Rightarrow>
     train_state \<Rightarrow> pyerror option \<times> train_state" where
  "epoch_loop wd seed X d nbs lrs bs [] st = (None, st)"
| "epoch_loop wd seed X d nbs lrs bs (e # es) st =
     (case epoch wd seed (Suc e) X d nbs lrs bs st of
        (Some err, st') \<Rightarrow> (Some err, st')
      | (None, st') \<Rightarrow> epoch_loop wd seed X d nbs lrs bs es st')"

text \<open>
  The seeding of the weights in \<^verbatim>\<open>fit\<close>, for the scaled data \<open>X\<close> with \<open>d\<close> columns.  With
  \<^verbatim>\<open>init_pca\<close> an array on the accelerator raises ValueError; otherwise the coordinates
  of the units, scaled to \<open>[-1, 1]\<close>, are multiplied with the principal components, which
  are scaled by the explained variance.  \<^verbatim>\<open>self.map_dimensions[1]\<close> raises IndexError for
  a map with fewer than two dimensions; the integer division and the remainder of the
  array library yield 0 for a divisor 0.  Without \<^verbatim>\<open>init_pca\<close> the weights are
  \<^verbatim>\<open>data_range * rand\<close> with \<^verbatim>\<open>data_range = min_val + (max_val - min_val)\<close>; the minimum of
  an array without rows raises ValueError.
\<close>

definition pca_weights ::
  "world \<Rightarrow> ('a Som_scheme) \<Rightarrow> real list list \<Rightarrow> pyerror + real list list" where
  "pca_weights wd m X =
     (if length (map_dimensions m) < 2 then Inl IndexError
      else
        let h = map_dimensions m ! 1;
            coord = map (\<lambda>u. [real (if h = 0 then 0 else u div h),
                               real (if h = 0 then 0 else u mod h)])
                      [0..<length (weights m)];
            coord = map (map (\<lambda>c. (c / real h - 1 / 2) * 2)) coord;
            mu = mean_axis0 X
        in bind_err (broadcast_stat (-) X (Vector mu))
             (\<lambda>temp.
                bind_err (pca_fit wd temp)
                  (\<lambda>(eigvec, eigval).
                     let norms = map (\<lambda>v. sqrt (sum_list (map (\<lambda>a. a ^ 2) v))) eigvec;
                         eigvec = map (\<lambda>(v, nrm, ev). map (\<lambda>a. a / nrm * ev) v)
                                    (zip eigvec (zip norms eigval))
                     in Inr (map (\<lambda>c. map (\<lambda>f. sum_list (map2 (\<lambda>ck v. ck * v ! f) c eigvec) + mu ! f)
                                        [0..<length mu])
                               coord))))"

definition random_weights ::
  "world \<Rightarrow> ('a Som_scheme) \<Rightarrow> nat \<Rightarrow> real list list \<Rightarrow> nat \<Rightarrow> pyerror + real list list" where
  "random_weights wd m seed X d =
     (if X = [] then Inl (ValueError ''zero-size array to reduction operation'')
      else
        let min_val = map (\<lambda>f. Min (set (column X f))) [0..<ncols X];
            max_val = map (\<lambda>f. Max (set (column X f))) [0..<ncols X];
            data_range = map2 (\<lambda>lo hi. lo + (hi - lo)) min_val max_val
        in sequence_sum
             (map (\<lambda>r. broadcast_row (*) data_range r) (rand wd seed (length (weights m)) d)))"

definition seed_weights ::
  "world \<Rightarrow> ('a Som_scheme) \<Rightarrow> backend \<Rightarrow> nat \<Rightarrow> bool \<Rightarrow> real list list \<Rightarrow> nat \<Rightarrow>
     pyerror + real list list" where
  "seed_weights wd m xp seed init_pca X d =
     (if init_pca then
        if xp = Cupy then Inl (ValueError ''PCA is currently not supported on GPU.'')
        else pca_weights wd m X
      else random_weights wd m seed X d)"

text \<open>
  \<^verbatim>\<open>fit\<close> after the seeding, in three parts.  The end of \<^verbatim>\<open>fit\<close>:
  \<^verbatim>\<open>self.trained = True\<close>, and then the inverse transformation of the weights.
\<close>

definition fit_finish :: "Som \<Rightarrow> (pyerror + unit) \<times> Som" where
  "fit_finish m0 =
     (let m = m0\<lparr>trained := True\<rparr>
      in case Scaler_inverse_transform (scaler m) (weights m) of
           Inl e \<Rightarrow> (Inl e, m)
         | Inr w \<Rightarrow> (Inr (), m\<lparr>weights := w\<rparr>))"

text \<open>
  The first radius, learning rate and influences, and the epochs, for the update steps
  \<open>nbs\<close> and \<open>lrs\<close> and the batch size \<open>bs\<close>.
\<close>

definition fit_epochs ::
  "world \<Rightarrow> Som \<Rightarrow> real list list \<Rightarrow> nat \<Rightarrow> nat \<Rightarrow> real list \<Rightarrow> real list \<Rightarrow> nat \<Rightarrow> nat \<Rightarrow>
     (pyerror + unit) \<times> Som" where
  "fit_epochs wd m X d num_epochs nbs lrs bs seed =
     (case schedule wd (nbfunc m) (sigma m) 0 (card (set nbs)) of
        Inl e \<Rightarrow> (Inl e, m)
      | Inr map_radius \<Rightarrow>
          (case schedule wd (lrfunc m) (learning_rate m) 0 (card (set lrs)) of
             Inl e \<Rightarrow> (Inl e, m)
           | Inr lr \<Rightarrow>
               (case calculate_influence m map_radius of
                  Inl e \<Rightarrow> (Inl e, m)
                | Inr infl \<Rightarrow>
                    (case epoch_loop wd seed X d nbs lrs bs [0..<num_epochs]
                            \<lparr>ts_som = m, ts_idx = 0, ts_nb_step = 0, ts_lr_step = 0,
                             ts_influences = scale3 lr infl\<rparr> of
                       (Some e, st) \<Rightarrow> (Inl e, ts_som st)
                     | (None, st) \<Rightarrow> fit_finish (ts_som st)))))"

text \<open>
  The length of the training, the batches (whose only use is the module of the arrays),
  the distance grid and the update steps.
\<close>

definition fit_train ::
  "world \<Rightarrow> Som \<Rightarrow> real list list \<Rightarrow> nat \<Rightarrow> nat \<Rightarrow> nat \<Rightarrow> real \<Rightarrow> real \<Rightarrow> nat \<Rightarrow> nat \<Rightarrow>
     (pyerror + unit) \<times> Som" where
  "fit_train wd m X d num_epochs total_updates stop_lr_updates stop_nb_updates bsize seed =
     (let bs = (if length X < bsize then length X else bsize)
      in if bs = 0 then (Inl ZeroDivisionError, m)
         else
           let train_len = (length X * num_epochs) div bs
           in case create_batches X d bs (Some (shuffle_rows wd seed 0)) of
                Inl e \<Rightarrow> (Inl e, m)
              | Inr batched \<Rightarrow>
                  (case initialize_distance_grid m of
                     Inl e \<Rightarrow> (Inl e, m)
                   | Inr g \<Rightarrow>
                       (case update_steps train_len stop_lr_updates total_updates of
                          Inl e \<Rightarrow> (Inl e, m\<lparr>distance_grid := Some g\<rparr>)
                        | Inr lrs \<Rightarrow>
                            (case update_steps train_len stop_nb_updates total_updates of
                               Inl e \<Rightarrow> (Inl e, m\<lparr>distance_grid := Some g\<rparr>)
                             | Inr nbs \<Rightarrow>
                                 fit_epochs wd (m\<lparr>distance_grid := Some g\<rparr>) X d num_epochs
                                   nbs lrs bs seed))))"

text \<open>
  \<^verbatim>\<open>fit\<close>: the check of the input, the scaler, the seeding, the training.  The result is
  the outcome of the call and the map as the call leaves it.
\<close>

definition fit ::
  "world \<Rightarrow> Som \<Rightarrow> ndarray \<Rightarrow> nat \<Rightarrow> bool \<Rightarrow> nat \<Rightarrow> real \<Rightarrow> real \<Rightarrow> nat \<Rightarrow> nat \<Rightarrow>
     (pyerror + unit) \<times> Som" where
  "fit wd m X num_epochs init_pca total_updates stop_lr_updates stop_nb_updates bsize seed =
     (case check_input m X of
        Inl e \<Rightarrow> (Inl e, m)
      | Inr _ \<Rightarrow>
          (case Scaler_fit_transform (scaler m) (rows X) of
             (Inl e, s) \<Rightarrow> (Inl e, m\<lparr>scaler := s\<rparr>)
           | (Inr Xs, s) \<Rightarrow>
               let m = m\<lparr>scaler := s\<rparr>
               in case seed_weights wd m (module X) seed init_pca Xs (shape X ! 1) of
                    Inl e \<Rightarrow> (Inl e, m)
                  | Inr w \<Rightarrow>
                      fit_train wd (m\<lparr>weights := w\<rparr>) Xs (shape X ! 1) num_epochs total_updates
                        stop_lr_updates stop_nb_updates bsize seed))"

text \<open>
  \<^verbatim>\<open>map_weights\<close>: the inverse transformation of the weights, reshaped to
  \<open>(width, height, data_dim)\<close>, with the first two axes exchanged.
\<close>

definition reshape3 :: "'a list \<Rightarrow> nat \<Rightarrow> nat \<Rightarrow> nat \<Rightarrow> pyerror + 'a list list list" where
  "reshape3 flat a b c =
     (if length flat = a * b * c
      then Inr (map (\<lambda>i. map (\<lambda>j. take c (drop ((i * b + j) * c) flat)) [0..<b]) [0..<a])
      else Inl (ValueError ''cannot reshape array''))"

definition transpose102 :: "nat \<Rightarrow> nat \<Rightarrow> 'a list list list \<Rightarrow> 'a list list list" where
  "transpose102 a b arr = map (\<lambda>j. map (\<lambda>i. arr ! i ! j) [0..<a]) [0..<b]"

definition map_weights :: "('a Som_scheme) \<Rightarrow> pyerror + real list list list" where
  "map_weights m =
     (case map_dimensions m of
        [width, height] \<Rightarrow>
          bind_err (Scaler_inverse_transform (scaler m) (weights m))
            (\<lambda>w. bind_err (reshape3 (concat w) width height (data_dim m))
                  (\<lambda>a. Inr (transpose102 width height a)))
      | _ \<Rightarrow> Inl (ValueError ''wrong number of values to unpack''))"

text \<open>
  The fields that \<^verbatim>\<open>fit\<close> does not assign agree in two maps.
\<close>

definition same_config :: "Som \<Rightarrow> Som \<Rightarrow> bool" where
  "same_config m m' \<longleftrightarrow>
     sigma m' = sigma m \<and> learning_rate m' = learning_rate m \<and>
     map_dimensions m' = map_dimensions m \<and> weight_dim m' = weight_dim m \<and>
     data_dim m' = data_dim m \<and> lrfunc m' = lrfunc m \<and> nbfunc m' = nbfunc m \<and>
     min_max m' = min_max m"

text \<open>
  The states of a training run on the map \<open>m0\<close> with \<open>U\<close> units and \<open>d\<close> features: the map
  is \<open>m0\<close> with weights of shape \<open>(U, d)\<close>; and, where the shapes of the map agree, the
  influences have the shape \<open>(U, U, 1)\<close>.
\<close>

definition weights_inv :: "Som \<Rightarrow> nat \<Rightarrow> nat \<Rightarrow> train_state \<Rightarrow> bool" where
  "weights_inv m0 U d st \<longleftrightarrow> (\<exists>W. ts_som st = m0\<lparr>weights := W\<rparr> \<and> matrix U d W)"

definition train_inv :: "Som \<Rightarrow> nat \<Rightarrow> nat \<Rightarrow> train_state \<Rightarrow> bool" where
  "train_inv m0 U d st \<longleftrightarrow>
     (\<exists>W. ts_som st = m0\<lparr>weights := W\<rparr> \<and> matrix U d W) \<and> tensor U U 1 (ts_influences st)"

subsection \<open>Persistence\<close>

text \<open>
  The document that \<^verbatim>\<open>json.dump\<close> writes and \<^verbatim>\<open>json.load\<close> reads; the text of the file
  is the business of the \<^verbatim>\<open>json\<close> library.  The files are a map from paths to documents.
\<close>

datatype json = JInt int | JFloat real | JString string | JArray "json list" | JObject "(string \<times> json) list"

type_synonym files = "string \<Rightarrow> json option"

text \<open>\<^verbatim>\<open>Som.save\<close>: the dictionary \<^verbatim>\<open>to_save\<close>, written to the path.\<close>

definition save_document :: "('a Som_scheme) \<Rightarrow> json" where
  "save_document m =
     JObject
       [(''weights'', JArray (map (\<lambda>x. JArray (map (\<lambda>w. JFloat w) x)) (weights m))),
        (''dimensions'', JArray (map (\<lambda>k. JInt (int k)) (map_dimensions m))),
        (''lrfunc'', JString (if lrfunc m = Expo then ''expo'' else ''linear'')),
        (''nbfunc'', JString (if nbfunc m = Expo then ''expo'' else ''linear'')),
        (''lr'', JFloat (learning_rate m)),
        (''sigma'', JFloat (sigma m))]"

definition save :: "('a Som_scheme) \<Rightarrow> string \<Rightarrow> files \<Rightarrow> files" where
  "save m path fs = fs(path \<mapsto> save_document m)"

text \<open>
  Reading the document: \<^verbatim>\<open>data[key]\<close>, the conversion of nested lists to an array, whose
  rows must have the same length, and the dimensions of the map.
\<close>

fun json_item :: "json \<Rightarrow> string \<Rightarrow> pyerror + json" where
  "json_item (JObject kvs) k = (case map_of kvs k of None \<Rightarrow> Inl KeyError | Some v \<Rightarrow> Inr v)"
| "json_item _ k = Inl TypeError"

fun json_number :: "json \<Rightarrow> pyerror + real" where
  "json_number (JInt i) = Inr (real_of_int i)"
| "json_number (JFloat r) = Inr r"
| "json_number _ = Inl TypeError"

fun json_vector :: "json \<Rightarrow> pyerror + real list" where
  "json_vector (JArray xs) = sequence_sum (map json_number xs)"
| "json_vector _ = Inl (ValueError ''setting an array element with a sequence'')"

fun json_matrix :: "json \<Rightarrow> pyerror + real list list" where
  "json_matrix (JArray xs) =
     bind_err (sequence_sum (map json_vector xs))
       (\<lambda>w. if \<forall>r \<in> set w. length r = ncols w then Inr w
            else Inl (ValueError ''setting an array element with a sequence''))"
| "json_matrix _ = Inl IndexError"

fun json_dimension :: "json \<Rightarrow> pyerror + nat" where
  "json_dimension (JInt i) = (if 0 \<le> i then Inr (nat i) else Inl (ValueError ''negative dimensions are not allowed''))"
| "json_dimension _ = Inl TypeError"

fun json_dimensions :: "json \<Rightarrow> pyerror + nat list" where
  "json_dimensions (JArray xs) = sequence_sum (map json_dimension xs)"
| "json_dimensions _ = Inl TypeError"

text \<open>
  \<^verbatim>\<open>Som.load\<close>: \<^verbatim>\<open>datadim = weights.shape[1]\<close> raises IndexError for an array without
  rows; the constructor is called without \<^verbatim>\<open>min_max\<close>, so the map has the default selector.
\<close>

definition load :: "string \<Rightarrow> files \<Rightarrow> pyerror + Som" where
  "load path fs =
     (case fs path of
        None \<Rightarrow> Inl FileNotFoundError
      | Some data \<Rightarrow>
          bind_err (json_item data ''weights'') (\<lambda>jw.
          bind_err (json_matrix jw) (\<lambda>w.
          bind_err (if w = [] then Inl IndexError else Inr (ncols w)) (\<lambda>datadim.
          bind_err (json_item data ''dimensions'') (\<lambda>jd.
          bind_err (json_dimensions jd) (\<lambda>dimensions.
          bind_err (json_item data ''lrfunc'') (\<lambda>jl.
          bind_err (json_item data ''nbfunc'') (\<lambda>jn.
          bind_err (json_item data ''lr'') (\<lambda>jlr.
          bind_err (json_number jlr) (\<lambda>lr.
          bind_err (json_item data ''sigma'') (\<lambda>js.
          bind_err (json_number js) (\<lambda>sig.
          bind_err (Som_init dimensions datadim lr
                      (if jl = JString ''expo'' then Expo else Linear)
                      (if jn = JString ''expo'' then Expo else Linear)
                      (Some sig) np_min) (\<lambda>s.
          Inr (s\<lparr>weights := w, trained := True\<rparr>))))))))))))))"

subsection \<open>Example maps\<close>

text \<open>The map \<^verbatim>\<open>Som((2, 1), 1, 0.5)\<close>, as the constructor leaves it.\<close>

definition two_unit_map :: Som where
  "two_unit_map =
     \<lparr>sigma = 2 / 2 + 1 / 100, learning_rate = 1 / 2, map_dimensions = [2, 1], weight_dim = 2,
      weights = [[0], [0]], data_dim = 1, lrfunc = Expo, nbfunc = Expo, distance_grid = None,
      min_max = np_min, trained = False, scaler = Scaler_init\<rparr>"

text \<open>The same map with the weights 0 and 4, three points, and an array without rows.\<close>

definition two_unit_trained :: Som where
  "two_unit_trained = two_unit_map\<lparr>weights := [[0], [4]], trained := True\<rparr>"

definition three_points :: ndarray where
  "three_points = \<lparr>module = Numpy, shape = [3, 1], rows = [[1], [3], [5]]\<rparr>"

definition no_points :: ndarray where
  "no_points = \<lparr>module = Numpy, shape = [0, 1], rows = []\<rparr>"

text \<open>The trained example map with the selector \<^verbatim>\<open>np_max\<close>.\<close>

definition far_unit_map :: Som where
  "far_unit_map = two_unit_trained\<lparr>min_max := np_max\<rparr>"

text \<open>
  An outcome of the random draws (no rearrangement, every drawn number 0.5), a principal
  component analysis that refuses its input, and constant schedule functions; an array
  of one dimension, and the three points on the accelerator.
\<close>

definition example_world :: world where
  "example_world =
     \<lparr>shuffle_rows = (\<lambda>seed k X. X),
      random_rand = (\<lambda>seed k. 1 / 2),
      pca_fit = (\<lambda>X. Inl (ValueError ''n_components must be between 0 and min(n_samples, n_features)'')),
      decay_value = (\<lambda>f v step total. v)\<rparr>"

definition flat_array :: ndarray where
  "flat_array = \<lparr>module = Numpy, shape = [3], rows = []\<rparr>"

definition gpu_points :: ndarray where
  "gpu_points = three_points\<lparr>module := Cupy\<rparr>"

text \<open>Two points with the mean 1 and the standard deviation 1.\<close>

definition two_points :: ndarray where
  "two_points = \<lparr>module = Numpy, shape = [2, 1], rows = [[0], [2]]\<rparr>"

section \<open>Properties\<close>

subsection \<open>Helpers on lists\<close>

lemma sequence_sum_map_Inr: "sequence_sum (map (\<lambda>i. Inr (f i)) xs) = Inr (map f xs)"
  by (induction xs) simp_all

lemma concat_nth_uniform:
  "\<forall>xs \<in> set xss. length xs = h \<Longrightarrow> j < length xss * h \<Longrightarrow>
   concat xss ! j = xss ! (j div h) ! (j mod h)"
proof (induction xss arbitrary: j)
  case Nil
  then show ?case by simp
next
  case (Cons xs xss)
  show ?case
  proof (cases "j < h")
    case True
    with Cons.prems show ?thesis by (simp add: nth_append)
  next
    case False
    then have hj: "h \<le> j" by simp
    from Cons.prems False have h0: "0 < h" by (cases h) auto
    have lt: "j - h < length xss * h" using Cons.prems hj by simp
    have d: "j div h = Suc ((j - h) div h)" using hj h0
      by (simp add: le_div_geq)
    have mo: "j mod h = (j - h) mod h" using hj by (simp add: le_mod_geq)
    have "concat (xs # xss) ! j = concat xss ! (j - h)"
      using Cons.prems False by (simp add: nth_append)
    also have "\<dots> = xss ! ((j - h) div h) ! ((j - h) mod h)"
      using Cons.IH [of "j - h"] Cons.prems lt by simp
    finally show ?thesis using d mo by simp
  qed
qed

lemma length_concat_uniform:
  "\<forall>xs \<in> set xss. length xs = h \<Longrightarrow> length (concat xss) = length xss * h"
  by (induction xss) simp_all

subsection \<open>Conversion to 32-bit floating point numbers\<close>

lemma f32_shift_small: "a < 2 ^ 24 \<Longrightarrow> f32_shift a = 0"
  by (subst f32_shift.simps) simp

lemma float32_of_int_small: "\<bar>n\<bar> < 2 ^ 24 \<Longrightarrow> float32_of_int n = real_of_int n"
proof -
  assume a: "\<bar>n\<bar> < 2 ^ 24"
  then have "nat \<bar>n\<bar> < 2 ^ 24" by (simp add: nat_less_iff)
  then have "f32_shift (nat \<bar>n\<bar>) = 0" by (rule f32_shift_small)
  then show ?thesis by (simp add: float32_of_int_def Let_def abs_if sgn_if)
qed

lemma f32_shift_2_24: "f32_shift 16777216 = 1"
  by (simp add: f32_shift.simps [of 16777216] f32_shift.simps [of 8388608])

lemma float32_of_int_2_24: "float32_of_int 16777216 = 16777216"
  by (simp add: float32_of_int_def Let_def f32_shift_2_24)

lemma float32_of_int_exact:
  assumes "0 \<le> n" "n \<le> 2 ^ 24"
  shows "float32_of_int n = real_of_int n"
proof (cases "n = 2 ^ 24")
  case True
  then show ?thesis using float32_of_int_2_24 by simp
next
  case False
  with assms have "\<bar>n\<bar> < 2 ^ 24" by simp
  then show ?thesis by (rule float32_of_int_small)
qed

lemma float32_of_int_zero: "float32_of_int 0 = 0"
  using float32_of_int_small [of 0] by simp

lemma f32_shift_16785409: "f32_shift 16785409 = 1"
  by (simp add: f32_shift.simps [of 16785409] f32_shift.simps [of 8392704])

lemma float32_of_int_16785409: "float32_of_int 16785409 = 16785408"
  by (simp add: float32_of_int_def Let_def f32_shift_16785409)

subsection \<open>The scaler\<close>

lemma ncols_matrix: "matrix n d X \<Longrightarrow> 0 < n \<Longrightarrow> ncols X = d"
  by (cases X) (auto simp: matrix_def ncols_def)

lemma broadcast_stat_Vector:
  assumes "matrix n d X" "length v = d"
  shows "broadcast_stat f X (Vector v) = Inr (map (\<lambda>r. map2 f r v) X)"
proof -
  have "map (\<lambda>r. broadcast_row f r v) X = map (\<lambda>r. Inr (map2 f r v)) X"
    using assms by (simp add: matrix_def broadcast_row_def)
  then show ?thesis
    unfolding broadcast_stat_def by (simp only: sequence_sum_map_Inr stat.case)
qed

lemma matrix_map2:
  assumes "matrix n d X" "length v = d"
  shows "matrix n d (map (\<lambda>r. map2 f r v) X)"
  using assms by (simp add: matrix_def)

lemma length_stats:
  assumes "matrix n d X" "0 < n"
  shows "length (mean_axis0 X) = d" "length (std_axis0 X) = d"
  using ncols_matrix [OF assms] by (simp_all add: mean_axis0_def std_axis0_def)

lemma Scaler_transform_fit:
  assumes X: "matrix n d X" and n: "0 < n"
  shows "Scaler_transform (Scaler_fit s X) X =
     Inr (map (\<lambda>r. map2 (/) (map2 (-) r (mean_axis0 X)) (map (\<lambda>a. a + 1 / 100000) (std_axis0 X))) X)"
proof -
  note lm = length_stats [OF X n]
  show ?thesis
    unfolding Scaler_transform_def Scaler_fit_def
    by (simp add: broadcast_stat_Vector [OF X lm(1)] bind_err_def stat_add_def
        broadcast_stat_Vector [OF matrix_map2 [OF X lm(1)]] lm comp_def)
qed

lemma Scaler_inverse_transform_fit:
  assumes T: "matrix n d T" and X: "matrix k d X" and k: "0 < k"
  shows "Scaler_inverse_transform (Scaler_fit s X) T =
     Inr (map (\<lambda>r. map2 (+) (map2 (*) r (std_axis0 X)) (mean_axis0 X)) T)"
proof -
  note lm = length_stats [OF X k]
  show ?thesis
    unfolding Scaler_inverse_transform_def Scaler_fit_def
    by (simp add: broadcast_stat_Vector [OF T lm(2)] bind_err_def
        broadcast_stat_Vector [OF matrix_map2 [OF T lm(2)]] lm comp_def)
qed

lemma std_list_nonneg: "0 \<le> std_list xs"
  by (auto simp: std_list_def mean_list_def intro!: divide_nonneg_nonneg sum_list_nonneg)

lemma round_trip_general:
  fixes x mu sd e :: real
  assumes "sd + e \<noteq> 0"
  shows "(x - mu) / (sd + e) * sd + mu - x = - e * ((x - mu) / (sd + e))"
proof -
  have "(x - mu) / (sd + e) * sd + mu - x
      = (x - mu) / (sd + e) * sd - (x - mu) / (sd + e) * (sd + e)"
    using assms by simp
  also have "\<dots> = (x - mu) / (sd + e) * (sd - (sd + e))"
    by (simp only: right_diff_distrib)
  also have "\<dots> = - e * ((x - mu) / (sd + e))"
    by simp
  finally show ?thesis .
qed

lemma round_trip_entry:
  fixes x mu sd :: real
  assumes "0 \<le> sd"
  shows "(x - mu) / (sd + 1 / 100000) * sd + mu - x = - (1 / 100000) * ((x - mu) / (sd + 1 / 100000))"
proof -
  have nz: "sd + 1 / 100000 \<noteq> 0" using assms by simp
  show ?thesis by (rule round_trip_general [OF nz])
qed

text \<open>
  Claim C4, as amended.  For an array \<open>X\<close> with at least one row and the scaler fitted on
  \<open>X\<close>, \<^verbatim>\<open>transform\<close> and \<^verbatim>\<open>inverse_transform\<close> return without an exception, and in exact
  arithmetic every entry of \<open>inverse_transform(transform(X)) - X\<close> is \<open>- \<epsilon>\<close> times the entry
  of \<open>transform(X)\<close>, with \<open>\<epsilon> = 1e-5\<close>: the error is \<open>\<epsilon>\<close> relative to the scaled value, not to
  \<open>X\<close>.
\<close>

theorem scaler_round_trip:
  assumes X: "matrix n d X" and n: "0 < n"
  shows "\<exists>T R. Scaler_transform (Scaler_fit s X) X = Inr T \<and>
           Scaler_inverse_transform (Scaler_fit s X) T = Inr R \<and>
           matrix n d R \<and>
           (\<forall>i < n. \<forall>f < d.
              R ! i ! f - X ! i ! f = - (1 / 100000) * (T ! i ! f) \<and>
              \<bar>R ! i ! f - X ! i ! f\<bar> = 1 / 100000 * \<bar>T ! i ! f\<bar>)"
proof -
  let ?mu = "mean_axis0 X" and ?sd = "std_axis0 X"
  let ?T = "map (\<lambda>r. map2 (/) (map2 (-) r ?mu) (map (\<lambda>a. a + 1 / 100000) ?sd)) X"
  let ?R = "map (\<lambda>r. map2 (+) (map2 (*) r ?sd) ?mu) ?T"
  note lm = length_stats [OF X n]
  have T: "Scaler_transform (Scaler_fit s X) X = Inr ?T"
    by (rule Scaler_transform_fit [OF X n])
  have mT: "matrix n d ?T" using X lm by (simp add: matrix_def)
  have R: "Scaler_inverse_transform (Scaler_fit s X) ?T = Inr ?R"
    by (rule Scaler_inverse_transform_fit [OF mT X n])
  have mR: "matrix n d ?R" using X lm by (simp add: matrix_def)
  have ent: "?R ! i ! f - X ! i ! f = - (1 / 100000) * (?T ! i ! f)" if "i < n" "f < d" for i f
  proof -
    have li: "length (X ! i) = d" using X that by (simp add: matrix_def)
    have sd: "0 \<le> ?sd ! f" using that lm ncols_matrix [OF X n]
      by (simp add: std_axis0_def std_list_nonneg)
    have t: "?T ! i ! f = (X ! i ! f - ?mu ! f) / (?sd ! f + 1 / 100000)"
      using X that li lm by (simp add: matrix_def)
    have r: "?R ! i ! f = ?T ! i ! f * ?sd ! f + ?mu ! f"
      using X that li lm by (simp add: matrix_def)
    show ?thesis unfolding r t by (rule round_trip_entry [OF sd])
  qed
  have "\<bar>?R ! i ! f - X ! i ! f\<bar> = 1 / 100000 * \<bar>?T ! i ! f\<bar>" if "i < n" "f < d" for i f
    using ent [OF that] by (simp add: abs_mult)
  with ent T R mR show ?thesis by blast
qed

theorem scaler_round_trip_witness:
  "matrix 2 1 [[0], [2 :: real]] \<and> (0 :: nat) < 2 \<and>
   (\<exists>T R. Scaler_transform (Scaler_fit Scaler_init [[0], [2]]) [[0], [2]] = Inr T \<and>
           Scaler_inverse_transform (Scaler_fit Scaler_init [[0], [2]]) T = Inr R \<and>
           matrix 2 1 R \<and>
           (\<forall>i < 2. \<forall>f < 1.
              R ! i ! f - [[0], [2]] ! i ! f = - (1 / 100000) * (T ! i ! f) \<and>
              \<bar>R ! i ! f - [[0], [2]] ! i ! f\<bar> = 1 / 100000 * \<bar>T ! i ! f\<bar>))"
proof -
  have m: "matrix 2 1 [[0], [2 :: real]]" by (simp add: matrix_def)
  have n: "(0 :: nat) < 2" by simp
  from scaler_round_trip [OF m n, of Scaler_init] m n show ?thesis by blast
qed

lemma matrix_rare_feature: "matrix 1000001 1 rare_feature"
  by (auto simp: matrix_def rare_feature_def)

lemma column_rare_feature: "column rare_feature 0 = replicate 1000000 0 @ [1]"
  by (simp add: column_def rare_feature_def)

lemma mean_list_rare: "mean_list (replicate 1000000 0 @ [1]) = 1 / 1000001"
  by (simp add: mean_list_def sum_list_replicate)

lemma std_list_rare: "std_list (replicate 1000000 0 @ [1]) = 1000 / 1000001"
proof -
  have "mean_list (map (\<lambda>x. \<bar>x - 1 / 1000001\<bar> ^ 2) (replicate 1000000 0 @ [1 :: real]))
      = (1000 / 1000001) ^ 2"
    by (simp add: mean_list_def sum_list_replicate power2_eq_square)
  then have "std_list (replicate 1000000 0 @ [1]) = sqrt ((1000 / 1000001) ^ 2)"
    unfolding std_list_def mean_list_rare by simp
  then show ?thesis by simp
qed

lemma stats_rare_feature:
  "mean_axis0 rare_feature = [1 / 1000001]" "std_axis0 rare_feature = [1000 / 1000001]"
  using ncols_matrix [OF matrix_rare_feature]
  by (simp_all add: mean_axis0_def std_axis0_def column_rare_feature mean_list_rare std_list_rare)

lemma nth_rare_feature: "rare_feature ! 1000000 = [1]"
  by (simp add: rare_feature_def nth_append)

text \<open>
  Claim C4 as stated fails on \<open>rare_feature\<close>: the mean is \<open>1 / 1000001\<close>, the standard
  deviation \<open>1000 / 1000001\<close>, and the entry 1 comes back with an error of about 0.0099,
  which is more than \<open>\<epsilon> \<cdot> \<bar>X\<bar> + 0.009\<close>.
\<close>

theorem scaler_round_trip_counterexample:
  "case Scaler_transform (Scaler_fit Scaler_init rare_feature) rare_feature of
     Inl e \<Rightarrow> False
   | Inr T \<Rightarrow>
       (case Scaler_inverse_transform (Scaler_fit Scaler_init rare_feature) T of
          Inl e \<Rightarrow> False
        | Inr R \<Rightarrow>
            \<not> \<bar>R ! 1000000 ! 0 - rare_feature ! 1000000 ! 0\<bar>
                \<le> 1 / 100000 * \<bar>rare_feature ! 1000000 ! 0\<bar> + 9 / 1000)"
proof -
  note mx = matrix_rare_feature
  have n: "(0 :: nat) < 1000001" by simp
  let ?T = "map (\<lambda>r. map2 (/) (map2 (-) r [1 / 1000001]) (map (\<lambda>a. a + 1 / 100000) [1000 / 1000001 :: real]))
      rare_feature"
  have T: "Scaler_transform (Scaler_fit Scaler_init rare_feature) rare_feature = Inr ?T"
    using Scaler_transform_fit [OF mx n, of Scaler_init] by (simp only: stats_rare_feature)
  have mT: "matrix 1000001 1 ?T" using mx by (simp add: matrix_def)
  let ?R = "map (\<lambda>r. map2 (+) (map2 (*) r [1000 / 1000001]) [1 / 1000001 :: real]) ?T"
  have R: "Scaler_inverse_transform (Scaler_fit Scaler_init rare_feature) ?T = Inr ?R"
    using Scaler_inverse_transform_fit [OF mT mx n, of Scaler_init] by (simp only: stats_rare_feature)
  have len: "length rare_feature = 1000001" using mx by (simp add: matrix_def)
  have r: "?R ! 1000000 ! 0 = (1 - 1 / 1000001) / (1000 / 1000001 + 1 / 100000) * (1000 / 1000001) + 1 / 1000001"
    using len by (simp add: nth_rare_feature)
  have "\<not> \<bar>?R ! 1000000 ! 0 - rare_feature ! 1000000 ! 0\<bar>
                \<le> 1 / 100000 * \<bar>rare_feature ! 1000000 ! 0\<bar> + 9 / 1000"
    unfolding r nth_rare_feature by simp
  then show ?thesis by (simp only: T R sum.case not_False_eq_True)
qed

subsection \<open>The backward pass\<close>

lemma sequence_sum_map_cong:
  "(\<And>x. x \<in> set xs \<Longrightarrow> g x = Inr (h x)) \<Longrightarrow> sequence_sum (map g xs) = Inr (map h xs)"
  by (induction xs) simp_all

lemma broadcast_axis_eq:
  assumes "length xs = length ys"
    and "\<And>i. i < length xs \<Longrightarrow> g (xs ! i) (ys ! i) = Inr (h (xs ! i) (ys ! i))"
  shows "broadcast_axis g xs ys = Inr (map2 h xs ys)"
proof -
  have "sequence_sum (map (\<lambda>(x, y). g x y) (zip xs ys)) = Inr (map (\<lambda>(x, y). h x y) (zip xs ys))"
  proof (rule sequence_sum_map_cong)
    fix p assume "p \<in> set (zip xs ys)"
    then obtain i where "i < length xs" "p = (xs ! i, ys ! i)"
      using assms(1) by (auto simp: set_zip)
    then show "(case p of (x, y) \<Rightarrow> g x y) = Inr (case p of (x, y) \<Rightarrow> h x y)"
      using assms(2) by simp
  qed
  then show ?thesis using assms(1) by (simp add: broadcast_axis_def)
qed

lemma broadcast_into_eq:
  assumes "length xs = length ys"
    and "\<And>i. i < length xs \<Longrightarrow> g (xs ! i) (ys ! i) = Inr (h (xs ! i) (ys ! i))"
  shows "broadcast_into g xs ys = Inr (map2 h xs ys)"
proof -
  have "sequence_sum (map (\<lambda>(x, y). g x y) (zip xs ys)) = Inr (map (\<lambda>(x, y). h x y) (zip xs ys))"
  proof (rule sequence_sum_map_cong)
    fix p assume "p \<in> set (zip xs ys)"
    then obtain i where "i < length xs" "p = (xs ! i, ys ! i)"
      using assms(1) by (auto simp: set_zip)
    then show "(case p of (x, y) \<Rightarrow> g x y) = Inr (case p of (x, y) \<Rightarrow> h x y)"
      using assms(2) by simp
  qed
  then show ?thesis using assms(1) by (simp add: broadcast_into_def)
qed

lemma broadcast_row_single:
  assumes "length v = 1"
  shows "broadcast_row f r v = Inr (map (\<lambda>x. f x (v ! 0)) r)"
proof -
  from assms obtain c where v: "v = [c]" by (cases v) auto
  show ?thesis
  proof (cases "length r = 1")
    case True
    then obtain a where "r = [a]" by (cases r) auto
    then show ?thesis by (simp add: broadcast_row_def v)
  next
    case False
    then show ?thesis by (simp add: broadcast_row_def v)
  qed
qed

lemma calculate_update_shapes:
  assumes d: "length diff = B" "\<forall>d \<in> set diff. matrix U F d"
    and i: "length influence = B" "\<forall>s \<in> set influence. matrix U 1 s"
  shows "calculate_update diff influence =
     Inr (map2 (map2 (\<lambda>dv iv. map (\<lambda>x. x * iv ! 0) dv)) diff influence)"
  unfolding calculate_update_def
proof (rule broadcast_axis_eq)
  show "length diff = length influence" using d i by simp
next
  fix b assume b: "b < length diff"
  have db: "matrix U F (diff ! b)" using d b by simp
  have ib: "matrix U 1 (influence ! b)" using i d b by simp
  show "broadcast_axis (broadcast_row (*)) (diff ! b) (influence ! b) =
      Inr (map2 (\<lambda>dv iv. map (\<lambda>x. x * iv ! 0) dv) (diff ! b) (influence ! b))"
  proof (rule broadcast_axis_eq)
    show "length (diff ! b) = length (influence ! b)" using db ib by (simp add: matrix_def)
  next
    fix u assume "u < length (diff ! b)"
    then have "length (influence ! b ! u) = 1" using db ib by (simp add: matrix_def)
    then show "broadcast_row (*) (diff ! b ! u) (influence ! b ! u) =
        Inr (map (\<lambda>x. x * influence ! b ! u ! 0) (diff ! b ! u))"
      by (rule broadcast_row_single)
  qed
qed

lemma mean_batch_entry:
  assumes B: "0 < B" and up: "length update = B" "\<forall>a \<in> set update. matrix U F a"
  shows "matrix U F (mean_batch update)"
    and "u < U \<Longrightarrow> f < F \<Longrightarrow>
      mean_batch update ! u ! f = sum_list (map (\<lambda>b. update ! b ! u ! f) [0..<B]) / real B"
proof -
  from B up obtain a rest where ur: "update = a # rest" by (cases update) auto
  with up have la: "length a = U" by (simp add: matrix_def)
  have nc: "ncols (map (\<lambda>a. a ! u) update) = F" if "u < U" for u
    using up that by (simp add: ur ncols_def matrix_def)
  have mb: "mean_batch update = map (\<lambda>u. mean_axis0 (map (\<lambda>a. a ! u) update)) [0..<U]"
    by (simp add: mean_batch_def ur la)
  show "matrix U F (mean_batch update)"
    using nc by (simp add: mb matrix_def mean_axis0_def)
  assume u: "u < U" and f: "f < F"
  have "map (\<lambda>r. r ! f) (map (\<lambda>a. a ! u) update) = map (\<lambda>b. update ! b ! u ! f) [0..<B]"
    using up(1) by (auto simp: list_eq_iff_nth_eq)
  then show "mean_batch update ! u ! f = sum_list (map (\<lambda>b. update ! b ! u ! f) [0..<B]) / real B"
    using u f nc [OF u] up(1) by (simp add: mb mean_axis0_def column_def mean_list_def)
qed

lemma iadd_shapes:
  assumes "matrix U F W" "matrix U F D"
  shows "broadcast_into (broadcast_into (\<lambda>w d. Inr (w + d))) W D = Inr (map2 (map2 (+)) W D)"
proof (rule broadcast_into_eq)
  show "length W = length D" using assms by (simp add: matrix_def)
next
  fix u assume "u < length W"
  then have "length (W ! u) = length (D ! u)" using assms by (simp add: matrix_def)
  then show "broadcast_into (\<lambda>w d. Inr (w + d)) (W ! u) (D ! u) = Inr (map2 (+) (W ! u) (D ! u))"
    by (rule broadcast_into_eq) simp
qed


lemma matrix_nth_iff:
  "matrix n d X \<longleftrightarrow> length X = n \<and> (\<forall>i < n. length (X ! i) = d)"
  by (auto simp: matrix_def all_set_conv_all_nth)

lemma length_takeWhile_less_ex:
  "\<exists>y \<in> set r. \<not> P y \<Longrightarrow> length (takeWhile P r) < length r"
  by (induction r) auto

lemma first_index_Min:
  assumes "r \<noteq> []"
  shows "first_index (Min (set r)) r < length r"
    and "r ! first_index (Min (set r)) r = Min (set r)"
    and "\<forall>j < first_index (Min (set r)) r. Min (set r) < r ! j"
proof -
  let ?P = "\<lambda>y. y \<noteq> Min (set r)"
  have mem: "Min (set r) \<in> set r" using assms by (intro Min_in) auto
  then have ex: "\<exists>y \<in> set r. \<not> ?P y" by auto
  show lt: "first_index (Min (set r)) r < length r"
    unfolding first_index_def using ex by (rule length_takeWhile_less_ex)
  show "r ! first_index (Min (set r)) r = Min (set r)"
    using nth_length_takeWhile [of ?P r] lt unfolding first_index_def by auto
  show "\<forall>j < first_index (Min (set r)) r. Min (set r) < r ! j"
  proof (intro allI impI)
    fix j assume j: "j < first_index (Min (set r)) r"
    then have jl: "j < length (takeWhile ?P r)" by (simp add: first_index_def)
    then have "takeWhile ?P r ! j \<in> set (takeWhile ?P r)" by (rule nth_mem)
    then have "?P (takeWhile ?P r ! j)" by (blast dest: set_takeWhileD)
    then have "?P (r ! j)" using takeWhile_nth [OF jl] by simp
    moreover have "Min (set r) \<le> r ! j" using j lt by (intro Min_le) auto
    ultimately show "Min (set r) < r ! j" by simp
  qed
qed

lemma np_min_matrix:
  assumes "matrix B U act" "0 < U"
  shows "np_min act = Inr (map (\<lambda>r. Min (set r)) act, map (\<lambda>r. first_index (Min (set r)) r) act)"
  using assms by (auto simp: np_min_def matrix_def)

lemma backward_update_entries:
  assumes B: "0 < B"
    and mm: "min_max m act = Inr (vals, bmu)" "length bmu = B" "\<forall>i \<in> set bmu. i < U"
    and d: "length diff = B" "\<forall>a \<in> set diff. matrix U F a"
    and i: "length infl = U" "\<forall>s \<in> set infl. matrix U 1 s"
    and W: "matrix U F (weights m)"
  shows "\<exists>W'. backward m diff infl act = Inr (m\<lparr>weights := W'\<rparr>) \<and> matrix U F W' \<and>
           (\<forall>u < U. \<forall>f < F.
              W' ! u ! f = weights m ! u ! f +
                sum_list (map (\<lambda>b. diff ! b ! u ! f * infl ! (bmu ! b) ! u ! 0) [0..<B]) / real B) \<and>
           (min_max m = np_min \<and> matrix B U act \<longrightarrow>
              (\<forall>b < B. act ! b ! (bmu ! b) = Min (set (act ! b)) \<and>
                 (\<forall>j < bmu ! b. Min (set (act ! b)) < act ! b ! j)))"
proof -
  let ?infl = "map (\<lambda>i. infl ! i) bmu"
  let ?upd = "map2 (map2 (\<lambda>dv iv. map (\<lambda>x. x * iv ! 0) dv)) diff ?infl"
  let ?W' = "map2 (map2 (+)) (weights m) (mean_batch ?upd)"
  have ai: "apply_influences m act infl = Inr ?infl"
    using mm i(1) by (simp add: apply_influences_def bind_err_def)
  have il: "length ?infl = B" using mm by simp
  have im: "\<forall>s \<in> set ?infl. matrix U 1 s" using mm(3) i by auto
  have cu: "calculate_update diff ?infl = Inr ?upd"
    by (rule calculate_update_shapes [OF d il im])
  have ul: "length ?upd = B" using d il by simp
  have um: "\<forall>a \<in> set ?upd. matrix U F a"
    unfolding all_set_conv_all_nth
  proof (intro allI impI)
    fix b assume "b < length ?upd"
    then have b: "b < B" unfolding ul .
    have "matrix U F (diff ! b)" "matrix U 1 (?infl ! b)" using d il im b by simp_all
    then show "matrix U F (?upd ! b)" using b d il by (simp add: matrix_nth_iff)
  qed
  note mb = mean_batch_entry [OF B ul um]
  have ia: "broadcast_into (broadcast_into (\<lambda>w d. Inr (w + d))) (weights m) (mean_batch ?upd) = Inr ?W'"
    by (rule iadd_shapes [OF W mb(1)])
  have bw: "backward m diff infl act = Inr (m\<lparr>weights := ?W'\<rparr>)"
    by (simp add: backward_def ai cu ia bind_err_def)
  have mW: "matrix U F ?W'" using W mb(1) by (simp add: matrix_nth_iff)
  have ent: "?W' ! u ! f = weights m ! u ! f +
      sum_list (map (\<lambda>b. diff ! b ! u ! f * infl ! (bmu ! b) ! u ! 0) [0..<B]) / real B"
    if u: "u < U" and f: "f < F" for u f
  proof -
    have lw: "length (weights m) = U" "length (mean_batch ?upd) = U"
      "length (weights m ! u) = F" "length (mean_batch ?upd ! u) = F"
      using W mb(1) u by (simp_all add: matrix_nth_iff)
    have "?upd ! b ! u ! f = diff ! b ! u ! f * infl ! (bmu ! b) ! u ! 0" if b: "b < B" for b
    proof -
      have "matrix U F (diff ! b)" "matrix U 1 (?infl ! b)" using d il im b by simp_all
      then show ?thesis using b d il u f mm(2) by (simp add: matrix_nth_iff)
    qed
    then have eq: "map (\<lambda>b. ?upd ! b ! u ! f) [0..<B] =
        map (\<lambda>b. diff ! b ! u ! f * infl ! (bmu ! b) ! u ! 0) [0..<B]"
      by simp
    have w1: "?W' ! u ! f = weights m ! u ! f + mean_batch ?upd ! u ! f"
      using lw u f by simp
    show ?thesis by (simp only: w1 mb(2) [OF u f] eq)
  qed
  have dflt: "act ! b ! (bmu ! b) = Min (set (act ! b)) \<and>
      (\<forall>j < bmu ! b. Min (set (act ! b)) < act ! b ! j)"
    if np: "min_max m = np_min" and ma: "matrix B U act" and b: "b < B" for b
  proof -
    have U: "0 < U" using mm(2,3) B b by (cases bmu) auto
    have "bmu = map (\<lambda>r. first_index (Min (set r)) r) act"
      using mm(1) np np_min_matrix [OF ma U] by simp
    then have bb: "bmu ! b = first_index (Min (set (act ! b))) (act ! b)"
      using ma b by (simp add: matrix_nth_iff)
    have ne: "act ! b \<noteq> []" using ma b U by (auto simp: matrix_nth_iff)
    show ?thesis unfolding bb using first_index_Min [OF ne] by simp
  qed
  have c3: "\<forall>u < U. \<forall>f < F. ?W' ! u ! f = weights m ! u ! f +
      sum_list (map (\<lambda>b. diff ! b ! u ! f * infl ! (bmu ! b) ! u ! 0) [0..<B]) / real B"
    using ent by blast
  have c4: "min_max m = np_min \<and> matrix B U act \<longrightarrow>
      (\<forall>b < B. act ! b ! (bmu ! b) = Min (set (act ! b)) \<and>
         (\<forall>j < bmu ! b. Min (set (act ! b)) < act ! b ! j))"
    using dflt by blast
  from bw mW c3 c4 show ?thesis by (intro exI [of _ ?W'] conjI)
qed


lemma two_unit_map_init: "Som_init [2, 1] 1 (1 / 2) Expo Expo None np_min = Inr two_unit_map"
  by (simp add: Som_init_def two_unit_map_def eval_nat_numeral)

lemma np_min_example: "np_min [[1, 2], [3, 1]] = Inr ([1, 1], [0, 1])"
  by (simp add: np_min_def first_index_def)

text \<open>
  Claim C1.  Let \<open>diff\<close> have the shape \<open>(B, U, F)\<close> with a batch of \<open>B > 0\<close> examples, the
  influences the shape \<open>(U, U, 1)\<close> and the weights the shape \<open>(U, F)\<close>, and let \<^verbatim>\<open>min_max\<close>
  select the unit \<open>bmu ! b\<close> for example \<open>b\<close>.  Then \<^verbatim>\<open>backward\<close> returns the map with no
  field changed but the weights, and the new weight of unit \<open>u\<close> and feature \<open>f\<close> is the old
  one plus the mean over the batch of \<open>diff[b,u,f] * I[bmu b,u,0]\<close>.  With the default
  selector \<open>bmu ! b\<close> is the first position of the minimum of row \<open>b\<close> of the activation.
\<close>

theorem backward_mean_update:
  assumes B: "0 < B"
    and mm: "min_max m act = Inr (vals, bmu)" "length bmu = B" "\<forall>i \<in> set bmu. i < U"
    and d: "length diff = B" "\<forall>a \<in> set diff. matrix U F a"
    and i: "length infl = U" "\<forall>s \<in> set infl. matrix U 1 s"
    and W: "matrix U F (weights m)"
  shows "\<exists>W'. backward m diff infl act = Inr (m\<lparr>weights := W'\<rparr>) \<and> matrix U F W' \<and>
           (\<forall>u < U. \<forall>f < F.
              W' ! u ! f = weights m ! u ! f +
                sum_list (map (\<lambda>b. diff ! b ! u ! f * infl ! (bmu ! b) ! u ! 0) [0..<B]) / real B) \<and>
           (min_max m = np_min \<and> matrix B U act \<longrightarrow>
              (\<forall>b < B. act ! b ! (bmu ! b) = Min (set (act ! b)) \<and>
                 (\<forall>j < bmu ! b. Min (set (act ! b)) < act ! b ! j)))"
  by (rule backward_update_entries [OF assms])

theorem backward_mean_update_witness:
  "\<exists>W'. backward two_unit_map [[[1], [2]], [[3], [1]]] [[[1], [1 / 2]], [[1 / 2], [1]]] [[1, 2], [3, 1]]
          = Inr (two_unit_map\<lparr>weights := W'\<rparr>) \<and>
        matrix 2 1 W' \<and>
        (\<forall>u < 2. \<forall>f < 1.
           W' ! u ! f = weights two_unit_map ! u ! f +
             sum_list (map (\<lambda>b. [[[1], [2]], [[3], [1]]] ! b ! u ! f *
                 [[[1], [1 / 2]], [[1 / 2], [1]]] ! ([0, 1] ! b) ! u ! 0) [0..<2]) / real 2) \<and>
        (min_max two_unit_map = np_min \<and> matrix 2 2 [[1, 2], [3, 1 :: real]] \<longrightarrow>
           (\<forall>b < 2. [[1, 2], [3, 1]] ! b ! ([0, 1] ! b) = Min (set ([[1, 2], [3, 1 :: real]] ! b)) \<and>
              (\<forall>j < [0, 1] ! b. Min (set ([[1, 2], [3, 1]] ! b)) < [[1, 2], [3, 1 :: real]] ! b ! j)))"
proof -
  have B: "(0 :: nat) < 2" by simp
  have mm: "min_max two_unit_map [[1, 2], [3, 1]] = Inr ([1, 1], [0, 1])"
    by (simp add: two_unit_map_def np_min_example)
  have bl: "length [0, 1 :: nat] = 2" "\<forall>i \<in> set [0, 1 :: nat]. i < 2" by simp_all
  have d: "length [[[1], [2]], [[3], [1 :: real]]] = 2"
    "\<forall>a \<in> set [[[1], [2]], [[3], [1 :: real]]]. matrix 2 1 a"
    by (simp_all add: matrix_def)
  have i: "length [[[1], [1 / 2]], [[1 / 2], [1 :: real]]] = 2"
    "\<forall>s \<in> set [[[1], [1 / 2]], [[1 / 2], [1 :: real]]]. matrix 2 1 s"
    by (simp_all add: matrix_def)
  have W: "matrix 2 1 (weights two_unit_map)" by (simp add: two_unit_map_def matrix_def)
  show ?thesis by (rule backward_mean_update [OF B mm bl d i W])
qed

lemma backward_example:
  "backward two_unit_map [[[1], [2]], [[3], [1]]] [[[1], [1 / 2]], [[1 / 2], [1]]] [[1, 2], [3, 1]]
     = Inr (two_unit_map\<lparr>weights := [[5 / 4], [1]]\<rparr>)"
  by (simp add: backward_def apply_influences_def bind_err_def two_unit_map_def np_min_example
      calculate_update_def broadcast_axis_def broadcast_row_def broadcast_into_def mean_batch_def
      mean_axis0_def mean_list_def column_def ncols_def)

subsection \<open>Prediction\<close>

lemma concat_chunks:
  "length z = a * b \<Longrightarrow> concat (map (\<lambda>i. take b (drop (i * b) z)) [0..<a]) = z"
proof (induction a arbitrary: z)
  case 0
  then show ?case by simp
next
  case (Suc a)
  have sh: "[0..<Suc a] = 0 # map Suc [0..<a]"
    by (simp add: upt_conv_Cons map_Suc_upt)
  have "concat (map (\<lambda>i. take b (drop (i * b) z)) [0..<Suc a]) =
      take b z @ concat (map (\<lambda>i. take b (drop (i * b) (drop b z))) [0..<a])"
    unfolding sh by (simp add: comp_def add.commute)
  also have "concat (map (\<lambda>i. take b (drop (i * b) (drop b z))) [0..<a]) = drop b z"
    using Suc.prems by (intro Suc.IH) simp
  finally show ?case by simp
qed

lemma chunk_matrix:
  assumes "length z = a * b" "\<forall>r \<in> set z. length r = d" "i < a"
  shows "matrix b d (take b (drop (i * b) z))"
proof -
  have "i * b + b \<le> a * b" using assms(3)
    by (metis Suc_leI mult_Suc mult_le_mono1 add.commute)
  then have "length (take b (drop (i * b) z)) = b" using assms(1) by simp
  moreover have "set (take b (drop (i * b) z)) \<subseteq> set z"
    by (meson set_take_subset set_drop_subset subset_trans)
  ultimately show ?thesis using assms(2) by (auto simp: matrix_def)
qed

lemma ceiling_batches:
  assumes "0 < b"
  shows "n \<le> nat \<lceil>real n / real b\<rceil> * b"
proof -
  have "real n / real b \<le> real_of_int \<lceil>real n / real b\<rceil>" by (rule le_of_int_ceiling)
  moreover have "0 \<le> real n / real b" by simp
  then have "- 1 < real n / real b" by linarith
  then have "0 \<le> \<lceil>real n / real b\<rceil>" by (simp only: zero_le_ceiling)
  ultimately have c: "real n / real b \<le> real (nat \<lceil>real n / real b\<rceil>)" by simp
  have "real n = real n / real b * real b" using assms by simp
  also have "\<dots> \<le> real (nat \<lceil>real n / real b\<rceil>) * real b"
    using c by (rule mult_right_mono) simp
  finally have "real n \<le> real (nat \<lceil>real n / real b\<rceil> * b)" by simp
  then show ?thesis by (simp only: of_nat_le_iff)
qed


lemma bind_err_simps [simp]:
  "bind_err (Inr v) f = f v" "bind_err (Inl e) f = Inl e"
  by (simp_all add: bind_err_def)

lemma create_batches_unshuffled:
  assumes X: "matrix n d X" and n: "0 < n" and bs: "0 < bs"
  shows "\<exists>batches k. create_batches X d bs None = Inr batches \<and>
           (\<forall>x \<in> set batches. matrix (min bs n) d x) \<and>
           concat batches = X @ replicate k (replicate d 0)"
proof -
  define b where "b = min bs n"
  define a where "a = nat \<lceil>real n / real b\<rceil>"
  define z where "z = X @ replicate (a * b - n) (replicate d 0)"
  let ?batches = "map (\<lambda>i. take b (drop (i * b) z)) [0..<a]"
  have lX: "length X = n" using X by (simp add: matrix_def)
  have b0: "0 < b" using n bs by (simp add: b_def)
  have bif: "(if n < bs then n else bs) = b" by (simp add: b_def min_def)
  have le: "n \<le> a * b" unfolding a_def by (rule ceiling_batches [OF b0])
  have "create_batches X d bs None =
      (if b = 0 then Inl ZeroDivisionError else resize X (nat \<lceil>real n / real b\<rceil>, b, d))"
    by (simp only: create_batches_def Let_def option.case lX bif)
  then have cb1: "create_batches X d bs None = resize X (a, b, d)"
    using b0 by (simp add: a_def)
  have "resize X (a, b, d) = Inr ?batches"
    using le by (simp add: resize_def lX z_def Let_def)
  with cb1 have cb: "create_batches X d bs None = Inr ?batches" by simp
  have lz: "length z = a * b" using le by (simp add: z_def lX)
  have rz: "\<forall>r \<in> set z. length r = d" using X by (auto simp: z_def matrix_def)
  have "\<forall>x \<in> set ?batches. matrix b d x"
    using chunk_matrix [OF lz rz] by auto
  moreover have "concat ?batches = X @ replicate (a * b - n) (replicate d 0)"
    using concat_chunks [OF lz] by (simp add: z_def)
  ultimately show ?thesis using cb unfolding b_def by blast
qed

lemma broadcast_row_same: "length r = length v \<Longrightarrow> broadcast_row f r v = Inr (map2 f r v)"
  by (simp add: broadcast_row_def)

lemma distance_difference_matrix:
  assumes "\<forall>r \<in> set x. length r = d" "\<forall>r \<in> set w. length r = d"
  shows "distance_difference x w = Inr (map (\<lambda>xr. map (\<lambda>wr. map2 (-) xr wr) w) x)"
  unfolding distance_difference_def
proof (rule sequence_sum_map_cong)
  fix xr assume xr: "xr \<in> set x"
  show "sequence_sum (map (broadcast_row (-) xr) w) = Inr (map (\<lambda>wr. map2 (-) xr wr) w)"
  proof (rule sequence_sum_map_cong)
    fix wr assume "wr \<in> set w"
    then have "length xr = length wr" using assms xr by simp
    then show "broadcast_row (-) xr wr = Inr (map2 (-) xr wr)" by (rule broadcast_row_same)
  qed
qed

lemma norm_axis2_euclidean:
  "norm_axis2 (map (\<lambda>xr. map (\<lambda>wr. map2 (-) xr wr) w) x) = map (\<lambda>xr. map (euclidean xr) w) x"
  by (simp add: norm_axis2_def euclidean_def comp_def)

lemma forward_matrix:
  assumes "\<forall>r \<in> set x. length r = d" "\<forall>r \<in> set (weights m). length r = d"
  shows "forward m x =
     Inr (map (\<lambda>xr. map (euclidean xr) (weights m)) x,
          map (\<lambda>xr. map (\<lambda>wr. map2 (-) xr wr) (weights m)) x)"
  by (simp add: forward_def distance_function_def
      distance_difference_matrix [OF assms] norm_axis2_euclidean)

lemma predict_base_matrix:
  assumes X: "wf_array n d X" and dd: "d = data_dim m"
    and W: "matrix U d (weights m)" and wd: "weight_dim m = U"
    and n: "0 < n" and bs: "0 < bs"
  shows "predict_base m X bs = Inr (map (\<lambda>xr. map (euclidean xr) (weights m)) (rows X))"
proof -
  have sh: "shape X = [n, d]" and mX: "matrix n d (rows X)" using X by (simp_all add: wf_array_def)
  have ci: "check_input m X = Inr ()" using sh dd by (simp add: check_input_def)
  from create_batches_unshuffled [OF mX n bs]
  obtain batches k where cb: "create_batches (rows X) d bs None = Inr batches"
    and bm: "\<forall>x \<in> set batches. matrix (min bs n) d x"
    and cc: "concat batches = rows X @ replicate k (replicate d 0)" by blast
  let ?act = "\<lambda>x. map (\<lambda>xr. map (euclidean xr) (weights m)) x"
  have Wl: "\<forall>r \<in> set (weights m). length r = d" using W by (simp add: matrix_def)
  have fw: "sequence_sum (map (\<lambda>x. bind_err (forward m x) (\<lambda>(a, d). Inr a)) batches)
      = Inr (map ?act batches)"
  proof (rule sequence_sum_map_cong)
    fix x assume "x \<in> set batches"
    then have "\<forall>r \<in> set x. length r = d" using bm by (simp add: matrix_def)
    from forward_matrix [OF this Wl]
    show "bind_err (forward m x) (\<lambda>(a, d). Inr a) = Inr (?act x)" by simp
  qed
  have "concat (map ?act batches) = ?act (concat batches)" by (simp add: map_concat)
  then have tk: "take n (concat (map ?act batches)) = ?act (rows X)"
    using mX by (simp add: cc matrix_def)
  have rl: "\<forall>r \<in> set (?act (rows X)). length r = weight_dim m"
    using W wd by (auto simp: matrix_def)
  show ?thesis
    using rl by (simp add: predict_base_def ci sh cb fw tk Let_def)
qed


text \<open>
  Claim C2, as amended.  Let the map have weights of shape \<open>(U, d)\<close> with
  \<open>d = data_dim\<close> and \<open>U = weight_dim\<close>, and let \<open>X\<close> be an array of shape \<open>(n, d)\<close> with at
  least one row.  For every batch size \<open>bs > 0\<close>, \<^verbatim>\<open>predict\<close> returns what \<^verbatim>\<open>min_max\<close> selects
  in the \<open>n \<times> U\<close> matrix of the Euclidean distances of the rows of \<open>X\<close> to the weights, so
  that the result is the same for every batch size.  With the default selector and at
  least one unit the result has \<open>n\<close> entries, and entry \<open>i\<close> is the first unit with the least
  distance to row \<open>i\<close>.  \<^verbatim>\<open>predict\<close> is a function of the map: it assigns no field.
\<close>

theorem predict_argmin:
  assumes X: "wf_array n d X" and dd: "d = data_dim m"
    and W: "matrix U d (weights m)" and wd: "weight_dim m = U"
    and n: "0 < n" and bs: "0 < bs"
  shows "predict m X bs =
      (case min_max m (map (\<lambda>x. map (euclidean x) (weights m)) (rows X)) of
         Inl e \<Rightarrow> Inl e
       | Inr (vals, res) \<Rightarrow> Inr res) \<and>
    (\<forall>bs' > 0. predict m X bs' = predict m X bs) \<and>
    (min_max m = np_min \<and> 0 < U \<longrightarrow>
       (\<exists>res. predict m X bs = Inr res \<and> length res = n \<and>
          (\<forall>i < n. res ! i < U \<and>
             euclidean (rows X ! i) (weights m ! (res ! i)) =
               Min (set (map (euclidean (rows X ! i)) (weights m))) \<and>
             (\<forall>j < res ! i.
                Min (set (map (euclidean (rows X ! i)) (weights m))) <
                  euclidean (rows X ! i) (weights m ! j)))))"
proof -
  let ?D = "map (\<lambda>x. map (euclidean x) (weights m)) (rows X)"
  have pb: "predict_base m X b = Inr ?D" if "0 < b" for b
    by (rule predict_base_matrix [OF X dd W wd n that])
  have p: "predict m X b =
      (case min_max m ?D of Inl e \<Rightarrow> Inl e | Inr (vals, res) \<Rightarrow> Inr res)" if "0 < b" for b
    by (simp add: predict_def pb [OF that] bind_err_def)
  have c2: "\<forall>bs' > 0. predict m X bs' = predict m X bs"
    using p bs by simp
  have c3: "\<exists>res. predict m X bs = Inr res \<and> length res = n \<and>
          (\<forall>i < n. res ! i < U \<and>
             euclidean (rows X ! i) (weights m ! (res ! i)) =
               Min (set (map (euclidean (rows X ! i)) (weights m))) \<and>
             (\<forall>j < res ! i.
                Min (set (map (euclidean (rows X ! i)) (weights m))) <
                  euclidean (rows X ! i) (weights m ! j)))"
    if np: "min_max m = np_min" and U: "0 < U"
  proof -
    have lX: "length (rows X) = n" using X by (simp add: wf_array_def matrix_def)
    have lW: "length (weights m) = U" using W by (simp add: matrix_def)
    have mD: "matrix n U ?D" using lX lW by (simp add: matrix_def)
    let ?res = "map (\<lambda>r. first_index (Min (set r)) r) ?D"
    have pr: "predict m X bs = Inr ?res"
      using p [OF bs] np np_min_matrix [OF mD U] by simp
    have ent: "?res ! i < U \<and>
         euclidean (rows X ! i) (weights m ! (?res ! i)) =
           Min (set (map (euclidean (rows X ! i)) (weights m))) \<and>
         (\<forall>j < ?res ! i.
            Min (set (map (euclidean (rows X ! i)) (weights m))) <
              euclidean (rows X ! i) (weights m ! j))" if i: "i < n" for i
    proof -
      let ?r = "map (euclidean (rows X ! i)) (weights m)"
      have ri: "?res ! i = first_index (Min (set ?r)) ?r" using i lX by simp
      have ne: "?r \<noteq> []" using lW U by auto
      note fi = first_index_Min [OF ne]
      have a: "?res ! i < U" using fi(1) lW by (simp only: ri length_map)
      have b: "euclidean (rows X ! i) (weights m ! (?res ! i)) = Min (set ?r)"
        using fi(2) a lW unfolding ri by simp
      have c: "\<forall>j < ?res ! i. Min (set ?r) < euclidean (rows X ! i) (weights m ! j)"
      proof (intro allI impI)
        fix j assume j: "j < ?res ! i"
        then have "j < U" using a by simp
        moreover have "Min (set ?r) < ?r ! j" using fi(3) j unfolding ri by blast
        ultimately show "Min (set ?r) < euclidean (rows X ! i) (weights m ! j)"
          using lW by simp
      qed
      from a b c show ?thesis by blast
    qed
    have "length ?res = n" using lX by simp
    with pr ent show ?thesis by blast
  qed
  from p [OF bs] c2 c3 show ?thesis by blast
qed

text \<open>
  Claim C2 as stated fails for an array of shape \<open>(0, 1)\<close>: the batch size is lowered to
  the number of rows, 0, and the number of batches is \<open>0 / 0\<close>.
\<close>

theorem predict_argmin_counterexample:
  "predict two_unit_trained no_points 1 = Inl ZeroDivisionError"
  by (simp add: predict_def predict_base_def check_input_def create_batches_def
      two_unit_trained_def two_unit_map_def no_points_def)


lemma sqrt_examples: "sqrt 9 = 3" "sqrt 25 = 5"
  by (rule real_sqrt_unique; simp)+

lemma euclid_examples:
  "euclidean [1] [0] = 1" "euclidean [1] [4] = 3" "euclidean [3] [0] = 3"
  "euclidean [3] [4] = 1" "euclidean [5] [0] = 5" "euclidean [5] [4] = 1"
  by (simp_all add: euclidean_def sqrt_examples)

theorem predict_argmin_witness:
  "wf_array 3 1 three_points \<and> matrix 2 1 (weights two_unit_trained) \<and>
   predict two_unit_trained three_points 2 = Inr [0, 1, 1] \<and>
   predict two_unit_trained three_points 1 = Inr [0, 1, 1] \<and>
   predict two_unit_trained three_points 100 = Inr [0, 1, 1]"
proof -
  have X: "wf_array 3 1 three_points" by (simp add: wf_array_def three_points_def matrix_def)
  have dd: "1 = data_dim two_unit_trained" by (simp add: two_unit_trained_def two_unit_map_def)
  have W: "matrix 2 1 (weights two_unit_trained)"
    by (simp add: two_unit_trained_def two_unit_map_def matrix_def)
  have wd: "weight_dim two_unit_trained = 2" by (simp add: two_unit_trained_def two_unit_map_def)
  have mm: "min_max two_unit_trained = np_min" by (simp add: two_unit_trained_def two_unit_map_def)
  have D: "map (\<lambda>x. map (euclidean x) (weights two_unit_trained)) (rows three_points)
      = [[1, 3], [3, 1], [5, 1]]"
    by (simp add: two_unit_trained_def two_unit_map_def three_points_def euclid_examples)
  have np: "np_min [[1, 3], [3, 1], [5, 1]] = Inr ([1, 1, 1], [0, 1, 1])"
    by (simp add: np_min_def first_index_def)
  from predict_argmin [OF X dd W wd, of 2] have
    p2: "predict two_unit_trained three_points 2 = Inr [0, 1, 1]"
    and all: "\<forall>bs' > 0. predict two_unit_trained three_points bs' =
      predict two_unit_trained three_points 2"
    by (simp_all add: mm D np)
  have p1: "predict two_unit_trained three_points 1 = Inr [0, 1, 1]"
    using all [rule_format, of 1] by (simp only: p2 zero_less_one)
  have "(0 :: nat) < 100" by simp
  then have p100: "predict two_unit_trained three_points 100 = Inr [0, 1, 1]"
    using all [rule_format, of 100] by (simp only: p2)
  from X W p2 p1 p100 show ?thesis by (intro conjI)
qed

subsection \<open>Persistence\<close>

lemma json_vector_saved: "json_vector (JArray (map (\<lambda>w. JFloat w) x)) = Inr x"
proof -
  have "sequence_sum (map json_number (map (\<lambda>w. JFloat w) x)) = Inr (map (\<lambda>w. w) x)"
    unfolding map_map by (rule sequence_sum_map_cong) simp
  then show ?thesis by simp
qed

lemma json_matrix_saved:
  assumes "matrix U d W" "0 < U"
  shows "json_matrix (JArray (map (\<lambda>x. JArray (map (\<lambda>w. JFloat w) x)) W)) = Inr W"
proof -
  have "sequence_sum (map json_vector (map (\<lambda>x. JArray (map (\<lambda>w. JFloat w) x)) W))
      = Inr (map (\<lambda>x. x) W)"
    unfolding map_map
    by (rule sequence_sum_map_cong) (simp add: json_vector_saved del: json_vector.simps)
  moreover have "\<forall>r \<in> set W. length r = ncols W"
    using assms ncols_matrix [OF assms] by (simp add: matrix_def)
  ultimately show ?thesis by simp
qed

lemma json_dimensions_saved: "json_dimensions (JArray (map (\<lambda>k. JInt (int k)) ds)) = Inr ds"
proof -
  have "sequence_sum (map json_dimension (map (\<lambda>k. JInt (int k)) ds)) = Inr (map (\<lambda>k. k) ds)"
    unfolding map_map by (rule sequence_sum_map_cong) simp
  then show ?thesis by simp
qed

lemma load_save:
  assumes W: "matrix U d (weights m)" and U: "0 < U"
  shows "load p (save m p fs) =
     Inr \<lparr>sigma = sigma m, learning_rate = learning_rate m, map_dimensions = map_dimensions m,
          weight_dim = prod_list (map_dimensions m), weights = weights m, data_dim = d,
          lrfunc = (if lrfunc m = Expo then Expo else Linear),
          nbfunc = (if nbfunc m = Expo then Expo else Linear),
          distance_grid = None, min_max = np_min, trained = True, scaler = Scaler_init\<rparr>"
proof -
  have ne: "weights m \<noteq> []" using W U by (auto simp: matrix_def)
  show ?thesis
    using ne by (simp add: load_def save_def save_document_def json_matrix_saved [OF W U]
        json_dimensions_saved ncols_matrix [OF W U] Som_init_def
        del: json_matrix.simps json_dimensions.simps)
qed

lemma predict_cong:
  assumes "data_dim m' = data_dim m" "weights m' = weights m" "weight_dim m' = weight_dim m"
    "min_max m' = min_max m"
  shows "predict m' X bs = predict m X bs"
  using assms by (simp add: predict_def predict_base_def check_input_def forward_def)

text \<open>
  Claim C9, as amended.  For a map whose weights have the shape \<open>(U, d)\<close> with at least one
  unit, \<^verbatim>\<open>load\<close> after \<^verbatim>\<open>save\<close> returns a map with the same weights, map dimensions, learning
  rate and sigma, marked trained; a schedule function is \<^verbatim>\<open>expo\<close> if it was, and \<^verbatim>\<open>linear\<close>
  otherwise; the selector is the default \<^verbatim>\<open>np_min\<close>.  If the saved map has the default
  selector (and \<open>data_dim = d\<close>, \<open>weight_dim\<close> the product of the dimensions, as the
  constructor and \<^verbatim>\<open>fit\<close> leave them), \<^verbatim>\<open>predict\<close> of the loaded map is \<^verbatim>\<open>predict\<close> of the saved one.
\<close>

theorem save_load_round_trip:
  assumes W: "matrix U d (weights m)" and U: "0 < U"
  shows "\<exists>m'. load p (save m p fs) = Inr m' \<and>
           weights m' = weights m \<and> map_dimensions m' = map_dimensions m \<and>
           learning_rate m' = learning_rate m \<and> sigma m' = sigma m \<and>
           lrfunc m' = (if lrfunc m = Expo then Expo else Linear) \<and>
           nbfunc m' = (if nbfunc m = Expo then Expo else Linear) \<and>
           trained m' \<and> min_max m' = np_min \<and>
           (min_max m = np_min \<and> data_dim m = d \<and> weight_dim m = prod_list (map_dimensions m) \<longrightarrow>
              (\<forall>X bs. predict m' X bs = predict m X bs))"
proof -
  let ?m' = "\<lparr>sigma = sigma m, learning_rate = learning_rate m, map_dimensions = map_dimensions m,
          weight_dim = prod_list (map_dimensions m), weights = weights m, data_dim = d,
          lrfunc = (if lrfunc m = Expo then Expo else Linear),
          nbfunc = (if nbfunc m = Expo then Expo else Linear),
          distance_grid = None, min_max = np_min, trained = True, scaler = Scaler_init\<rparr>"
  have l: "load p (save m p fs) = Inr ?m'" by (rule load_save [OF W U])
  have "predict ?m' X bs = predict m X bs"
    if "min_max m = np_min" "data_dim m = d" "weight_dim m = prod_list (map_dimensions m)" for X bs
    by (rule predict_cong) (use that in simp_all)
  then show ?thesis using l by (intro exI [of _ ?m']) simp
qed


lemma predict_selector:
  assumes "wf_array n d X" "d = data_dim m" "matrix U d (weights m)" "weight_dim m = U"
    "0 < n" "0 < bs"
  shows "predict m X bs =
      (case min_max m (map (\<lambda>x. map (euclidean x) (weights m)) (rows X)) of
         Inl e \<Rightarrow> Inl e
       | Inr (vals, res) \<Rightarrow> Inr res)"
  by (simp add: predict_def predict_base_matrix [OF assms] bind_err_def)

lemma three_points_distances:
  "map (\<lambda>x. map (euclidean x) [[0], [4]]) (rows three_points) = [[1, 3], [3, 1], [5, 1]]"
  by (simp add: three_points_def euclid_examples)

lemma wf_three_points: "wf_array 3 1 three_points"
  by (simp add: wf_array_def three_points_def matrix_def)

lemma predict_two_unit_trained: "predict two_unit_trained three_points 2 = Inr [0, 1, 1]"
proof -
  have "predict two_unit_trained three_points 2 =
      (case np_min [[1, 3], [3, 1], [5, 1]] of Inl e \<Rightarrow> Inl e | Inr (vals, res) \<Rightarrow> Inr res)"
    using predict_selector [OF wf_three_points, of two_unit_trained 2 2] three_points_distances
    by (simp add: two_unit_trained_def two_unit_map_def matrix_def)
  then show ?thesis by (simp add: np_min_def first_index_def)
qed

lemma predict_far_unit_map: "predict far_unit_map three_points 2 = Inr [1, 0, 0]"
proof -
  have "predict far_unit_map three_points 2 =
      (case np_max [[1, 3], [3, 1], [5, 1]] of Inl e \<Rightarrow> Inl e | Inr (vals, res) \<Rightarrow> Inr res)"
    using predict_selector [OF wf_three_points, of far_unit_map 2 2] three_points_distances
    by (simp add: far_unit_map_def two_unit_trained_def two_unit_map_def matrix_def)
  then show ?thesis by (simp add: np_max_def first_index_def)
qed

lemma load_save_far_unit_map:
  "load ''som.json'' (save far_unit_map ''som.json'' Map.empty) = Inr two_unit_trained"
proof -
  have W: "matrix 2 1 (weights far_unit_map)"
    by (simp add: far_unit_map_def two_unit_trained_def two_unit_map_def matrix_def)
  show ?thesis
    unfolding load_save [OF W, of "''som.json''" Map.empty, simplified]
    by (simp add: far_unit_map_def two_unit_trained_def two_unit_map_def)
qed

text \<open>
  Claim C9 as stated fails for a map with the selector \<^verbatim>\<open>np_max\<close>: the document has no entry
  for the selector, the loaded map has \<^verbatim>\<open>np_min\<close>, and the two maps predict different units.
\<close>

theorem save_load_round_trip_counterexample:
  "case load ''som.json'' (save far_unit_map ''som.json'' Map.empty) of
     Inl e \<Rightarrow> False
   | Inr m' \<Rightarrow> predict m' three_points 2 \<noteq> predict far_unit_map three_points 2"
  by (simp add: load_save_far_unit_map predict_two_unit_trained predict_far_unit_map)

theorem save_load_round_trip_witness:
  "matrix 2 1 (weights two_unit_trained) \<and>
   (\<exists>m'. load ''som.json'' (save two_unit_trained ''som.json'' Map.empty) = Inr m' \<and>
      weights m' = [[0], [4]] \<and> map_dimensions m' = [2, 1] \<and>
      learning_rate m' = 1 / 2 \<and> sigma m' = 2 / 2 + 1 / 100 \<and>
      lrfunc m' = Expo \<and> nbfunc m' = Expo \<and> trained m' \<and> min_max m' = np_min \<and>
      (\<forall>X bs. predict m' X bs = predict two_unit_trained X bs))"
proof -
  have W: "matrix 2 1 (weights two_unit_trained)"
    by (simp add: two_unit_trained_def two_unit_map_def matrix_def)
  have U: "(0 :: nat) < 2" by simp
  from save_load_round_trip [OF W U, of "''som.json''" Map.empty] W show ?thesis
    by (simp add: two_unit_trained_def two_unit_map_def)
qed

subsection \<open>Training\<close>

lemma same_config_refl: "same_config m m"
  by (simp add: same_config_def)

lemma same_config_trans: "same_config a b \<Longrightarrow> same_config b c \<Longrightarrow> same_config a c"
  by (simp add: same_config_def)

lemma same_config_updates:
  "same_config m (m\<lparr>weights := w\<rparr>)" "same_config m (m\<lparr>scaler := s\<rparr>)"
  "same_config m (m\<lparr>distance_grid := g\<rparr>)" "same_config m (m\<lparr>trained := t\<rparr>)"
  by (simp_all add: same_config_def)

lemma same_config_record:
  assumes "same_config m m'"
  shows "m' = m\<lparr>weights := weights m', scaler := scaler m', distance_grid := distance_grid m',
    trained := trained m'\<rparr>"
  using assms by (intro Som.equality) (simp_all add: same_config_def)

lemma backward_weights_only:
  "backward m d i a = Inr m' \<Longrightarrow> \<exists>w. m' = m\<lparr>weights := w\<rparr>"
  by (auto simp: backward_def bind_err_def split: sum.splits)

lemma propagate_weights_only:
  "propagate m x i = Inr (a, m') \<Longrightarrow> \<exists>w. m' = m\<lparr>weights := w\<rparr>"
  by (auto simp: propagate_def bind_err_def split: sum.splits dest: backward_weights_only)

lemma nb_update_som: "nb_update wd nbs lr st = Inr st' \<Longrightarrow> ts_som st' = ts_som st"
  by (auto simp: nb_update_def bind_err_def Let_def split: if_splits sum.splits)

lemma lr_update_som: "lr_update wd lrs lr st = Inr (lr', st') \<Longrightarrow> ts_som st' = ts_som st"
  by (auto simp: lr_update_def bind_err_def Let_def split: if_splits sum.splits)

lemma batch_loop_same_config:
  "same_config (ts_som st) (ts_som (snd (batch_loop wd nbs lrs bs n xs np lr st)))"
proof (induction xs arbitrary: np lr st)
  case Nil
  show ?case by (simp add: same_config_refl)
next
  case (Cons x xs)
  let ?x = "if n < np + bs then take (length x - (np + bs - n)) x else x"
  show ?case
  proof (cases "propagate (ts_som st) ?x (ts_influences st)")
    case (Inl e)
    then show ?thesis by (simp add: same_config_refl)
  next
    case (Inr r)
    obtain a m' where r: "r = (a, m')" by (cases r)
    from propagate_weights_only [OF Inr [unfolded r]] obtain w where m': "m' = (ts_som st)\<lparr>weights := w\<rparr>" ..
    have sc1: "same_config (ts_som st) m'" unfolding m' by (rule same_config_updates)
    show ?thesis
    proof (cases "nb_update wd nbs lr (st\<lparr>ts_som := m'\<rparr>)")
      case (Inl e)
      with Inr r sc1 show ?thesis by simp
    next
      case st1: (Inr st1)
      have s1: "ts_som st1 = m'" using nb_update_som [OF st1] by simp
      show ?thesis
      proof (cases "lr_update wd lrs lr st1")
        case (Inl e)
        then show ?thesis using Inr r st1 sc1 s1 by simp
      next
        case l0: (Inr p)
        obtain lr' st2 where p: "p = (lr', st2)" by (cases p)
        note l = l0 [unfolded p]
        have "ts_som st2 = m'" using s1 lr_update_som [OF l] by simp
        then have "same_config m' (ts_som (snd (batch_loop wd nbs lrs bs n xs (np + bs) lr'
            (st2\<lparr>ts_idx := ts_idx st2 + 1\<rparr>))))"
          using Cons.IH [where st = "st2\<lparr>ts_idx := ts_idx st2 + 1\<rparr>" and np = "np + bs" and lr = lr']
          by simp
        with sc1 have "same_config (ts_som st) (ts_som (snd (batch_loop wd nbs lrs bs n xs (np + bs) lr'
            (st2\<lparr>ts_idx := ts_idx st2 + 1\<rparr>))))"
          by (rule same_config_trans)
        then show ?thesis using Inr r st1 l by simp
      qed
    qed
  qed
qed

lemma epoch_same_config:
  "same_config (ts_som st) (ts_som (snd (epoch wd seed k X d nbs lrs bs st)))"
  by (auto simp: epoch_def Let_def same_config_refl batch_loop_same_config split: sum.splits)

lemma epoch_loop_same_config:
  "same_config (ts_som st) (ts_som (snd (epoch_loop wd seed X d nbs lrs bs es st)))"
proof (induction es arbitrary: st)
  case Nil
  show ?case by (simp add: same_config_refl)
next
  case (Cons e es)
  obtain r st' where ep: "epoch wd seed (Suc e) X d nbs lrs bs st = (r, st')"
    by (cases "epoch wd seed (Suc e) X d nbs lrs bs st")
  have s1: "same_config (ts_som st) (ts_som st')"
    using epoch_same_config [of st wd seed "Suc e" X d nbs lrs bs] ep by simp
  show ?case
  proof (cases r)
    case None
    have "same_config (ts_som st') (ts_som (snd (epoch_loop wd seed X d nbs lrs bs es st')))"
      by (rule Cons.IH)
    with s1 have "same_config (ts_som st) (ts_som (snd (epoch_loop wd seed X d nbs lrs bs es st')))"
      by (rule same_config_trans)
    then show ?thesis using ep None by simp
  next
    case (Some err)
    then show ?thesis using ep s1 by simp
  qed
qed


lemma epoch_loop_same_config_dest:
  "epoch_loop wd seed X d nbs lrs bs es st = (r, st') \<Longrightarrow> same_config (ts_som st) (ts_som st')"
  using epoch_loop_same_config [of st wd seed X d nbs lrs bs es] by simp

lemma fit_finish_same_config: "same_config m (snd (fit_finish m))"
  by (simp add: fit_finish_def Let_def same_config_def split: sum.splits)

lemma fit_epochs_same_config:
  "same_config m (snd (fit_epochs wd m X d ne nbs lrs bs seed))"
proof -
  have core: "same_config m (snd (case epoch_loop wd seed X d nbs lrs bs [0..<ne] st0 of
      (Some e, st) \<Rightarrow> (Inl e, ts_som st) | (None, st) \<Rightarrow> fit_finish (ts_som st)))"
    if st0: "ts_som st0 = m" for st0
  proof -
    obtain r st where el: "epoch_loop wd seed X d nbs lrs bs [0..<ne] st0 = (r, st)"
      by (cases "epoch_loop wd seed X d nbs lrs bs [0..<ne] st0")
    have s1: "same_config m (ts_som st)" using epoch_loop_same_config_dest [OF el] st0 by simp
    show ?thesis
    proof (cases r)
      case None
      have "same_config m (snd (fit_finish (ts_som st)))"
        using s1 fit_finish_same_config by (rule same_config_trans)
      then show ?thesis using el None by simp
    next
      case (Some e)
      then show ?thesis using el s1 by simp
    qed
  qed
  show ?thesis
    by (simp add: fit_epochs_def same_config_refl core split: sum.splits)
qed

lemma fit_train_same_config:
  "same_config m (snd (fit_train wd m X d ne tu sl sn bsize seed))"
proof -
  have "same_config m (snd (fit_epochs wd (m\<lparr>distance_grid := g\<rparr>) X d ne nbs lrs bs seed))"
    for g nbs lrs bs
    using fit_epochs_same_config [of "m\<lparr>distance_grid := g\<rparr>" wd X d ne nbs lrs bs seed]
    by (simp add: same_config_def)
  then show ?thesis
    by (simp add: fit_train_def Let_def same_config_refl same_config_updates split: sum.splits)
qed

lemma fit_same_config:
  "same_config m (snd (fit wd m X ne ip tu sl sn bsize seed))"
proof -
  have "same_config m (snd (fit_train wd (m\<lparr>scaler := s, weights := w\<rparr>) Xs d ne tu sl sn bsize seed))"
    for s w Xs d
    using fit_train_same_config [of "m\<lparr>scaler := s, weights := w\<rparr>" wd Xs d ne tu sl sn bsize seed]
    by (simp add: same_config_def)
  then show ?thesis
    by (simp add: fit_def Let_def same_config_refl same_config_updates split: sum.splits prod.splits)
qed


text \<open>
  Claim C10.  Whatever the arguments and whatever the outcome, the map that \<^verbatim>\<open>fit\<close> leaves
  differs from the map it was called on in at most the weights, the scaler, the distance
  grid and the trained flag: sigma, the learning rate, the map dimensions, \<^verbatim>\<open>weight_dim\<close>,
  \<^verbatim>\<open>data_dim\<close>, the schedule functions and the selector are unchanged, and the document
  that \<^verbatim>\<open>save\<close> writes afterwards holds the sigma and the learning rate of the constructor.
\<close>

theorem fit_frame:
  "(\<exists>w s g t. snd (fit wd m X ne ip tu sl sn bsize seed) =
       m\<lparr>weights := w, scaler := s, distance_grid := g, trained := t\<rparr>) \<and>
   sigma (snd (fit wd m X ne ip tu sl sn bsize seed)) = sigma m \<and>
   learning_rate (snd (fit wd m X ne ip tu sl sn bsize seed)) = learning_rate m \<and>
   map_dimensions (snd (fit wd m X ne ip tu sl sn bsize seed)) = map_dimensions m \<and>
   weight_dim (snd (fit wd m X ne ip tu sl sn bsize seed)) = weight_dim m \<and>
   data_dim (snd (fit wd m X ne ip tu sl sn bsize seed)) = data_dim m \<and>
   lrfunc (snd (fit wd m X ne ip tu sl sn bsize seed)) = lrfunc m \<and>
   nbfunc (snd (fit wd m X ne ip tu sl sn bsize seed)) = nbfunc m \<and>
   min_max (snd (fit wd m X ne ip tu sl sn bsize seed)) = min_max m \<and>
   json_item (save_document (snd (fit wd m X ne ip tu sl sn bsize seed))) ''sigma'' =
     Inr (JFloat (sigma m)) \<and>
   json_item (save_document (snd (fit wd m X ne ip tu sl sn bsize seed))) ''lr'' =
     Inr (JFloat (learning_rate m))"
proof -
  let ?m' = "snd (fit wd m X ne ip tu sl sn bsize seed)"
  have sc: "same_config m ?m'" by (rule fit_same_config)
  have "?m' = m\<lparr>weights := weights ?m', scaler := scaler ?m', distance_grid := distance_grid ?m',
      trained := trained ?m'\<rparr>"
    by (rule same_config_record [OF sc])
  then have ex: "\<exists>w s g t. ?m' = m\<lparr>weights := w, scaler := s, distance_grid := g, trained := t\<rparr>"
    by blast
  have sv: "json_item (save_document ?m') ''sigma'' = Inr (JFloat (sigma m))"
    "json_item (save_document ?m') ''lr'' = Inr (JFloat (learning_rate m))"
    using sc by (simp_all add: save_document_def same_config_def)
  from sc have "sigma ?m' = sigma m" "learning_rate ?m' = learning_rate m"
    "map_dimensions ?m' = map_dimensions m" "weight_dim ?m' = weight_dim m"
    "data_dim ?m' = data_dim m" "lrfunc ?m' = lrfunc m" "nbfunc ?m' = nbfunc m"
    "min_max ?m' = min_max m"
    by (simp_all add: same_config_def)
  with ex sv show ?thesis by (intro conjI)
qed

theorem fit_frame_witness:
  "sigma (snd (fit example_world two_unit_map three_points 1 False 50 1 1 100 44)) = 2 / 2 + 1 / 100 \<and>
   learning_rate (snd (fit example_world two_unit_map three_points 1 False 50 1 1 100 44)) = 1 / 2 \<and>
   map_dimensions (snd (fit example_world two_unit_map three_points 1 False 50 1 1 100 44)) = [2, 1] \<and>
   json_item (save_document (snd (fit example_world two_unit_map three_points 1 False 50 1 1 100 44)))
     ''sigma'' = Inr (JFloat (2 / 2 + 1 / 100))"
  using fit_frame [of example_world two_unit_map three_points 1 False 50 1 1 100 44]
  by (simp add: two_unit_map_def)

text \<open>
  Claim C7.  For an input that does not have two dimensions, or whose second dimension
  is not \<^verbatim>\<open>data_dim\<close>, \<^verbatim>\<open>fit\<close> raises the ValueError of \<^verbatim>\<open>_check_input\<close> and leaves the map
  as it was: no field is changed, and a map that was not trained is not trained.
\<close>

theorem fit_shape_error:
  assumes "length (shape X) \<noteq> 2 \<or> shape X ! 1 \<noteq> data_dim m"
  shows "fit wd m X ne ip tu sl sn bsize seed =
     (Inl (ValueError (if length (shape X) \<noteq> 2 then ''Your data is not a 2D matrix.''
                       else ''Your data size != weight dim'')), m)"
  using assms by (auto simp: fit_def check_input_def)

theorem fit_shape_error_witness:
  "length (shape flat_array) \<noteq> 2 \<and>
   fit example_world two_unit_map flat_array 10 True 50 1 1 100 44 =
     (Inl (ValueError ''Your data is not a 2D matrix.''), two_unit_map) \<and>
   \<not> trained (snd (fit example_world two_unit_map flat_array 10 True 50 1 1 100 44))"
proof -
  have h: "length (shape flat_array) \<noteq> 2" by (simp add: flat_array_def)
  then have "length (shape flat_array) \<noteq> 2 \<or> shape flat_array ! 1 \<noteq> data_dim two_unit_map" ..
  from fit_shape_error [OF this, of example_world 10 True 50 1 1 100 44] h
  show ?thesis by (simp add: two_unit_map_def)
qed

lemma Scaler_transform_fit_wf:
  assumes "matrix n d X"
  shows "\<exists>Xs. Scaler_transform (Scaler_fit s X) X = Inr Xs"
proof (cases "n = 0")
  case True
  with assms have "X = []" by (simp add: matrix_def)
  then show ?thesis
    by (simp add: Scaler_transform_def Scaler_fit_def broadcast_stat_def stat_add_def)
next
  case False
  then have "0 < n" by simp
  from Scaler_transform_fit [OF assms this] show ?thesis by blast
qed

text \<open>
  Claim C6, as amended.  For an array on the accelerator of the shape \<open>(n, data_dim)\<close>,
  \<^verbatim>\<open>fit\<close> with \<^verbatim>\<open>init_pca\<close> raises the ValueError of the configuration after the input is
  checked and the scaler is fitted: the map it leaves is the map it was called on with
  the scaler fitted on the input, so that the weights, the distance grid, the trained
  flag and all other fields are unchanged, and \<^verbatim>\<open>is_fit\<close> holds.
\<close>

theorem fit_pca_gpu:
  assumes "wf_array n d X" "d = data_dim m" "module X = Cupy"
  shows "fit wd m X ne True tu sl sn bsize seed =
     (Inl (ValueError ''PCA is currently not supported on GPU.''),
      m\<lparr>scaler := Scaler_fit (scaler m) (rows X)\<rparr>) \<and>
     is_fit (scaler (snd (fit wd m X ne True tu sl sn bsize seed)))"
proof -
  have ci: "check_input m X = Inr ()" using assms by (simp add: check_input_def wf_array_def)
  from assms have "matrix n d (rows X)" by (simp add: wf_array_def)
  from Scaler_transform_fit_wf [OF this] obtain Xs
    where "Scaler_transform (Scaler_fit (scaler m) (rows X)) (rows X) = Inr Xs" ..
  then have ft: "Scaler_fit_transform (scaler m) (rows X) = (Inr Xs, Scaler_fit (scaler m) (rows X))"
    by (simp add: Scaler_fit_transform_def Let_def)
  have "fit wd m X ne True tu sl sn bsize seed =
     (Inl (ValueError ''PCA is currently not supported on GPU.''),
      m\<lparr>scaler := Scaler_fit (scaler m) (rows X)\<rparr>)"
    using assms(3) by (simp add: fit_def ci ft seed_weights_def)
  then show ?thesis by (simp add: Scaler_fit_def)
qed

theorem fit_pca_gpu_witness:
  "wf_array 3 1 gpu_points \<and> module gpu_points = Cupy \<and>
   fit example_world two_unit_map gpu_points 10 True 50 1 1 100 44 =
     (Inl (ValueError ''PCA is currently not supported on GPU.''),
      two_unit_map\<lparr>scaler := Scaler_fit (scaler two_unit_map) (rows gpu_points)\<rparr>)"
proof -
  have w: "wf_array 3 1 gpu_points"
    by (simp add: gpu_points_def wf_array_def three_points_def matrix_def)
  have d: "1 = data_dim two_unit_map" by (simp add: two_unit_map_def)
  have c: "module gpu_points = Cupy" by (simp add: gpu_points_def)
  from fit_pca_gpu [OF w d c, of example_world 10 50 1 1 100 44] w c show ?thesis by simp
qed

text \<open>
  Claim C6 as stated fails: the scaler of the map is not fitted before the call and is
  fitted after it.
\<close>

theorem fit_pca_gpu_counterexample:
  "fst (fit example_world two_unit_map gpu_points 10 True 50 1 1 100 44) =
     Inl (ValueError ''PCA is currently not supported on GPU.'') \<and>
   \<not> is_fit (scaler two_unit_map) \<and>
   is_fit (scaler (snd (fit example_world two_unit_map gpu_points 10 True 50 1 1 100 44)))"
  by (simp add: fit_def check_input_def Scaler_fit_transform_def Scaler_fit_def Scaler_transform_def
      broadcast_stat_def broadcast_row_def stat_add_def seed_weights_def mean_axis0_def
      std_axis0_def ncols_def gpu_points_def three_points_def two_unit_map_def Scaler_init_def Let_def)

subsection \<open>Seeding of the weights\<close>

lemma sum_list_lower: "(\<forall>x \<in> set xs. a \<le> x) \<Longrightarrow> real (length xs) * a \<le> sum_list xs"
  for a :: real
  by (induction xs) (auto simp: algebra_simps)

lemma sum_list_upper: "(\<forall>x \<in> set xs. x \<le> a) \<Longrightarrow> sum_list xs \<le> real (length xs) * a"
  for a :: real
  by (induction xs) (auto simp: algebra_simps)

lemma Min_Max_of_zero_sum:
  fixes xs :: "real list"
  assumes "xs \<noteq> []" "sum_list xs = 0"
  shows "Min (set xs) \<le> 0" "0 \<le> Max (set xs)"
proof -
  have n: "0 < real (length xs)" using assms(1) by simp
  have "real (length xs) * Min (set xs) \<le> sum_list xs"
    by (rule sum_list_lower) simp
  then have "real (length xs) * Min (set xs) \<le> 0" using assms(2) by simp
  then show "Min (set xs) \<le> 0" using n by (simp add: mult_le_0_iff)
  have "sum_list xs \<le> real (length xs) * Max (set xs)"
    by (rule sum_list_upper) simp
  then have "0 \<le> real (length xs) * Max (set xs)" using assms(2) by simp
  then show "0 \<le> Max (set xs)" using n by (simp add: zero_le_mult_iff)
qed

lemma sum_list_shift:
  fixes xs :: "real list"
  shows "sum_list (map (\<lambda>x. x - c) xs) = sum_list xs - real (length xs) * c"
  by (induction xs) (simp_all add: algebra_simps)

lemma sum_list_div:
  fixes c :: real
  shows "sum_list (map (\<lambda>x. g x / c) xs) = sum_list (map g xs) / c"
  by (induction xs) (simp_all add: add_divide_distrib)

lemma sum_list_centered:
  fixes xs :: "real list"
  assumes "xs \<noteq> []"
  shows "sum_list (map (\<lambda>x. (x - mean_list xs) / c) xs) = 0"
proof -
  have "sum_list (map (\<lambda>x. x - mean_list xs) xs) = sum_list xs - real (length xs) * mean_list xs"
    by (rule sum_list_shift)
  also have "\<dots> = 0" using assms by (simp add: mean_list_def)
  finally have z: "sum_list (map (\<lambda>x. x - mean_list xs) xs) = 0" .
  have "sum_list (map (\<lambda>x. (x - mean_list xs) / c) xs) = sum_list (map (\<lambda>x. x - mean_list xs) xs) / c"
    by (rule sum_list_div)
  then show ?thesis using z by simp
qed


lemma scaled_column:
  assumes X: "matrix n d X" and n: "0 < n" and f: "f < d"
  shows "column (map (\<lambda>r. map2 (/) (map2 (-) r (mean_axis0 X)) (map (\<lambda>a. a + 1 / 100000) (std_axis0 X))) X) f
    = map (\<lambda>x. (x - mean_list (column X f)) / (std_list (column X f) + 1 / 100000)) (column X f)"
proof -
  note lm = length_stats [OF X n]
  have nc: "ncols X = d" by (rule ncols_matrix [OF X n])
  have mu: "mean_axis0 X ! f = mean_list (column X f)" using f nc by (simp add: mean_axis0_def)
  have sd: "std_axis0 X ! f = std_list (column X f)" using f nc by (simp add: std_axis0_def)
  have "map2 (/) (map2 (-) r (mean_axis0 X)) (map (\<lambda>a. a + 1 / 100000) (std_axis0 X)) ! f
      = (r ! f - mean_list (column X f)) / (std_list (column X f) + 1 / 100000)"
    if "r \<in> set X" for r
  proof -
    have "length r = d" using X that by (simp add: matrix_def)
    then show ?thesis using lm f by (simp add: mu sd)
  qed
  then show ?thesis by (simp add: column_def)
qed

lemma rand_matrix: "matrix a b (rand wd seed a b)"
  by (simp add: rand_def matrix_def)


text \<open>
  In exact arithmetic the scaled data of a feature sum to zero, so that their minimum is
  at most zero and their maximum at least zero.
\<close>

lemma scaled_data_around_zero:
  assumes X: "matrix n d X" and n: "0 < n" and f: "f < d"
  shows "\<exists>Xs. fst (Scaler_fit_transform s X) = Inr Xs \<and> matrix n d Xs \<and>
           Min (set (column Xs f)) \<le> 0 \<and> 0 \<le> Max (set (column Xs f))"
proof -
  let ?Xs = "map (\<lambda>r. map2 (/) (map2 (-) r (mean_axis0 X)) (map (\<lambda>a. a + 1 / 100000) (std_axis0 X))) X"
  note lm = length_stats [OF X n]
  have ft: "fst (Scaler_fit_transform s X) = Inr ?Xs"
    by (simp add: Scaler_fit_transform_def Let_def Scaler_transform_fit [OF X n])
  have mXs: "matrix n d ?Xs" using X lm by (simp add: matrix_def)
  have cne: "column X f \<noteq> []" using X n by (auto simp: column_def matrix_def)
  have col: "column ?Xs f = map (\<lambda>x. (x - mean_list (column X f)) / (std_list (column X f) + 1 / 100000)) (column X f)"
    by (rule scaled_column [OF X n f])
  have z: "sum_list (column ?Xs f) = 0" unfolding col by (rule sum_list_centered [OF cne])
  have cne': "column ?Xs f \<noteq> []" using cne by (simp add: col)
  note mm = Min_Max_of_zero_sum [OF cne' z]
  from ft mXs mm show ?thesis by blast
qed



subsection \<open>The scaler on 32-bit floating point numbers\<close>






lemma float32_zero: "float32 0 = 0"
  by (simp add: float32_def)






























subsection \<open>The distance grid\<close>

lemma grid_distance_Inr:
  assumes "map_dimensions m = [w, h]" "0 < h"
  shows "grid_distance m i =
     Inr (map (\<lambda>a. map (\<lambda>b. \<bar>int a - int (i div h)\<bar> ^ 2 + \<bar>int b - int (i mod h)\<bar> ^ 2) [0..<h]) [0..<w])"
  using assms by (simp add: grid_distance_def Let_def comp_def)

lemma initialize_distance_grid_Inr:
  assumes "map_dimensions m = [w, h]" "0 < h"
  shows "initialize_distance_grid m =
     Inr (map (\<lambda>i. map (\<lambda>a. map (\<lambda>b. float32_of_int
            (\<bar>int a - int (i div h)\<bar> ^ 2 + \<bar>int b - int (i mod h)\<bar> ^ 2)) [0..<h]) [0..<w])
          [0..<weight_dim m])"
proof -
  have "map (grid_distance m) [0..<weight_dim m] =
     map (\<lambda>i. Inr (map (\<lambda>a. map (\<lambda>b. \<bar>int a - int (i div h)\<bar> ^ 2 + \<bar>int b - int (i mod h)\<bar> ^ 2) [0..<h]) [0..<w]))
       [0..<weight_dim m]"
    using grid_distance_Inr [OF assms] by simp
  then show ?thesis
    unfolding initialize_distance_grid_def
    by (simp only: sequence_sum_map_Inr sum.case list.map_comp comp_def)
qed

lemma initialize_distance_grid_no_units:
  "weight_dim m = 0 \<Longrightarrow> initialize_distance_grid m = Inr []"
  by (simp add: initialize_distance_grid_def)

lemma initialize_distance_grid_length:
  assumes "map_dimensions m = [w, h]" "weight_dim m = w * h"
    and "initialize_distance_grid m = Inr g"
  shows "length g = w * h"
proof (cases "h = 0")
  case True
  with assms show ?thesis by (simp add: initialize_distance_grid_no_units)
next
  case False
  with assms initialize_distance_grid_Inr [of m w h] show ?thesis by auto
qed

lemma grid_rows_entry:
  assumes md: "map_dimensions m = [w, h]" and wd: "weight_dim m = w * h"
    and g: "initialize_distance_grid m = Inr g" and i: "i < w * h" and j: "j < w * h"
  shows "grid_rows g ! i ! j =
     float32_of_int ((int (i div h) - int (j div h)) ^ 2 + (int (i mod h) - int (j mod h)) ^ 2)"
proof -
  from i have h0: "0 < h" by (cases h) auto
  have jd: "j div h < w" using j h0 by (simp add: less_mult_imp_div_less)
  have jm: "j mod h < h" using h0 by simp
  define row where "row = (\<lambda>i. map (\<lambda>a. map (\<lambda>b. float32_of_int
            (\<bar>int a - int (i div h)\<bar> ^ 2 + \<bar>int b - int (i mod h)\<bar> ^ 2)) [0..<h]) [0..<w])"
  have geq: "g = map row [0..<w * h]"
    using initialize_distance_grid_Inr [OF md h0] g wd unfolding row_def by simp
  have gi: "grid_rows g ! i = concat (row i)"
    using i by (simp add: geq grid_rows_def)
  have len: "length (row i) = w" by (simp add: row_def)
  have un: "\<forall>xs \<in> set (row i). length xs = h" by (auto simp: row_def)
  have "concat (row i) ! j = row i ! (j div h) ! (j mod h)"
    using concat_nth_uniform [OF un] j len by simp
  also have "\<dots> = float32_of_int (\<bar>int (j div h) - int (i div h)\<bar> ^ 2 + \<bar>int (j mod h) - int (i mod h)\<bar> ^ 2)"
    using jd jm by (simp add: row_def)
  also have "\<bar>int (j div h) - int (i div h)\<bar> ^ 2 + \<bar>int (j mod h) - int (i mod h)\<bar> ^ 2
      = (int (i div h) - int (j div h)) ^ 2 + (int (i mod h) - int (j mod h)) ^ 2"
    by (simp add: power2_commute)
  finally show ?thesis using gi by simp
qed

lemma initialize_distance_grid_total:
  assumes "map_dimensions m = [w, h]" "weight_dim m = w * h"
  shows "\<exists>g. initialize_distance_grid m = Inr g"
proof (cases "h = 0")
  case True
  with assms show ?thesis by (simp add: initialize_distance_grid_no_units)
next
  case False
  with assms initialize_distance_grid_Inr [of m w h] show ?thesis by auto
qed

text \<open>
  Claim C3, as amended.  For a map of \<open>width \<times> height\<close> units the grid is built without an
  exception and has one row per unit.  With \<open>row k = k div height\<close> and
  \<open>col k = k mod height\<close>, the entry \<open>D[i,j]\<close> is \<open>(row i - row j)\<^sup>2 + (col i - col j)\<^sup>2\<close>
  whenever that number is at most \<open>2^24\<close>, so that its 32-bit floating point number is
  exact; and for all units \<open>D[i,j] = D[j,i]\<close> and \<open>D[i,i] = 0\<close>.
\<close>

theorem distance_grid_entries:
  assumes "map_dimensions m = [w, h]" "weight_dim m = w * h"
  shows "\<exists>g. initialize_distance_grid m = Inr g \<and> length g = w * h \<and>
     (\<forall>i < w * h. \<forall>j < w * h.
        ((int (i div h) - int (j div h)) ^ 2 + (int (i mod h) - int (j mod h)) ^ 2 \<le> 2 ^ 24 \<longrightarrow>
           grid_rows g ! i ! j =
             real_of_int ((int (i div h) - int (j div h)) ^ 2 + (int (i mod h) - int (j mod h)) ^ 2)) \<and>
        grid_rows g ! i ! j = grid_rows g ! j ! i \<and>
        grid_rows g ! i ! i = 0)"
proof -
  from initialize_distance_grid_total [OF assms]
  obtain g where g: "initialize_distance_grid m = Inr g" ..
  have len: "length g = w * h"
    by (rule initialize_distance_grid_length [OF assms g])
  have ent: "grid_rows g ! i ! j =
      float32_of_int ((int (i div h) - int (j div h)) ^ 2 + (int (i mod h) - int (j mod h)) ^ 2)"
    if "i < w * h" "j < w * h" for i j
    using grid_rows_entry [OF assms g that] .
  have "grid_rows g ! i ! j =
      real_of_int ((int (i div h) - int (j div h)) ^ 2 + (int (i mod h) - int (j mod h)) ^ 2)"
    if "i < w * h" "j < w * h"
      "(int (i div h) - int (j div h)) ^ 2 + (int (i mod h) - int (j mod h)) ^ 2 \<le> 2 ^ 24" for i j
    using ent [OF that(1,2)] float32_of_int_exact [OF _ that(3)] by simp
  moreover have "grid_rows g ! i ! j = grid_rows g ! j ! i" if "i < w * h" "j < w * h" for i j
    using ent [OF that] ent [OF that(2,1)] by (simp add: power2_commute)
  moreover have "grid_rows g ! i ! i = 0" if "i < w * h" for i
    using ent [OF that that] by (simp add: float32_of_int_zero)
  ultimately show ?thesis using g len by blast
qed

theorem distance_grid_entries_witness:
  "case Som_init [2, 3] 2 (1 / 2) Expo Expo None np_min of
     Inl e \<Rightarrow> False
   | Inr m \<Rightarrow>
       map_dimensions m = [2, 3] \<and> weight_dim m = 2 * 3 \<and>
       (\<exists>g. initialize_distance_grid m = Inr g \<and> length g = 2 * 3 \<and>
          (\<forall>i < 2 * 3. \<forall>j < 2 * 3.
             ((int (i div 3) - int (j div 3)) ^ 2 + (int (i mod 3) - int (j mod 3)) ^ 2 \<le> 2 ^ 24 \<longrightarrow>
                grid_rows g ! i ! j =
                  real_of_int ((int (i div 3) - int (j div 3)) ^ 2 + (int (i mod 3) - int (j mod 3)) ^ 2)) \<and>
             grid_rows g ! i ! j = grid_rows g ! j ! i \<and>
             grid_rows g ! i ! i = 0))"
proof -
  let ?m = "\<lparr>sigma = 3 / 2 + 1 / 100, learning_rate = 1 / 2, map_dimensions = [2, 3],
      weight_dim = 6, weights = replicate 6 (replicate 2 0), data_dim = 2, lrfunc = Expo,
      nbfunc = Expo, distance_grid = None, min_max = np_min, trained = False,
      scaler = Scaler_init\<rparr>"
  have m: "Som_init [2, 3] 2 (1 / 2) Expo Expo None np_min = Inr ?m"
    by (simp add: Som_init_def)
  have "map_dimensions ?m = [2, 3]" "weight_dim ?m = 2 * 3" by simp_all
  from distance_grid_entries [OF this] show ?thesis
    unfolding m by simp
qed

text \<open>
  Claim C3 as stated fails on a map of 4098 by 1 units: the squared distance of the units 0
  and 4097 is \<open>4097\<^sup>2 = 16785409\<close>, an odd number above \<open>2^24\<close>, and the grid of 32-bit
  floating point numbers holds 16785408.
\<close>

theorem distance_grid_entries_counterexample:
  "case Som_init [4098, 1] 2 (1 / 2) Expo Expo None np_min of
     Inl e \<Rightarrow> False
   | Inr m \<Rightarrow>
       (case initialize_distance_grid m of
          Inl e \<Rightarrow> False
        | Inr g \<Rightarrow>
            grid_rows g ! 0 ! 4097 \<noteq>
              real_of_int ((int (0 div 1) - int (4097 div 1)) ^ 2 + (int (0 mod 1) - int (4097 mod 1)) ^ 2))"
proof -
  let ?m = "\<lparr>sigma = 4098 / 2 + 1 / 100, learning_rate = 1 / 2, map_dimensions = [4098, 1],
      weight_dim = 4098, weights = replicate 4098 (replicate 2 0), data_dim = 2, lrfunc = Expo,
      nbfunc = Expo, distance_grid = None, min_max = np_min, trained = False,
      scaler = Scaler_init\<rparr>"
  have m: "Som_init [4098, 1] 2 (1 / 2) Expo Expo None np_min = Inr ?m"
    by (simp add: Som_init_def)
  have md: "map_dimensions ?m = [4098, 1]" and wd: "weight_dim ?m = 4098 * 1" by simp_all
  from initialize_distance_grid_total [OF md wd]
  obtain g where g: "initialize_distance_grid ?m = Inr g" ..
  have "grid_rows g ! 0 ! 4097 =
      float32_of_int ((int (0 div 1) - int (4097 div 1)) ^ 2 + (int (0 mod 1) - int (4097 mod 1)) ^ 2)"
    by (rule grid_rows_entry [OF md wd g]) simp_all
  then have "grid_rows g ! 0 ! 4097 = 16785408"
    by (simp add: float32_of_int_16785409)
  then show ?thesis unfolding m using g by simp
qed

subsection \<open>Completion of the training, and the map of the weights\<close>

lemma last_batch_starts:
  assumes "0 < n" "0 < b"
  shows "(nat \<lceil>real n / real b\<rceil> - 1) * b < n"
proof -
  define c where "c = \<lceil>real n / real b\<rceil>"
  have pos: "0 < real n / real b" using assms by simp
  then have c0: "0 < c" unfolding c_def by (simp only: zero_less_ceiling)
  have up: "real_of_int c - 1 < real n / real b"
    unfolding c_def using ceiling_correct [of "real n / real b"] by blast
  have ra: "real (nat c - 1) = real_of_int c - 1" using c0 by (simp add: of_nat_diff)
  have "real (nat c - 1) * real b < real n"
    unfolding ra using up assms by (simp add: pos_less_divide_eq)
  then have "real ((nat c - 1) * b) < real n" by simp
  then have "(nat c - 1) * b < n" by (simp only: of_nat_less_iff)
  then show ?thesis by (simp only: c_def)
qed

lemma create_batches_shuffled:
  assumes sh: "matrix n d (sh X)" and n: "0 < n" and bs: "0 < bs" "bs \<le> n"
  shows "\<exists>batches. create_batches X d bs (Some sh) = Inr batches \<and>
           (\<forall>x \<in> set batches. matrix bs d x) \<and>
           (length batches - 1) * bs < n"
proof -
  define a where "a = nat \<lceil>real n / real bs\<rceil>"
  define z where "z = sh X @ replicate (a * bs - n) (replicate d 0)"
  let ?batches = "map (\<lambda>i. take bs (drop (i * bs) z)) [0..<a]"
  have lX: "length (sh X) = n" using sh by (simp add: matrix_def)
  have bif: "(if n < bs then n else bs) = bs" using bs by simp
  have le: "n \<le> a * bs" unfolding a_def by (rule ceiling_batches [OF bs(1)])
  have "create_batches X d bs (Some sh) =
      (if bs = 0 then Inl ZeroDivisionError else resize (sh X) (nat \<lceil>real n / real bs\<rceil>, bs, d))"
    by (simp only: create_batches_def Let_def option.case lX bif)
  then have cb1: "create_batches X d bs (Some sh) = resize (sh X) (a, bs, d)"
    using bs by (simp add: a_def)
  have "resize (sh X) (a, bs, d) = Inr ?batches"
    using le by (simp add: resize_def lX z_def Let_def)
  with cb1 have cb: "create_batches X d bs (Some sh) = Inr ?batches" by simp
  have lz: "length z = a * bs" using le by (simp add: z_def lX)
  have rz: "\<forall>r \<in> set z. length r = d" using sh by (auto simp: z_def matrix_def)
  have "\<forall>x \<in> set ?batches. matrix bs d x"
    using chunk_matrix [OF lz rz] by auto
  moreover have "(length ?batches - 1) * bs < n"
    using last_batch_starts [OF n bs(1)] by (simp add: a_def)
  ultimately show ?thesis using cb by blast
qed

lemma initialize_distance_grid_tensor:
  assumes "map_dimensions m = [w, h]" "weight_dim m = w * h"
  shows "\<exists>g. initialize_distance_grid m = Inr g \<and> tensor (w * h) w h g"
proof (cases "h = 0")
  case True
  with assms show ?thesis by (simp add: initialize_distance_grid_no_units tensor_def)
next
  case False
  then have "0 < h" by simp
  from initialize_distance_grid_Inr [OF assms(1) this] assms(2) show ?thesis
    by (auto simp: tensor_def matrix_def)
qed

lemma length_concat_tensor:
  assumes "tensor a b c T"
  shows "length (concat (concat T)) = a * b * c"
proof -
  have "\<forall>xs \<in> set T. length xs = b" using assms by (simp add: tensor_def matrix_def)
  then have l1: "length (concat T) = a * b"
    using length_concat_uniform [of T b] assms by (simp add: tensor_def)
  have "\<forall>r \<in> set (concat T). length r = c" using assms by (auto simp: tensor_def matrix_def)
  then show ?thesis using length_concat_uniform [of "concat T" c] l1 by simp
qed

lemma calculate_influence_tensor:
  assumes g: "distance_grid m = Some g" "tensor U w h g" and U: "w * h = U" "weight_dim m = U"
  shows "\<exists>infl. calculate_influence m sg = Inr infl \<and> tensor U U 1 infl"
proof -
  let ?grid = "map (map (map (\<lambda>v. exp (- v / (2 * sg ^ 2))))) g"
  let ?flat = "concat (concat ?grid)"
  have "tensor U w h ?grid" using g(2) by (simp add: tensor_def matrix_def)
  then have lf: "length ?flat = U * U" using length_concat_tensor [of U w h ?grid] U by (simp add: mult.assoc)
  let ?r = "map (\<lambda>i. take U (drop (i * U) ?flat)) [0..<U]"
  have rs: "reshape2 ?flat U U = Inr ?r" using lf by (simp add: reshape2_def)
  have ci: "calculate_influence m sg = Inr (map (map (\<lambda>v. [v])) ?r)"
    unfolding calculate_influence_def g(1) option.case Let_def U(2) rs by simp
  have "length (take U (drop (i * U) ?flat)) = U" if "i < U" for i
  proof -
    have "i * U + U \<le> U * U" using that
      by (metis Suc_leI mult_Suc mult_le_mono1 add.commute)
    then show ?thesis using lf by simp
  qed
  then have "tensor U U 1 (map (map (\<lambda>v. [v])) ?r)"
    by (auto simp: tensor_def matrix_def)
  with ci show ?thesis by blast
qed


lemma propagate_succeeds:
  assumes W: "matrix U d (weights m)" and U: "0 < U" and mm: "min_max m = np_min"
    and x: "matrix B d x" and B: "0 < B" and i: "tensor U U 1 infl"
  shows "\<exists>act W'. propagate m x infl = Inr (act, m\<lparr>weights := W'\<rparr>) \<and> matrix U d W'"
proof -
  let ?act = "map (\<lambda>xr. map (euclidean xr) (weights m)) x"
  let ?diff = "map (\<lambda>xr. map (\<lambda>wr. map2 (-) xr wr) (weights m)) x"
  have xl: "\<forall>r \<in> set x. length r = d" and Wl: "\<forall>r \<in> set (weights m). length r = d"
    using x W by (simp_all add: matrix_def)
  have fw: "forward m x = Inr (?act, ?diff)" by (rule forward_matrix [OF xl Wl])
  have ma: "matrix B U ?act" using x W by (simp add: matrix_def)
  let ?bmu = "map (\<lambda>r. first_index (Min (set r)) r) ?act"
  have np: "min_max m ?act = Inr (map (\<lambda>r. Min (set r)) ?act, ?bmu)"
    unfolding mm by (rule np_min_matrix [OF ma U])
  have bl: "length ?bmu = B" using x by (simp add: matrix_def)
  have bi: "\<forall>i \<in> set ?bmu. i < U"
  proof
    fix j assume "j \<in> set ?bmu"
    then have "j \<in> (\<lambda>r. first_index (Min (set r)) r) ` set ?act" by (simp only: set_map)
    then obtain r where j: "j = first_index (Min (set r)) r" and r: "r \<in> set ?act"
      by (rule imageE)
    have lr: "length r = U" using ma r by (simp only: matrix_def)
    then have "r \<noteq> []" using U by auto
    from first_index_Min(1) [OF this] show "j < U" using j lr by simp
  qed
  have dl: "length ?diff = B" using x by (simp add: matrix_def)
  have dm: "\<forall>a \<in> set ?diff. matrix U d a" using x W by (auto simp: matrix_def)
  have il: "length infl = U" and im: "\<forall>s \<in> set infl. matrix U 1 s"
    using i by (simp_all add: tensor_def)
  from backward_update_entries [OF B np bl bi dl dm il im W]
  obtain W' where bw: "backward m ?diff infl ?act = Inr (m\<lparr>weights := W'\<rparr>)"
    and mW: "matrix U d W'" by blast
  have "propagate m x infl = Inr (?act, m\<lparr>weights := W'\<rparr>)"
    by (simp add: propagate_def fw bw)
  with mW show ?thesis by blast
qed

lemma tensor_scale3: "tensor a b c T \<Longrightarrow> tensor a b c (scale3 k T)"
  by (simp add: tensor_def matrix_def scale3_def)

lemma tensor_unscale3: "tensor a b c T \<Longrightarrow> tensor a b c (unscale3 k T)"
  by (simp add: tensor_def matrix_def unscale3_def)

lemma schedule_succeeds:
  "xs \<noteq> [] \<Longrightarrow> schedule wd f v k (card (set xs)) = Inr (decay_value wd f v k (card (set xs)))"
  by (simp add: schedule_def card_gt_0_iff)

lemma nb_update_succeeds:
  assumes inv: "train_inv m0 U d st"
    and g: "distance_grid m0 = Some g" "tensor U w h g" "w * h = U" "weight_dim m0 = U"
    and ne: "nbs \<noteq> []"
  shows "\<exists>st'. nb_update wd nbs lr st = Inr st' \<and> train_inv m0 U d st' \<and> ts_idx st' = ts_idx st"
proof (cases "real (ts_idx st) \<in> set nbs")
  case False
  then show ?thesis using inv by (simp add: nb_update_def)
next
  case True
  from inv obtain W where som: "ts_som st = m0\<lparr>weights := W\<rparr>" and mW: "matrix U d W"
    by (auto simp: train_inv_def)
  have g': "distance_grid (ts_som st) = Some g" "weight_dim (ts_som st) = U"
    using g som by simp_all
  let ?sg = "decay_value wd (nbfunc (ts_som st)) (sigma (ts_som st)) (ts_nb_step st + 1)
      (card (set nbs))"
  from calculate_influence_tensor [OF g'(1) g(2,3) g'(2), of ?sg]
  obtain infl where ci: "calculate_influence (ts_som st) ?sg = Inr infl" and ti: "tensor U U 1 infl"
    by blast
  let ?st' = "st\<lparr>ts_nb_step := ts_nb_step st + 1, ts_influences := scale3 lr infl\<rparr>"
  have "nb_update wd nbs lr st = Inr ?st'"
    using True ci by (simp add: nb_update_def Let_def schedule_succeeds [OF ne])
  moreover have "train_inv m0 U d ?st'"
    using som mW tensor_scale3 [OF ti] by (auto simp: train_inv_def)
  ultimately show ?thesis by auto
qed

lemma lr_update_succeeds:
  assumes inv: "train_inv m0 U d st" and ne: "lrs \<noteq> []"
  shows "\<exists>lr' st'. lr_update wd lrs lr st = Inr (lr', st') \<and> train_inv m0 U d st' \<and>
    ts_idx st' = ts_idx st"
  using inv tensor_scale3 [OF tensor_unscale3]
  by (auto simp: lr_update_def Let_def train_inv_def schedule_succeeds [OF ne])


lemma train_inv_som: "train_inv m0 U d st \<Longrightarrow> train_inv m0 U d (st\<lparr>ts_idx := k\<rparr>)"
  by (simp add: train_inv_def)

lemma batch_loop_succeeds:
  assumes mm: "min_max m0 = np_min" and U: "0 < U"
    and g: "distance_grid m0 = Some g" "tensor U w h g" "w * h = U" "weight_dim m0 = U"
    and bs: "0 < bs" and ne: "nbs \<noteq> []" "lrs \<noteq> []"
  shows "train_inv m0 U d st \<Longrightarrow> \<forall>x \<in> set xs. matrix bs d x \<Longrightarrow>
    (xs \<noteq> [] \<longrightarrow> np + (length xs - 1) * bs < n) \<Longrightarrow>
    \<exists>st'. batch_loop wd nbs lrs bs n xs np lr st = (None, st') \<and> train_inv m0 U d st'"
proof (induction xs arbitrary: np lr st)
  case Nil
  then show ?case by simp
next
  case (Cons x xs)
  from Cons.prems(1) obtain W where som: "ts_som st = m0\<lparr>weights := W\<rparr>" and mW: "matrix U d W"
    and ti: "tensor U U 1 (ts_influences st)"
    by (auto simp: train_inv_def)
  have np: "np + length xs * bs < n" using Cons.prems(3) by simp
  have mx: "matrix bs d x" using Cons.prems(2) by simp
  let ?x = "if n < np + bs then take (length x - (np + bs - n)) x else x"
  have "\<exists>B. 0 < B \<and> matrix B d ?x"
  proof (cases "n < np + bs")
    case True
    have p: "0 < n - np" using np by simp
    have "matrix (n - np) d (take (length x - (np + bs - n)) x)"
      using mx True np by (auto simp: matrix_def dest: in_set_takeD)
    then have "matrix (n - np) d ?x" using True by (simp only: if_True)
    with p show ?thesis by blast
  next
    case False
    then have "matrix bs d ?x" using mx by (simp only: if_False)
    with bs show ?thesis by blast
  qed
  then obtain B where B: "0 < B" and mB: "matrix B d ?x" by blast
  have W': "matrix U d (weights (ts_som st))" and mm': "min_max (ts_som st) = np_min"
    using som mW mm by simp_all
  from propagate_succeeds [OF W' U mm' mB B ti]
  obtain act W1 where pr: "propagate (ts_som st) ?x (ts_influences st) = Inr (act, (ts_som st)\<lparr>weights := W1\<rparr>)"
    and mW1: "matrix U d W1" by blast
  let ?sta = "st\<lparr>ts_som := (ts_som st)\<lparr>weights := W1\<rparr>\<rparr>"
  have "ts_som ?sta = m0\<lparr>weights := W1\<rparr>" using som by simp
  then have "\<exists>W. ts_som ?sta = m0\<lparr>weights := W\<rparr> \<and> matrix U d W" using mW1 by blast
  moreover have "tensor U U 1 (ts_influences ?sta)" using ti by simp
  ultimately have inva: "train_inv m0 U d ?sta" by (simp only: train_inv_def)
  from nb_update_succeeds [OF inva g ne(1), of wd lr]
  obtain st1 where nb: "nb_update wd nbs lr ?sta = Inr st1" and inv1: "train_inv m0 U d st1" by blast
  from lr_update_succeeds [OF inv1 ne(2), of wd lr]
  obtain lr' st2 where l: "lr_update wd lrs lr st1 = Inr (lr', st2)" and inv2: "train_inv m0 U d st2"
    by blast
  have inv3: "train_inv m0 U d (st2\<lparr>ts_idx := ts_idx st2 + 1\<rparr>)" by (rule train_inv_som [OF inv2])
  have rest: "\<forall>x \<in> set xs. matrix bs d x" using Cons.prems(2) by simp
  have pos: "xs \<noteq> [] \<longrightarrow> np + bs + (length xs - 1) * bs < n"
  proof
    assume "xs \<noteq> []"
    then have "(length xs - 1) * bs + bs = length xs * bs"
      by (cases xs) simp_all
    then show "np + bs + (length xs - 1) * bs < n" using np by simp
  qed
  from Cons.IH [OF inv3 rest pos, of lr']
  obtain st' where bl: "batch_loop wd nbs lrs bs n xs (np + bs) lr' (st2\<lparr>ts_idx := ts_idx st2 + 1\<rparr>) = (None, st')"
    and inv': "train_inv m0 U d st'" by blast
  have "batch_loop wd nbs lrs bs n (x # xs) np lr st = (None, st')"
    using pr nb l bl by (simp add: Let_def)
  with inv' show ?case by blast
qed

lemma epoch_succeeds:
  assumes mm: "min_max m0 = np_min" and U: "0 < U"
    and g: "distance_grid m0 = Some g" "tensor U w h g" "w * h = U" "weight_dim m0 = U"
    and bs: "0 < bs" "bs \<le> n" and n: "0 < n"
    and X: "matrix n d X" and sh: "matrix n d (shuffle_rows wd seed k X)"
    and inv: "train_inv m0 U d st" and ne: "nbs \<noteq> []" "lrs \<noteq> []"
  shows "\<exists>st'. epoch wd seed k X d nbs lrs bs st = (None, st') \<and> train_inv m0 U d st'"
proof -
  from create_batches_shuffled [where sh = "shuffle_rows wd seed k" and X = X, OF sh n bs]
  obtain batches where cb: "create_batches X d bs (Some (shuffle_rows wd seed k)) = Inr batches"
    and bm: "\<forall>x \<in> set batches. matrix bs d x" and lb: "(length batches - 1) * bs < n" by blast
  have lX: "length X = n" using X by (simp add: matrix_def)
  have pos: "batches \<noteq> [] \<longrightarrow> 0 + (length batches - 1) * bs < n" using lb by simp
  from batch_loop_succeeds [OF mm U g bs(1) ne inv bm pos]
  obtain st' where "batch_loop wd nbs lrs bs n batches 0
      (decay_value wd (lrfunc (ts_som st)) (learning_rate (ts_som st)) (ts_lr_step st)
        (card (set lrs))) st = (None, st')"
    and "train_inv m0 U d st'" by blast
  then show ?thesis by (auto simp: epoch_def cb lX schedule_succeeds [OF ne(2)])
qed

lemma epoch_loop_succeeds:
  assumes mm: "min_max m0 = np_min" and U: "0 < U"
    and g: "distance_grid m0 = Some g" "tensor U w h g" "w * h = U" "weight_dim m0 = U"
    and bs: "0 < bs" "bs \<le> n" and n: "0 < n"
    and X: "matrix n d X" and sh: "\<forall>k. matrix n d (shuffle_rows wd seed k X)"
    and ne: "nbs \<noteq> []" "lrs \<noteq> []"
  shows "train_inv m0 U d st \<Longrightarrow>
    \<exists>st'. epoch_loop wd seed X d nbs lrs bs es st = (None, st') \<and> train_inv m0 U d st'"
proof (induction es arbitrary: st)
  case Nil
  then show ?case by simp
next
  case (Cons e es)
  from sh have she: "matrix n d (shuffle_rows wd seed (Suc e) X)" ..
  from epoch_succeeds [OF mm U g bs n X she Cons.prems ne]
  obtain st1 where ep: "epoch wd seed (Suc e) X d nbs lrs bs st = (None, st1)"
    and inv1: "train_inv m0 U d st1" by blast
  from Cons.IH [OF inv1] obtain st' where
    "epoch_loop wd seed X d nbs lrs bs es st1 = (None, st')" "train_inv m0 U d st'" by blast
  then show ?case using ep by auto
qed


lemma update_steps_succeeds: "0 < tu \<Longrightarrow> \<exists>xs. update_steps tlen stp tu = Inr xs"
  by (simp add: update_steps_def Let_def)

lemma update_steps_nonempty:
  assumes "0 < tu" "0 < tlen" "0 < stp"
  shows "\<exists>xs. update_steps tlen stp tu = Inr xs \<and> xs \<noteq> []"
proof -
  define step where "step = max (real_of_int \<lfloor>real tlen * stp / real tu\<rfloor>) 1"
  define stop where "stop = real tlen * stp"
  have s1: "0 < step" by (simp add: step_def)
  have s2: "0 < stop" using assms by (simp add: stop_def)
  have "0 < (stop + step - step) / step" using s1 s2 by simp
  then have "0 < \<lceil>(stop + step - step) / step\<rceil>" by (simp only: zero_less_ceiling)
  then have "np_arange step (stop + step) step \<noteq> []" by (simp add: np_arange_def)
  moreover have "update_steps tlen stp tu = Inr (np_arange step (stop + step) step)"
    using assms(1) by (simp add: update_steps_def Let_def step_def stop_def)
  ultimately show ?thesis by blast
qed

lemma fit_finish_succeeds:
  assumes W: "matrix U d (weights m0)" and s: "scaler m0 = Scaler_fit s0 X"
    and X: "matrix n d X" and n: "0 < n"
  shows "\<exists>Wf. fit_finish m0 = (Inr (), m0\<lparr>trained := True, weights := Wf\<rparr>) \<and> matrix U d Wf"
proof -
  let ?Wf = "map (\<lambda>r. map2 (+) (map2 (*) r (std_axis0 X)) (mean_axis0 X)) (weights m0)"
  have "Scaler_inverse_transform (Scaler_fit s0 X) (weights m0) = Inr ?Wf"
    by (rule Scaler_inverse_transform_fit [OF W X n])
  then have "fit_finish m0 = (Inr (), m0\<lparr>trained := True, weights := ?Wf\<rparr>)"
    by (simp add: fit_finish_def Let_def s)
  moreover have "matrix U d ?Wf" using W length_stats [OF X n] by (simp add: matrix_def)
  ultimately show ?thesis by blast
qed

lemma fit_epochs_succeeds:
  assumes mm: "min_max m0 = np_min" and U: "0 < U"
    and g: "distance_grid m0 = Some g" "tensor U w h g" "w * h = U" "weight_dim m0 = U"
    and bs: "0 < bs" "bs \<le> n" and n: "0 < n"
    and Xs: "matrix n d Xs" and sh: "\<forall>k. matrix n d (shuffle_rows wd seed k Xs)"
    and W: "matrix U d (weights m0)"
    and s: "scaler m0 = Scaler_fit s0 X" and X: "matrix n d X"
    and ne: "nbs \<noteq> []" "lrs \<noteq> []"
  shows "\<exists>Wf. fit_epochs wd m0 Xs d ne nbs lrs bs seed =
      (Inr (), m0\<lparr>trained := True, weights := Wf\<rparr>) \<and> matrix U d Wf"
proof -
  let ?sg = "decay_value wd (nbfunc m0) (sigma m0) 0 (card (set nbs))"
  let ?lr = "decay_value wd (lrfunc m0) (learning_rate m0) 0 (card (set lrs))"
  from calculate_influence_tensor [OF g, of ?sg]
  obtain infl where ci: "calculate_influence m0 ?sg = Inr infl" and ti: "tensor U U 1 infl" by blast
  let ?st = "\<lparr>ts_som = m0, ts_idx = 0, ts_nb_step = 0, ts_lr_step = 0,
      ts_influences = scale3 ?lr infl\<rparr>"
  have "ts_som ?st = m0\<lparr>weights := weights m0\<rparr>" by simp
  then have "\<exists>W. ts_som ?st = m0\<lparr>weights := W\<rparr> \<and> matrix U d W" using W by blast
  moreover have "tensor U U 1 (ts_influences ?st)" using tensor_scale3 [OF ti] by simp
  ultimately have inv: "train_inv m0 U d ?st" by (simp only: train_inv_def)
  from epoch_loop_succeeds [OF mm U g bs n Xs sh ne inv, of "[0..<ne]"]
  obtain st' where el: "epoch_loop wd seed Xs d nbs lrs bs [0..<ne] ?st = (None, st')"
    and inv': "train_inv m0 U d st'" by blast
  from inv' obtain W1 where som: "ts_som st' = m0\<lparr>weights := W1\<rparr>" and mW1: "matrix U d W1"
    by (auto simp: train_inv_def)
  have W1: "matrix U d (weights (ts_som st'))" and s1: "scaler (ts_som st') = Scaler_fit s0 X"
    using som mW1 s by simp_all
  from fit_finish_succeeds [OF W1 s1 X n]
  obtain Wf where ff: "fit_finish (ts_som st') = (Inr (), (ts_som st')\<lparr>trained := True, weights := Wf\<rparr>)"
    and mWf: "matrix U d Wf" by blast
  have "fit_epochs wd m0 Xs d ne nbs lrs bs seed = (Inr (), m0\<lparr>trained := True, weights := Wf\<rparr>)"
    using ci el ff som by (simp add: fit_epochs_def schedule_succeeds [OF ne(1)] schedule_succeeds [OF ne(2)])
  with mWf show ?thesis by blast
qed


lemma fit_train_succeeds:
  assumes mm: "min_max m0 = np_min" and U: "0 < w * h"
    and md: "map_dimensions m0 = [w, h]" "weight_dim m0 = w * h"
    and tu: "0 < tu" and bsz: "0 < bsize" and n: "0 < n"
    and Xs: "matrix n d Xs" and sh: "\<forall>k. matrix n d (shuffle_rows wd seed k Xs)"
    and W: "matrix (w * h) d (weights m0)"
    and s: "scaler m0 = Scaler_fit s0 X" and X: "matrix n d X"
    and ep: "0 < ne" "0 < sl" "0 < sn"
  shows "\<exists>Wf g. fit_train wd m0 Xs d ne tu sl sn bsize seed =
      (Inr (), m0\<lparr>distance_grid := Some g, trained := True, weights := Wf\<rparr>) \<and>
      matrix (w * h) d Wf \<and> initialize_distance_grid m0 = Inr g"
proof -
  define bs where "bs = (if length Xs < bsize then length Xs else bsize)"
  have lX: "length Xs = n" using Xs by (simp add: matrix_def)
  have bs: "0 < bs" "bs \<le> n" using bsz n by (simp_all add: bs_def lX)
  from sh have sh0: "matrix n d (shuffle_rows wd seed 0 Xs)" ..
  from create_batches_shuffled [where sh = "shuffle_rows wd seed 0" and X = Xs, OF sh0 n bs]
  obtain batched where cb: "create_batches Xs d bs (Some (shuffle_rows wd seed 0)) = Inr batched"
    by blast
  from initialize_distance_grid_tensor [OF md]
  obtain g where ig: "initialize_distance_grid m0 = Inr g" and tg: "tensor (w * h) w h g" by blast
  have "bs * 1 \<le> length Xs * ne" unfolding lX using bs(2) ep(1) by (intro mult_le_mono) simp_all
  then have "1 \<le> length Xs * ne div bs" using bs(1) by (simp add: less_eq_div_iff_mult_less_eq)
  then have tl: "0 < length Xs * ne div bs" by simp
  from update_steps_nonempty [OF tu tl ep(2)] obtain lrs
    where ul: "update_steps (length Xs * ne div bs) sl tu = Inr lrs" and lne: "lrs \<noteq> []" by blast
  from update_steps_nonempty [OF tu tl ep(3)] obtain nbs
    where un: "update_steps (length Xs * ne div bs) sn tu = Inr nbs" and nne: "nbs \<noteq> []" by blast
  let ?m = "m0\<lparr>distance_grid := Some g\<rparr>"
  have g': "distance_grid ?m = Some g" "weight_dim ?m = w * h" using md by simp_all
  have mm': "min_max ?m = np_min" and W': "matrix (w * h) d (weights ?m)"
    and s': "scaler ?m = Scaler_fit s0 X"
    using mm W s by simp_all
  from fit_epochs_succeeds [OF mm' U g'(1) tg refl g'(2) bs n Xs sh W' s' X nne lne, of ne]
  obtain Wf where fe: "fit_epochs wd ?m Xs d ne nbs lrs bs seed =
      (Inr (), ?m\<lparr>trained := True, weights := Wf\<rparr>)" and mWf: "matrix (w * h) d Wf" by blast
  have "fit_train wd m0 Xs d ne tu sl sn bsize seed = fit_epochs wd ?m Xs d ne nbs lrs bs seed"
    using bs(1) cb ig ul un unfolding fit_train_def Let_def bs_def [symmetric] by simp
  with fe mWf ig show ?thesis by auto
qed

lemma initialize_distance_grid_cong:
  "map_dimensions m' = map_dimensions m \<Longrightarrow> weight_dim m' = weight_dim m \<Longrightarrow>
   initialize_distance_grid m' = initialize_distance_grid m"
  by (simp add: initialize_distance_grid_def grid_distance_def cong: map_cong)

lemma random_weights_matrix:
  assumes Xs: "matrix n d Xs" and n: "0 < n"
  shows "\<exists>W. random_weights wd m seed Xs d = Inr W \<and> matrix (length (weights m)) d W"
proof -
  let ?R = "rand wd seed (length (weights m)) d"
  have R: "matrix (length (weights m)) d ?R" by (rule rand_matrix)
  have ne: "Xs \<noteq> []" using Xs n by (auto simp: matrix_def)
  have nc: "ncols Xs = d" by (rule ncols_matrix [OF Xs n])
  let ?mx = "map (\<lambda>f. Max (set (column Xs f))) [0..<d]"
  let ?mn = "map (\<lambda>f. Min (set (column Xs f))) [0..<d]"
  let ?dr = "map2 (\<lambda>lo hi. lo + (hi - lo)) ?mn ?mx"
  have ld: "length ?dr = d" by simp
  let ?W = "map (\<lambda>r. map2 (*) ?dr r) ?R"
  have "sequence_sum (map (\<lambda>r. broadcast_row (*) ?dr r) ?R) = Inr ?W"
  proof (rule sequence_sum_map_cong)
    fix r assume "r \<in> set ?R"
    then have "length ?dr = length r" using R ld by (simp only: matrix_def)
    then show "broadcast_row (*) ?dr r = Inr (map2 (*) ?dr r)" by (rule broadcast_row_same)
  qed
  then have sw: "random_weights wd m seed Xs d = Inr ?W"
    unfolding random_weights_def Let_def nc using ne by (simp only: if_False)
  have "matrix (length (weights m)) d ?W" using R by (simp add: matrix_def)
  with sw show ?thesis by blast
qed

lemma pca_weights_matrix:
  assumes "pca_weights wd m Xs = Inr W"
  shows "matrix (length (weights m)) (ncols Xs) W"
  using assms
  by (auto simp: pca_weights_def bind_err_def Let_def matrix_def mean_axis0_def
      split: if_splits sum.splits prod.splits)

lemma seed_weights_matrix:
  assumes "seed_weights wd m xp seed ip Xs d = Inr W" and Xs: "matrix n d Xs" and n: "0 < n"
  shows "matrix (length (weights m)) d W"
proof (cases ip)
  case True
  with assms(1) have "pca_weights wd m Xs = Inr W"
    by (simp add: seed_weights_def split: if_splits)
  from pca_weights_matrix [OF this] show ?thesis by (simp only: ncols_matrix [OF Xs n])
next
  case False
  with assms(1) have "random_weights wd m seed Xs d = Inr W" by (simp add: seed_weights_def)
  with random_weights_matrix [OF Xs n, of wd m seed] show ?thesis by auto
qed

lemma fit_completes:
  assumes X: "wf_array n d X" and n: "0 < n" and dd: "d = data_dim m"
    and md: "map_dimensions m = [w, h]" "weight_dim m = w * h" "length (weights m) = w * h"
    and U: "0 < w * h" and mm: "min_max m = np_min"
    and tu: "0 < tu" and bsz: "0 < bsize"
    and ep: "0 < ne" "0 < sl" "0 < sn"
    and sh: "\<forall>k Y. matrix n d Y \<longrightarrow> matrix n d (shuffle_rows wd seed k Y)"
  shows "\<exists>Wf g. fit wd m X ne False tu sl sn bsize seed =
      (Inr (), m\<lparr>scaler := Scaler_fit (scaler m) (rows X), weights := Wf,
                 distance_grid := Some g, trained := True\<rparr>) \<and>
      matrix (w * h) d Wf \<and> initialize_distance_grid m = Inr g"
proof -
  have shp: "shape X = [n, d]" and mX: "matrix n d (rows X)" using X by (simp_all add: wf_array_def)
  have ci: "check_input m X = Inr ()" using shp dd by (simp add: check_input_def)
  let ?s = "Scaler_fit (scaler m) (rows X)"
  let ?Xs = "map (\<lambda>r. map2 (/) (map2 (-) r (mean_axis0 (rows X)))
      (map (\<lambda>a. a + 1 / 100000) (std_axis0 (rows X)))) (rows X)"
  have ft: "Scaler_fit_transform (scaler m) (rows X) = (Inr ?Xs, ?s)"
    by (simp add: Scaler_fit_transform_def Let_def Scaler_transform_fit [OF mX n])
  have mXs: "matrix n d ?Xs" using mX length_stats [OF mX n] by (simp add: matrix_def)
  let ?m1 = "m\<lparr>scaler := ?s\<rparr>"
  have l1: "length (weights ?m1) = w * h" using md by simp
  from random_weights_matrix [OF mXs n, of wd ?m1 seed]
  obtain W0 where rw: "random_weights wd ?m1 seed ?Xs d = Inr W0"
    and mW0: "matrix (w * h) d W0" unfolding l1 by blast
  have sw: "seed_weights wd ?m1 (module X) seed False ?Xs d = Inr W0"
    using rw by (simp add: seed_weights_def)
  let ?m2 = "?m1\<lparr>weights := W0\<rparr>"
  have shs: "\<forall>k. matrix n d (shuffle_rows wd seed k ?Xs)" using sh mXs by blast
  have f2: "min_max ?m2 = np_min" "map_dimensions ?m2 = [w, h]" "weight_dim ?m2 = w * h"
    "matrix (w * h) d (weights ?m2)" "scaler ?m2 = Scaler_fit (scaler m) (rows X)"
    using mm md mW0 by simp_all
  from fit_train_succeeds [OF f2(1) U f2(2,3) tu bsz n mXs shs f2(4,5) mX ep]
  obtain Wf g where ftr: "fit_train wd ?m2 ?Xs d ne tu sl sn bsize seed =
      (Inr (), ?m2\<lparr>distance_grid := Some g, trained := True, weights := Wf\<rparr>)"
    and mWf: "matrix (w * h) d Wf" and ig2: "initialize_distance_grid ?m2 = Inr g" by blast
  have ig: "initialize_distance_grid m = Inr g"
    using ig2 initialize_distance_grid_cong [of ?m2 m] by simp
  have "fit wd m X ne False tu sl sn bsize seed =
      (Inr (), m\<lparr>scaler := ?s, weights := Wf, distance_grid := Some g, trained := True\<rparr>)"
    using ci ft sw ftr shp by (simp add: fit_def Let_def)
  with mWf ig show ?thesis by blast
qed

text \<open>
  The shape of the weights in a call of \<^verbatim>\<open>fit\<close> that returns: the assignment in place of
  \<^verbatim>\<open>backward\<close> keeps the shape of its left operand, whatever the selector has chosen.
\<close>

lemma sequence_sum_Inr_D:
  "sequence_sum xs = Inr ys \<Longrightarrow> length ys = length xs \<and> (\<forall>i < length xs. xs ! i = Inr (ys ! i))"
proof (induction xs arbitrary: ys)
  case Nil
  then show ?case by simp
next
  case (Cons x xs)
  from Cons.prems obtain v vs where x: "x = Inr v" and vs: "sequence_sum xs = Inr vs"
    and ys: "ys = v # vs"
    by (auto split: sum.splits)
  from Cons.IH [OF vs] show ?case using x ys by (auto simp: nth_Cons split: nat.splits)
qed

lemma broadcast_into_D:
  assumes "broadcast_into g xs ys = Inr zs"
  shows "length zs = length xs \<and> (\<forall>i < length xs. \<exists>y. g (xs ! i) y = Inr (zs ! i))"
proof (cases "length xs = length ys")
  case True
  with assms have "sequence_sum (map2 g xs ys) = Inr zs" by (simp add: broadcast_into_def)
  from sequence_sum_Inr_D [OF this] True show ?thesis by auto
next
  case False
  with assms have "sequence_sum (map (\<lambda>x. g x (hd ys)) xs) = Inr zs"
    by (simp add: broadcast_into_def split: if_splits)
  from sequence_sum_Inr_D [OF this] show ?thesis by auto
qed

lemma iadd_keeps_shape:
  assumes r: "broadcast_into (broadcast_into (\<lambda>w d. Inr (w + d))) W D = Inr W'"
    and W: "matrix U d W"
  shows "matrix U d W'"
proof -
  from broadcast_into_D [OF r] have l: "length W' = length W"
    and e: "\<forall>i < length W. \<exists>y. broadcast_into (\<lambda>w d. Inr (w + d)) (W ! i) y = Inr (W' ! i)"
    by blast+
  have "length (W' ! i) = d" if i: "i < U" for i
  proof -
    from W i have iW: "i < length W" and li: "length (W ! i) = d" by (simp_all add: matrix_nth_iff)
    from e iW obtain y where "broadcast_into (\<lambda>w d. Inr (w + d)) (W ! i) y = Inr (W' ! i)" by blast
    from broadcast_into_D [OF this] li show ?thesis by simp
  qed
  then show ?thesis using l W by (simp add: matrix_nth_iff)
qed

lemma propagate_keeps_shape:
  assumes "propagate m x infl = Inr (a, m')" and W: "matrix U d (weights m)"
  shows "\<exists>W'. m' = m\<lparr>weights := W'\<rparr> \<and> matrix U d W'"
  using assms(1) iadd_keeps_shape [OF _ W]
  by (auto simp: propagate_def backward_def bind_err_def split: sum.splits prod.splits)

lemma weights_inv_som:
  "ts_som st' = ts_som st \<Longrightarrow> weights_inv m0 U d st \<Longrightarrow> weights_inv m0 U d st'"
  by (simp add: weights_inv_def)

lemma batch_loop_weights_inv:
  "weights_inv m0 U d st \<Longrightarrow> weights_inv m0 U d (snd (batch_loop wd nbs lrs bs n xs np lr st))"
proof (induction xs arbitrary: np lr st)
  case Nil
  then show ?case by simp
next
  case (Cons x xs)
  let ?x = "if n < np + bs then take (length x - (np + bs - n)) x else x"
  from Cons.prems obtain W where som: "ts_som st = m0\<lparr>weights := W\<rparr>" and mW: "matrix U d W"
    by (auto simp: weights_inv_def)
  show ?case
  proof (cases "propagate (ts_som st) ?x (ts_influences st)")
    case (Inl e)
    then show ?thesis using Cons.prems by simp
  next
    case (Inr r)
    obtain a m' where r: "r = (a, m')" by (cases r)
    have "matrix U d (weights (ts_som st))" using som mW by simp
    from propagate_keeps_shape [OF Inr [unfolded r] this]
    obtain W' where m': "m' = (ts_som st)\<lparr>weights := W'\<rparr>" and mW': "matrix U d W'" by blast
    have inva: "weights_inv m0 U d (st\<lparr>ts_som := m'\<rparr>)"
      using som m' mW' by (auto simp: weights_inv_def)
    show ?thesis
    proof (cases "nb_update wd nbs lr (st\<lparr>ts_som := m'\<rparr>)")
      case (Inl e)
      with Inr r inva show ?thesis by simp
    next
      case st1: (Inr st1)
      have inv1: "weights_inv m0 U d st1"
        using weights_inv_som [OF nb_update_som [OF st1] inva] .
      show ?thesis
      proof (cases "lr_update wd lrs lr st1")
        case (Inl e)
        then show ?thesis using Inr r st1 inv1 by simp
      next
        case l0: (Inr p)
        obtain lr' st2 where p: "p = (lr', st2)" by (cases p)
        note l = l0 [unfolded p]
        have inv2: "weights_inv m0 U d st2"
          using weights_inv_som [OF lr_update_som [OF l] inv1] .
        then have "weights_inv m0 U d (st2\<lparr>ts_idx := ts_idx st2 + 1\<rparr>)"
          by (simp add: weights_inv_def)
        from Cons.IH [OF this]
        have "weights_inv m0 U d (snd (batch_loop wd nbs lrs bs n xs (np + bs) lr'
            (st2\<lparr>ts_idx := ts_idx st2 + 1\<rparr>)))" .
        then show ?thesis using Inr r st1 l by simp
      qed
    qed
  qed
qed

lemma epoch_weights_inv:
  "weights_inv m0 U d st \<Longrightarrow> weights_inv m0 U d (snd (epoch wd seed k X d' nbs lrs bs st))"
  by (auto simp: epoch_def batch_loop_weights_inv split: sum.splits)

lemma epoch_loop_weights_inv:
  "weights_inv m0 U d st \<Longrightarrow> weights_inv m0 U d (snd (epoch_loop wd seed X d' nbs lrs bs es st))"
proof (induction es arbitrary: st)
  case Nil
  then show ?case by simp
next
  case (Cons e es)
  obtain r st' where ep: "epoch wd seed (Suc e) X d' nbs lrs bs st = (r, st')"
    by (cases "epoch wd seed (Suc e) X d' nbs lrs bs st")
  have i1: "weights_inv m0 U d st'"
    using epoch_weights_inv [OF Cons.prems, of wd seed "Suc e" X d' nbs lrs bs] ep by simp
  show ?case
  proof (cases r)
    case None
    then show ?thesis using ep Cons.IH [OF i1] by simp
  next
    case (Some err)
    then show ?thesis using ep i1 by simp
  qed
qed

lemma fit_epochs_returns:
  assumes f: "fit_epochs wd m0 Xs d' ne nbs lrs bs seed = (Inr (), m')"
    and W: "matrix U d (weights m0)"
    and s: "scaler m0 = Scaler_fit s0 X" and X: "matrix n d X" and n: "0 < n"
  shows "\<exists>Wf. m' = m0\<lparr>trained := True, weights := Wf\<rparr> \<and> matrix U d Wf"
proof -
  from f obtain lr infl st
    where el: "epoch_loop wd seed Xs d' nbs lrs bs [0..<ne]
        \<lparr>ts_som = m0, ts_idx = 0, ts_nb_step = 0, ts_lr_step = 0,
         ts_influences = scale3 lr infl\<rparr> = (None, st)"
    and ff: "fit_finish (ts_som st) = (Inr (), m')"
    by (auto simp: fit_epochs_def split: sum.splits prod.splits option.splits)
  let ?st0 = "\<lparr>ts_som = m0, ts_idx = 0, ts_nb_step = 0, ts_lr_step = 0,
         ts_influences = scale3 lr infl\<rparr>"
  have "ts_som ?st0 = m0\<lparr>weights := weights m0\<rparr>" by simp
  then have "weights_inv m0 U d ?st0" unfolding weights_inv_def using W by blast
  from epoch_loop_weights_inv [OF this, of wd seed Xs d' nbs lrs bs "[0..<ne]"] el
  have "weights_inv m0 U d st" by simp
  then obtain W1 where som: "ts_som st = m0\<lparr>weights := W1\<rparr>" and mW1: "matrix U d W1"
    by (auto simp: weights_inv_def)
  have W1: "matrix U d (weights (ts_som st))" and s1: "scaler (ts_som st) = Scaler_fit s0 X"
    using som mW1 s by simp_all
  from fit_finish_succeeds [OF W1 s1 X n]
  obtain Wf where "fit_finish (ts_som st) = (Inr (), (ts_som st)\<lparr>trained := True, weights := Wf\<rparr>)"
    and mWf: "matrix U d Wf" by blast
  with ff som have "m' = m0\<lparr>trained := True, weights := Wf\<rparr>" by simp
  with mWf show ?thesis by blast
qed

lemma fit_train_returns:
  assumes f: "fit_train wd m0 Xs d' ne tu sl sn bsize seed = (Inr (), m')"
    and W: "matrix U d (weights m0)"
    and s: "scaler m0 = Scaler_fit s0 X" and X: "matrix n d X" and n: "0 < n"
  shows "\<exists>Wf g. m' = m0\<lparr>distance_grid := Some g, trained := True, weights := Wf\<rparr> \<and>
           matrix U d Wf"
proof -
  from f obtain g nbs lrs bs where
    fe: "fit_epochs wd (m0\<lparr>distance_grid := Some g\<rparr>) Xs d' ne nbs lrs bs seed = (Inr (), m')"
    by (auto simp: fit_train_def Let_def split: if_splits sum.splits)
  have "matrix U d (weights (m0\<lparr>distance_grid := Some g\<rparr>))"
    "scaler (m0\<lparr>distance_grid := Some g\<rparr>) = Scaler_fit s0 X"
    using W s by simp_all
  from fit_epochs_returns [OF fe this X n] show ?thesis by blast
qed

lemma fit_returns:
  assumes f: "fit wd m X ne ip tu sl sn bsize seed = (Inr (), m')"
    and X: "wf_array n d X"
  shows "0 < n \<and> data_dim m = d \<and>
    (\<exists>Wf g. m' = m\<lparr>scaler := Scaler_fit (scaler m) (rows X), weights := Wf,
                     distance_grid := Some g, trained := True\<rparr> \<and>
             matrix (length (weights m)) d Wf)"
proof -
  have shp: "shape X = [n, d]" and mX: "matrix n d (rows X)" using X by (simp_all add: wf_array_def)
  let ?s = "Scaler_fit (scaler m) (rows X)"
  from f have ci: "check_input m X = Inr ()" by (auto simp: fit_def split: sum.splits)
  then have dd: "data_dim m = d" using shp by (simp add: check_input_def split: if_splits)
  from f ci obtain Xs W0 where ft: "Scaler_transform ?s (rows X) = Inr Xs"
    and sw: "seed_weights wd (m\<lparr>scaler := ?s\<rparr>) (module X) seed ip Xs d = Inr W0"
    and ftr: "fit_train wd (m\<lparr>scaler := ?s, weights := W0\<rparr>) Xs d ne tu sl sn bsize seed = (Inr (), m')"
    by (auto simp: fit_def Scaler_fit_transform_def Let_def shp split: sum.splits)
  have n: "0 < n"
  proof (rule ccontr)
    assume "\<not> 0 < n"
    then have "rows X = []" using mX by (simp add: matrix_def)
    then have "Xs = []" using ft
      by (simp add: Scaler_transform_def Scaler_fit_def broadcast_stat_def stat_add_def bind_err_def)
    then have b0: "(if length Xs < bsize then length Xs else bsize) = 0" by simp
    have "fst (fit_train wd m0 Xs d ne tu sl sn bsize seed) = Inl ZeroDivisionError" for m0
      unfolding fit_train_def Let_def b0 by simp
    from this [of "m\<lparr>scaler := ?s, weights := W0\<rparr>"] show False unfolding ftr by simp
  qed
  have Xs: "Xs = map (\<lambda>r. map2 (/) (map2 (-) r (mean_axis0 (rows X)))
      (map (\<lambda>a. a + 1 / 100000) (std_axis0 (rows X)))) (rows X)"
    using ft Scaler_transform_fit [OF mX n, of "scaler m"] by simp
  have mXs: "matrix n d Xs" unfolding Xs using mX length_stats [OF mX n] by (simp add: matrix_def)
  from seed_weights_matrix [OF sw mXs n]
  have mW0: "matrix (length (weights m)) d W0" by simp
  let ?m2 = "m\<lparr>scaler := ?s, weights := W0\<rparr>"
  have "matrix (length (weights m)) d (weights ?m2)" "scaler ?m2 = Scaler_fit (scaler m) (rows X)"
    using mW0 by simp_all
  from fit_train_returns [OF ftr this mX n]
  obtain Wf g where "m' = ?m2\<lparr>distance_grid := Some g, trained := True, weights := Wf\<rparr>"
    and mWf: "matrix (length (weights m)) d Wf" by blast
  then have "m' = m\<lparr>scaler := ?s, weights := Wf, distance_grid := Some g, trained := True\<rparr>"
    by simp
  with n dd mWf show ?thesis by blast
qed

lemma concat_chunk_row:
  "\<forall>r \<in> set xs. length r = d \<Longrightarrow> k < length xs \<Longrightarrow>
   take d (drop (k * d) (concat xs)) = xs ! k"
proof (induction xs arbitrary: k)
  case Nil
  then show ?case by simp
next
  case (Cons x xs)
  show ?case
  proof (cases k)
    case 0
    then show ?thesis using Cons.prems by simp
  next
    case (Suc j)
    then have "take d (drop (j * d) (concat xs)) = xs ! j" using Cons by simp
    then show ?thesis using Cons.prems Suc by simp
  qed
qed

lemma unit_index_less:
  assumes "r < w" "c < h"
  shows "r * h + c < w * (h :: nat)"
proof -
  have "r * h + c < r * h + h" using assms(2) by simp
  also have "\<dots> = Suc r * h" by simp
  also have "\<dots> \<le> w * h" using assms(1) by (intro mult_le_mono1) simp
  finally show ?thesis .
qed

lemma map_weights_layout:
  assumes md: "map_dimensions m = [w, h]" and W: "matrix (w * h) d (weights m)"
    and dd: "data_dim m = d" and s: "scaler m = Scaler_fit s0 X"
    and X: "matrix n d X" and n: "0 < n"
  shows "\<exists>Wu out. Scaler_inverse_transform (scaler m) (weights m) = Inr Wu \<and>
           matrix (w * h) d Wu \<and>
           map_weights m = Inr out \<and> length out = h \<and> tensor h w d out \<and>
           (\<forall>c < h. length (out ! c) = w \<and> (\<forall>r < w. out ! c ! r = Wu ! (r * h + c)))"
proof -
  let ?Wu = "map (\<lambda>r. map2 (+) (map2 (*) r (std_axis0 X)) (mean_axis0 X)) (weights m)"
  have it: "Scaler_inverse_transform (scaler m) (weights m) = Inr ?Wu"
    unfolding s by (rule Scaler_inverse_transform_fit [OF W X n])
  have mWu: "matrix (w * h) d ?Wu" using W length_stats [OF X n] by (simp add: matrix_def)
  then have rl: "\<forall>r \<in> set ?Wu. length r = d" and lW: "length ?Wu = w * h"
    unfolding matrix_def by blast+
  have lc: "length (concat ?Wu) = w * h * d" using length_concat_uniform [OF rl] lW by simp
  let ?a = "map (\<lambda>i. map (\<lambda>j. take d (drop ((i * h + j) * d) (concat ?Wu))) [0..<h]) [0..<w]"
  have rs: "reshape3 (concat ?Wu) w h d = Inr ?a" unfolding reshape3_def lc by (simp only: refl if_True)
  let ?out = "transpose102 w h ?a"
  have mw: "map_weights m = Inr ?out"
    unfolding map_weights_def md it dd by (simp add: rs)
  have lo: "length ?out = h" by (simp add: transpose102_def)
  have ent: "length (?out ! c) = w \<and> (\<forall>r < w. ?out ! c ! r = ?Wu ! (r * h + c))" if c: "c < h" for c
  proof -
    have "?out ! c ! r = ?Wu ! (r * h + c)" if r: "r < w" for r
    proof -
      have "r * h + c < w * h" by (rule unit_index_less [OF r c])
      then have k: "r * h + c < length ?Wu" using lW by simp
      have "?out ! c ! r = take d (drop ((r * h + c) * d) (concat ?Wu))"
        using c r by (simp add: transpose102_def)
      also have "\<dots> = ?Wu ! (r * h + c)" by (rule concat_chunk_row [OF rl k])
      finally show ?thesis .
    qed
    moreover have "length (?out ! c) = w" using c by (simp add: transpose102_def)
    ultimately show ?thesis by blast
  qed
  have "matrix w d (?out ! c)" if c: "c < h" for c
  proof -
    from ent [OF c] have l: "length (?out ! c) = w"
      and e: "\<forall>r < w. ?out ! c ! r = ?Wu ! (r * h + c)" by blast+
    have "length (?out ! c ! r) = d" if r: "r < w" for r
    proof -
      have "r * h + c < w * h" by (rule unit_index_less [OF r c])
      then have "length (?Wu ! (r * h + c)) = d" using mWu by (simp only: matrix_nth_iff)
      then show ?thesis using e r by simp
    qed
    then show ?thesis using l by (simp add: matrix_nth_iff)
  qed
  then have tn: "tensor h w d ?out" using lo by (simp add: tensor_def all_set_conv_all_nth)
  from it mWu mw lo tn ent show ?thesis by blast
qed


text \<open>
  Claim C5, as amended.  Let a call of \<^verbatim>\<open>fit\<close> return without an exception, whatever the
  seeding, the selector and the other arguments, on an array of the shape \<open>(n, d)\<close> and for
  a map of \<open>width \<times> height\<close> units whose weight matrix has one row per unit, as the
  constructor makes it and \<^verbatim>\<open>fit\<close> leaves it.  Then the map is trained, and \<^verbatim>\<open>map_weights\<close>
  returns an array of the shape \<open>(height, width, data_dim)\<close>: the matrix that it computes
  from the weights with the inverse transformation of the scaler has one row per unit,
  and the entry \<open>[c][r]\<close> of the result is the row of unit \<open>r * height + c\<close> of that matrix,
  the unit in row \<open>r\<close> and column \<open>c\<close> of \<^verbatim>\<open>_grid_distance\<close>.
\<close>

theorem map_weights_after_fit:
  assumes f: "fit wd m X ne ip tu sl sn bsize seed = (Inr (), m')"
    and X: "wf_array n d X"
    and md: "map_dimensions m = [w, h]" "length (weights m) = w * h"
  shows "trained m' \<and> map_dimensions m' = [w, h] \<and> data_dim m' = d \<and>
         (\<exists>Wu out. Scaler_inverse_transform (scaler m') (weights m') = Inr Wu \<and>
            matrix (w * h) d Wu \<and>
            map_weights m' = Inr out \<and> tensor h w d out \<and>
            (\<forall>c < h. \<forall>r < w. out ! c ! r = Wu ! (r * h + c)))"
proof -
  from fit_returns [OF f X] obtain Wf g where n: "0 < n" and dd: "data_dim m = d"
    and m': "m' = m\<lparr>scaler := Scaler_fit (scaler m) (rows X), weights := Wf,
                     distance_grid := Some g, trained := True\<rparr>"
    and mWf: "matrix (length (weights m)) d Wf" by blast
  have mX: "matrix n d (rows X)" using X by (simp add: wf_array_def)
  have f': "map_dimensions m' = [w, h]" "matrix (w * h) d (weights m')" "data_dim m' = d"
    "scaler m' = Scaler_fit (scaler m) (rows X)" "trained m'"
    using md mWf dd by (simp_all add: m')
  from map_weights_layout [OF f'(1-4) mX n]
  obtain Wu out where "Scaler_inverse_transform (scaler m') (weights m') = Inr Wu"
    "matrix (w * h) d Wu" "map_weights m' = Inr out" "tensor h w d out"
    "\<forall>c < h. length (out ! c) = w \<and> (\<forall>r < w. out ! c ! r = Wu ! (r * h + c))"
    by blast
  with f'(1,3,5) show ?thesis by blast
qed

lemma example_fit_facts:
  "wf_array 2 1 two_points" "1 = data_dim two_unit_map" "map_dimensions two_unit_map = [2, 1]"
  "weight_dim two_unit_map = 2 * 1" "length (weights two_unit_map) = 2 * 1"
  "min_max two_unit_map = np_min"
  "\<forall>k Y. matrix 2 1 Y \<longrightarrow> matrix 2 1 (shuffle_rows example_world 44 k Y)"
  by (simp_all add: wf_array_def two_points_def two_unit_map_def matrix_def example_world_def)

lemma example_fit_completes:
  "\<exists>Wf g. fit example_world two_unit_map two_points 1 False 50 1 1 100 44 =
      (Inr (), two_unit_map\<lparr>scaler := Scaler_fit (scaler two_unit_map) (rows two_points),
                 weights := Wf, distance_grid := Some g, trained := True\<rparr>) \<and>
      matrix (2 * 1) 1 Wf"
proof -
  have p: "(0 :: nat) < 2" "(0 :: nat) < 2 * 1" "(0 :: nat) < 50" "(0 :: nat) < 100"
    "(0 :: nat) < 1" "(0 :: real) < 1"
    by simp_all
  from fit_completes [OF example_fit_facts(1) p(1) example_fit_facts(2-5) p(2)
          example_fit_facts(6) p(3,4,5,6,6) example_fit_facts(7)]
  show ?thesis by blast
qed

theorem map_weights_after_fit_witness:
  "\<exists>m' Wu out. fit example_world two_unit_map two_points 1 False 50 1 1 100 44 = (Inr (), m') \<and>
     wf_array 2 1 two_points \<and> map_dimensions two_unit_map = [2, 1] \<and>
     length (weights two_unit_map) = 2 * 1 \<and>
     trained m' \<and> map_dimensions m' = [2, 1] \<and>
     Scaler_inverse_transform (scaler m') (weights m') = Inr Wu \<and>
     map_weights m' = Inr out \<and> tensor 1 2 1 out \<and>
     out ! 0 ! 0 = Wu ! 0 \<and> out ! 0 ! 1 = Wu ! 1"
proof -
  from example_fit_completes obtain m'
    where f: "fit example_world two_unit_map two_points 1 False 50 1 1 100 44 = (Inr (), m')"
    by blast
  from map_weights_after_fit [OF f example_fit_facts(1,3,5)]
  obtain Wu out where t: "trained m'" "map_dimensions m' = [2, 1]"
    and r: "Scaler_inverse_transform (scaler m') (weights m') = Inr Wu"
      "map_weights m' = Inr out" "tensor 1 2 1 out"
    and e: "\<forall>c < 1. \<forall>r < 2. out ! c ! r = Wu ! (r * 1 + c)"
    by blast
  from e have "out ! 0 ! 0 = Wu ! 0" "out ! 0 ! 1 = Wu ! 1" by simp_all
  with f t r example_fit_facts(1,3,5) show ?thesis by blast
qed

lemma two_points_stats:
  "mean_axis0 (rows two_points) = [1]" "std_axis0 (rows two_points) = [1]"
  by (simp_all add: two_points_def mean_axis0_def std_axis0_def ncols_def column_def
      mean_list_def std_list_def)

text \<open>
  Claim C5 as stated fails on the map of 2 by 1 units, trained for one epoch on
  \<open>two_points\<close>: \<^verbatim>\<open>map_weights\<close> returns an array whose first axis has the length 1, the
  height, and not 2, the width; and its first entry is the first weight plus 1, the mean
  of the data, since \<^verbatim>\<open>map_weights\<close> applies the inverse transformation to weights that
  \<^verbatim>\<open>fit\<close> has transformed back already.
\<close>

theorem map_weights_after_fit_counterexample:
  "case fit example_world two_unit_map two_points 1 False 50 1 1 100 44 of
     (Inl e, m') \<Rightarrow> False
   | (Inr u, m') \<Rightarrow>
       (case map_weights m' of
          Inl e \<Rightarrow> False
        | Inr out \<Rightarrow>
            map_dimensions m' = [2, 1] \<and> length out = 1 \<and>
            out ! 0 ! 0 ! 0 = weights m' ! 0 ! 0 + 1)"
proof -
  have p: "(0 :: nat) < 2" by simp
  from example_fit_completes
  obtain Wf g where f: "fit example_world two_unit_map two_points 1 False 50 1 1 100 44 =
      (Inr (), two_unit_map\<lparr>scaler := Scaler_fit (scaler two_unit_map) (rows two_points),
                 weights := Wf, distance_grid := Some g, trained := True\<rparr>)"
    and mWf: "matrix (2 * 1) 1 Wf" by blast
  let ?m' = "two_unit_map\<lparr>scaler := Scaler_fit (scaler two_unit_map) (rows two_points),
                 weights := Wf, distance_grid := Some g, trained := True\<rparr>"
  have mX: "matrix 2 1 (rows two_points)" using example_fit_facts(1) by (simp add: wf_array_def)
  have f': "map_dimensions ?m' = [2, 1]" "matrix (2 * 1) 1 (weights ?m')" "data_dim ?m' = 1"
    "scaler ?m' = Scaler_fit (scaler two_unit_map) (rows two_points)"
    using mWf by (simp_all add: two_unit_map_def)
  from map_weights_layout [OF f'(1-4) mX p]
  obtain Wu out where it: "Scaler_inverse_transform (scaler ?m') (weights ?m') = Inr Wu"
    and mw: "map_weights ?m' = Inr out" and lo: "length out = 1"
    and ent: "\<forall>c < 1. length (out ! c) = 2 \<and> (\<forall>r < 2. out ! c ! r = Wu ! (r * 1 + c))"
    by blast
  have "Scaler_inverse_transform (scaler ?m') (weights ?m') =
      Inr (map (\<lambda>r. map2 (+) (map2 (*) r (std_axis0 (rows two_points))) (mean_axis0 (rows two_points))) Wf)"
    using Scaler_inverse_transform_fit [OF mWf mX p, of "scaler two_unit_map"] by simp
  with it have Wu: "Wu = map (\<lambda>r. map2 (+) (map2 (*) r [1]) [1]) Wf"
    by (simp add: two_points_stats)
  have l0: "length (Wf ! 0) = 1" "0 < length Wf" using mWf by (simp_all add: matrix_nth_iff)
  then obtain v where v: "Wf ! 0 = [v]" by (cases "Wf ! 0") auto
  have "out ! 0 ! 0 = Wu ! 0" using ent by simp
  then have "out ! 0 ! 0 ! 0 = Wf ! 0 ! 0 + 1" using l0 v by (simp add: Wu)
  then show ?thesis using f mw lo f'(1) by simp
qed

end
